(* ===== verification/Prelude.thy ===== *)
theory Prelude
  imports Main "HOL-Library.Word" "HOL-Library.Char_ord" "HOL-Library.List_Lexorder"
    "HOL-Library.Monad_Syntax"
begin

text \<open>
  What every component of the development shares: the collections of rewrite rules the component
  theories fill (\<open>go_str\<close> for strings, \<open>go_num\<close> for machine integers, \<open>store_simps\<close> and
  \<open>pass_simps\<close> for the two stateful components), Go's 64-bit signed arithmetic, generic facts
  about lists and finite maps, and the locale \<open>best_pick\<close>, the contract of every loop that
  scans a list and keeps the best element seen so far.
\<close>

named_theorems go_str \<open>facts about Go's string functions\<close>
named_theorems go_num \<open>facts about 64-bit signed integers\<close>
named_theorems store_simps \<open>the notification state's operations\<close>
named_theorems pass_simps \<open>the per-pass registry cache's operations\<close>

section \<open>Machine integers\<close>

text \<open>
  Go's \<open>int\<close>, \<open>int64\<close> and \<open>time.Duration\<close> are 64-bit two's complement numbers whose arithmetic
  wraps. A value is modelled by the \<open>int\<close> it stands for; \<open>wrap64\<close> is the reduction an overflowing
  operation applies.
\<close>

definition wrap64 :: "int \<Rightarrow> int" where
  "wrap64 x = (x + 2 ^ 63) mod 2 ^ 64 - 2 ^ 63"

definition int64 :: "int \<Rightarrow> bool" where
  "int64 x \<longleftrightarrow> - (2 ^ 63) \<le> x \<and> x < 2 ^ 63"

lemma wrap64_id [go_num]: "int64 x \<Longrightarrow> wrap64 x = x"
  by (simp add: wrap64_def int64_def)

lemma int64_wrap64 [go_num, simp]: "int64 (wrap64 x)"
  by (simp add: wrap64_def int64_def)

lemma wrap64_sint: "wrap64 x = sint (word_of_int x :: 64 word)"
proof -
  have "sint (word_of_int x :: 64 word) = signed_take_bit 63 x"
    by (simp add: sint_sbintrunc')
  also have "\<dots> = wrap64 x"
    by (simp add: signed_take_bit_eq_take_bit_shift take_bit_eq_mod wrap64_def)
  finally show ?thesis by simp
qed

text \<open>Durations are counted in nanoseconds.\<close>

type_synonym duration = int

definition second :: duration where "second = 1000000000"
definition minute :: duration where "minute = 60 * second"
definition hour :: duration where "hour = 60 * minute"

definition dur_mul :: "int \<Rightarrow> duration \<Rightarrow> duration" where
  "dur_mul n d = wrap64 (n * d)"

lemma int64_dur_mul [go_num, simp]: "int64 (dur_mul n d)"
  by (simp add: dur_mul_def)

lemma dur_mul_exact [go_num]: "int64 (n * d) \<Longrightarrow> dur_mul n d = n * d"
  by (simp add: dur_mul_def wrap64_id)

section \<open>Finite maps\<close>

lemma restrict_dom_subset: "dom (m |` A) \<subseteq> A"
  by auto

lemma map_of_filter_key:
  "map_of (filter (\<lambda>(k, _). k \<in> A) xs) = map_of xs |` A"
  by (induction xs) (auto simp: restrict_map_def fun_eq_iff)

section \<open>Lists\<close>

lemma distinct_snoc_new: "distinct xs \<Longrightarrow> x \<notin> set xs \<Longrightarrow> distinct (xs @ [x])"
  by simp

lemma filter_length_split:
  "length (filter P xs) + length (filter (\<lambda>x. \<not> P x) xs) = length xs"
  by (induction xs) auto

section \<open>Keeping the best candidate\<close>

text \<open>
  Several loops of the code scan a list, skip what is not a candidate and replace the best
  candidate so far when the new one beats it. The interface of such a loop: \<open>cand\<close> reads an
  element (\<open>None\<close>: skipped), \<open>beats\<close> is the replacement test. Its laws make the result depend only
  on the set of elements: \<open>beats\<close> is a strict order in which two different elements are always
  comparable.
\<close>

fun pick_best :: "('a \<Rightarrow> 'v option) \<Rightarrow> ('a \<times> 'v \<Rightarrow> 'a \<times> 'v \<Rightarrow> bool) \<Rightarrow> 'a list
    \<Rightarrow> ('a \<times> 'v) option \<Rightarrow> ('a \<times> 'v) option" where
  "pick_best cand beats [] acc = acc"
| "pick_best cand beats (x # xs) acc =
     (case cand x of
        None \<Rightarrow> pick_best cand beats xs acc
      | Some v \<Rightarrow>
          (case acc of
             None \<Rightarrow> pick_best cand beats xs (Some (x, v))
           | Some b \<Rightarrow>
               pick_best cand beats xs (if beats (x, v) b then Some (x, v) else Some b)))"

locale best_pick =
  fixes cand :: "'a \<Rightarrow> 'v option"
    and beats :: "'a \<times> 'v \<Rightarrow> 'a \<times> 'v \<Rightarrow> bool"
  assumes irrefl: "cand x = Some v \<Longrightarrow> \<not> beats (x, v) (x, v)"
    and trans: "\<lbrakk>cand x = Some u; cand y = Some v; cand z = Some w;
        beats (x, u) (y, v); beats (y, v) (z, w)\<rbrakk> \<Longrightarrow> beats (x, u) (z, w)"
    and total: "\<lbrakk>cand x = Some u; cand y = Some v; x \<noteq> y\<rbrakk>
        \<Longrightarrow> beats (x, u) (y, v) \<or> beats (y, v) (x, u)"
begin

definition is_best :: "'a set \<Rightarrow> 'a \<times> 'v \<Rightarrow> bool" where
  "is_best S b \<longleftrightarrow> fst b \<in> S \<and> cand (fst b) = Some (snd b) \<and>
     (\<forall>y\<in>S. \<forall>w. cand y = Some w \<longrightarrow> \<not> beats (y, w) b)"

lemma is_best_unique:
  assumes "is_best S b" and "is_best S c"
  shows "b = c"
proof (rule ccontr)
  assume ne: "b \<noteq> c"
  have cb: "cand (fst b) = Some (snd b)" and cc: "cand (fst c) = Some (snd c)"
    using assms by (auto simp: is_best_def)
  have "fst b \<noteq> fst c"
    using ne cb cc by (auto simp: prod_eq_iff)
  then have "beats b c \<or> beats c b"
    using total [OF cb cc] by simp
  moreover have "\<not> beats b c" "\<not> beats c b"
    using assms cb cc by (auto simp: is_best_def)
  ultimately show False by simp
qed

lemma beats_not_sym:
  "\<lbrakk>cand x = Some u; cand y = Some v; beats (x, u) (y, v)\<rbrakk> \<Longrightarrow> \<not> beats (y, v) (x, u)"
  using trans [of x u y v x u] irrefl [of x u] by blast

lemma is_best_step:
  assumes b: "is_best S b" and x: "cand x = Some v"
  shows "is_best (insert x S) (if beats (x, v) b then (x, v) else b)"
proof (cases "beats (x, v) b")
  case True
  have "\<not> beats (y, w) (x, v)" if "y \<in> S" "cand y = Some w" for y w
    using that b trans [of y w x v "fst b" "snd b"] x True by (auto simp: is_best_def)
  then show ?thesis
    using True x by (auto simp: is_best_def irrefl)
next
  case False
  then show ?thesis
    using b x by (auto simp: is_best_def)
qed

lemma is_best_skip: "is_best S b \<Longrightarrow> cand x = None \<Longrightarrow> is_best (insert x S) b"
  by (auto simp: is_best_def)

lemma pick_best_from:
  "is_best S b \<Longrightarrow>
     \<exists>c. pick_best cand beats xs (Some b) = Some c \<and> is_best (S \<union> set xs) c"
proof (induction xs arbitrary: S b)
  case Nil
  then show ?case by simp
next
  case (Cons x xs)
  show ?case
  proof (cases "cand x")
    case None
    with Cons.IH [of "insert x S" b] Cons.prems show ?thesis
      by (simp add: is_best_skip)
  next
    case (Some v)
    let ?b = "if beats (x, v) b then (x, v) else b"
    from Cons.IH [OF is_best_step [OF Cons.prems Some]] Some show ?thesis
      by (auto split: if_splits)
  qed
qed

lemma pick_best_None:
  "pick_best cand beats xs None = None \<longleftrightarrow> (\<forall>x\<in>set xs. cand x = None)"
proof (induction xs)
  case Nil
  then show ?case by simp
next
  case (Cons x xs)
  show ?case
  proof (cases "cand x")
    case None
    with Cons show ?thesis by simp
  next
    case (Some v)
    have "is_best {x} (x, v)"
      using Some by (simp add: is_best_def irrefl)
    with pick_best_from [of "{x}" "(x, v)" xs] Some show ?thesis by auto
  qed
qed

lemma pick_best_Some:
  "pick_best cand beats xs None = Some b \<longleftrightarrow> is_best (set xs) b"
proof -
  have some: "pick_best cand beats ys None = Some c \<Longrightarrow> is_best (set ys) c" for ys c
  proof (induction ys)
    case (Cons x ys)
    show ?case
    proof (cases "cand x")
      case None
      with Cons show ?thesis by (simp add: is_best_skip)
    next
      case (Some v)
      have "is_best {x} (x, v)"
        using Some by (simp add: is_best_def irrefl)
      with pick_best_from [of "{x}" "(x, v)" ys] Some Cons.prems show ?thesis by auto
    qed
  qed simp
  show ?thesis
  proof
    assume b: "is_best (set xs) b"
    then have "pick_best cand beats xs None \<noteq> None"
      by (auto simp: pick_best_None is_best_def)
    then obtain c where c: "pick_best cand beats xs None = Some c" by blast
    from some [OF c] b have "c = b" by (rule is_best_unique)
    with c show "pick_best cand beats xs None = Some b" by simp
  qed (rule some)
qed

text \<open>The result does not depend on the order or the multiplicity of the elements.\<close>

lemma pick_best_set_cong:
  assumes "set xs = set ys"
  shows "pick_best cand beats xs None = pick_best cand beats ys None"
proof (cases "pick_best cand beats ys None")
  case None
  then have "\<forall>x\<in>set xs. cand x = None"
    using assms by (simp add: pick_best_None)
  with None show ?thesis using pick_best_None by metis
next
  case (Some b)
  then have "is_best (set xs) b"
    using assms by (simp add: pick_best_Some)
  with Some show ?thesis using pick_best_Some by metis
qed

end

section \<open>Asking at most once\<close>

text \<open>
  A store of answers in front of a provider: \<open>known\<close> tells whether a question is answered from the
  store, \<open>ask\<close> answers it (\<open>None\<close>: the provider does not return). \<open>fetched\<close> lists the questions of a
  sequence that reach the provider. The two laws - an asked question is known afterwards, and nothing
  becomes unknown - make the provider see every question at most once.
\<close>

fun fetched :: "('st \<Rightarrow> 'k \<Rightarrow> bool) \<Rightarrow> ('k \<Rightarrow> 'st \<Rightarrow> ('r \<times> 'st) option) \<Rightarrow> 'k list \<Rightarrow> 'st \<Rightarrow> 'k list" where
  "fetched known ask [] st = []"
| "fetched known ask (k # ks) st =
     (if known st k then [] else [k]) @
     (case ask k st of None \<Rightarrow> [] | Some (r, st') \<Rightarrow> fetched known ask ks st')"

locale answer_store =
  fixes known :: "'st \<Rightarrow> 'k \<Rightarrow> bool"
    and ask :: "'k \<Rightarrow> 'st \<Rightarrow> ('r \<times> 'st) option"
  assumes ask_known: "ask k st = Some (r, st') \<Longrightarrow> known st' k"
    and ask_keeps: "ask k st = Some (r, st') \<Longrightarrow> known st j \<Longrightarrow> known st' j"
begin

lemma fetched_unknown: "k \<in> set (fetched known ask ks st) \<Longrightarrow> \<not> known st k"
proof (induction ks arbitrary: st)
  case (Cons j ks)
  show ?case
  proof (cases "ask j st")
    case None
    with Cons.prems show ?thesis by (auto split: if_splits)
  next
    case (Some p)
    obtain r st' where p: "p = (r, st')" by (cases p)
    with Some Cons.prems have "k = j \<and> \<not> known st j \<or> k \<in> set (fetched known ask ks st')"
      by (auto split: if_splits)
    with Cons.IH [of st'] ask_keeps [of j st r st' k] Some p show ?thesis by auto
  qed
qed simp

lemma fetched_distinct: "distinct (fetched known ask ks st)"
proof (induction ks arbitrary: st)
  case (Cons j ks)
  show ?case
  proof (cases "ask j st")
    case (Some p)
    obtain r st' where p: "p = (r, st')" by (cases p)
    with Some have "known st' j" using ask_known by blast
    then have "j \<notin> set (fetched known ask ks st')" using fetched_unknown by blast
    with Some p Cons.IH [of st'] show ?thesis by simp
  qed simp
qed simp

end

end
