(* ===== verification/GoStrings.thy ===== *)
theory GoStrings
  imports Prelude
begin

text \<open>
  The functions of Go's \<open>strings\<close> and \<open>strconv\<close> packages that the program calls. A Go string is a
  sequence of bytes, and so is a HOL \<open>string\<close>: a \<open>char\<close> is a byte and \<open>length\<close> is Go's \<open>len\<close>.
  The order on strings (\<open>HOL-Library.List_Lexorder\<close> over \<open>Char_ord\<close>) is Go's bytewise \<open><\<close>.
\<close>

section \<open>Prefixes, suffixes, cutting\<close>

definition has_prefix :: "string \<Rightarrow> string \<Rightarrow> bool" where
  "has_prefix s p \<longleftrightarrow> take (length p) s = p"

definition has_suffix :: "string \<Rightarrow> string \<Rightarrow> bool" where
  "has_suffix s p \<longleftrightarrow> length p \<le> length s \<and> drop (length s - length p) s = p"

definition trim_prefix :: "string \<Rightarrow> string \<Rightarrow> string" where
  "trim_prefix s p = (if has_prefix s p then drop (length p) s else s)"

definition trim_suffix :: "string \<Rightarrow> string \<Rightarrow> string" where
  "trim_suffix s p = (if has_suffix s p then take (length s - length p) s else s)"

definition cut_prefix :: "string \<Rightarrow> string \<Rightarrow> string option" where
  "cut_prefix s p = (if has_prefix s p then Some (drop (length p) s) else None)"

lemma has_prefix_append [go_str, simp]: "has_prefix (p @ s) p"
  by (simp add: has_prefix_def)

lemma has_prefix_iff [go_str]: "has_prefix s p \<longleftrightarrow> (\<exists>r. s = p @ r)"
  unfolding has_prefix_def by (metis append_eq_conv_conj append_take_drop_id)

lemma has_suffix_iff [go_str]: "has_suffix s p \<longleftrightarrow> (\<exists>r. s = r @ p)"
proof
  assume "has_suffix s p"
  then show "\<exists>r. s = r @ p"
    unfolding has_suffix_def by (metis append_take_drop_id)
qed (auto simp: has_suffix_def)

lemma trim_prefix_append [go_str, simp]: "trim_prefix (p @ s) p = s"
  by (simp add: trim_prefix_def)

lemma cut_prefix_append [go_str, simp]: "cut_prefix (p @ s) p = Some s"
  by (simp add: cut_prefix_def)

lemma cut_prefix_Some [go_str]: "cut_prefix s p = Some r \<longleftrightarrow> s = p @ r"
  by (auto simp: cut_prefix_def has_prefix_iff)

lemma length_trim_prefix: "length (trim_prefix s p) \<le> length s"
  by (simp add: trim_prefix_def)

section \<open>Splitting and joining\<close>

fun split_on :: "char \<Rightarrow> string \<Rightarrow> string list" where
  "split_on c [] = [[]]"
| "split_on c (x # xs) =
     (if x = c then [] # split_on c xs
      else (case split_on c xs of [] \<Rightarrow> [[x]] | p # ps \<Rightarrow> (x # p) # ps))"

fun join :: "string \<Rightarrow> string list \<Rightarrow> string" where
  "join sep [] = []"
| "join sep [p] = p"
| "join sep (p # ps) = p @ sep @ join sep ps"

lemma split_on_nonempty [go_str, simp]: "split_on c s \<noteq> []"
  by (induction s) (auto split: list.splits)

lemma join_Cons: "ps \<noteq> [] \<Longrightarrow> join sep (p # ps) = p @ sep @ join sep ps"
  by (cases ps) auto

lemma join_split_on: "join [c] (split_on c s) = s"
proof (induction s)
  case (Cons x xs)
  obtain p ps where p: "split_on c xs = p # ps"
    by (cases "split_on c xs") auto
  with Cons show ?case by (cases ps) auto
qed simp

lemma split_on_no_sep: "c \<notin> set p \<Longrightarrow> split_on c p = [p]"
  by (induction p) auto

lemma split_on_append: "c \<notin> set p \<Longrightarrow> split_on c (p @ c # s) = p # split_on c s"
  by (induction p) auto

lemma split_on_parts: "p \<in> set (split_on c s) \<Longrightarrow> c \<notin> set p"
proof (induction s arbitrary: p)
  case (Cons x xs)
  then show ?case by (auto split: if_splits list.splits)
qed simp

lemma split_on_join:
  "ps \<noteq> [] \<Longrightarrow> (\<forall>p\<in>set ps. c \<notin> set p) \<Longrightarrow> split_on c (join [c] ps) = ps"
proof (induction ps)
  case (Cons p ps)
  then show ?case
    by (cases ps) (simp_all add: split_on_no_sep split_on_append)
qed simp

lemma split_on_snoc: "split_on c (s @ c # e) = split_on c s @ split_on c e"
proof (induction s)
  case (Cons x s)
  then show ?case by (cases "split_on c s") simp_all
qed simp

lemma join_snoc: "\<exists>q. join sep (ps @ [e]) = q @ e"
proof (induction ps)
  case (Cons p ps)
  then obtain q where "join sep (ps @ [e]) = q @ e" by blast
  then have "join sep ((p # ps) @ [e]) = (p @ sep @ q) @ e" by (simp add: join_Cons)
  then show ?case by blast
qed simp

lemma set_join: "set (join sep ps) \<subseteq> (\<Union>p\<in>set ps. set p) \<union> set sep"
  by (induction sep ps rule: join.induct) auto

definition contains :: "string \<Rightarrow> char \<Rightarrow> bool" where
  "contains s c \<longleftrightarrow> c \<in> set s"

text \<open>\<open>strings.Cut\<close> and \<open>strings.LastIndex\<close> with a one-byte separator.\<close>

definition cut :: "string \<Rightarrow> char \<Rightarrow> (string \<times> string) option" where
  "cut s c = (if c \<in> set s then Some (takeWhile (\<lambda>x. x \<noteq> c) s, tl (dropWhile (\<lambda>x. x \<noteq> c) s))
              else None)"

definition last_index :: "string \<Rightarrow> char \<Rightarrow> nat option" where
  "last_index s c =
     (if c \<in> set s then Some (length s - 1 - length (takeWhile (\<lambda>x. x \<noteq> c) (rev s))) else None)"

lemma last_index_split:
  assumes "last_index s c = Some i"
  shows "i < length s \<and> s ! i = c \<and> c \<notin> set (drop (Suc i) s)"
proof -
  from assms have c: "c \<in> set s" and i: "i = length s - 1 - length (takeWhile (\<lambda>x. x \<noteq> c) (rev s))"
    by (auto simp: last_index_def split: if_splits)
  then obtain ys zs where s: "s = ys @ c # zs" "c \<notin> set zs"
    using split_list_last by metis
  then have tw: "takeWhile (\<lambda>x. x \<noteq> c) (rev zs) = rev zs"
    by (auto simp: takeWhile_eq_all_conv)
  have "takeWhile (\<lambda>x. x \<noteq> c) (rev s) = rev zs"
    using s by (simp add: takeWhile_append tw)
  with i s have "i = length ys" by simp
  with s show ?thesis by simp
qed

text \<open>Trimming bytes of a cutset: \<open>strings.TrimLeft\<close>, \<open>TrimRight\<close>, \<open>Trim\<close>.\<close>

definition trim_left_byte :: "char \<Rightarrow> string \<Rightarrow> string" where
  "trim_left_byte c s = dropWhile (\<lambda>x. x = c) s"

definition trim_right_byte :: "char \<Rightarrow> string \<Rightarrow> string" where
  "trim_right_byte c s = rev (dropWhile (\<lambda>x. x = c) (rev s))"

definition trim_byte :: "char \<Rightarrow> string \<Rightarrow> string" where
  "trim_byte c s = trim_right_byte c (trim_left_byte c s)"

lemma length_trim_left_byte: "length (trim_left_byte c s) \<le> length s"
  by (simp add: trim_left_byte_def length_dropWhile_le)

lemma length_trim_right_byte: "length (trim_right_byte c s) \<le> length s"
  by (simp add: trim_right_byte_def) (metis length_dropWhile_le length_rev)

section \<open>White space\<close>

text \<open>
  \<open>strings.TrimSpace\<close> removes the runes of \<open>unicode.IsSpace\<close> at both ends: six ASCII bytes, U+0085,
  U+00A0, and the three-byte encodings of U+1680, U+2000 to U+200A, U+2028, U+2029, U+202F, U+205F
  and U+3000.
\<close>

definition space_runes :: "string list" where
  "space_runes =
     [[CHR 0x20], [CHR 0x09], [CHR 0x0A], [CHR 0x0B], [CHR 0x0C], [CHR 0x0D],
      [CHR 0xC2, CHR 0x85], [CHR 0xC2, CHR 0xA0], [CHR 0xE1, CHR 0x9A, CHR 0x80],
      [CHR 0xE2, CHR 0x80, CHR 0x80], [CHR 0xE2, CHR 0x80, CHR 0x81],
      [CHR 0xE2, CHR 0x80, CHR 0x82], [CHR 0xE2, CHR 0x80, CHR 0x83],
      [CHR 0xE2, CHR 0x80, CHR 0x84], [CHR 0xE2, CHR 0x80, CHR 0x85],
      [CHR 0xE2, CHR 0x80, CHR 0x86], [CHR 0xE2, CHR 0x80, CHR 0x87],
      [CHR 0xE2, CHR 0x80, CHR 0x88], [CHR 0xE2, CHR 0x80, CHR 0x89],
      [CHR 0xE2, CHR 0x80, CHR 0x8A], [CHR 0xE2, CHR 0x80, CHR 0xA8],
      [CHR 0xE2, CHR 0x80, CHR 0xA9], [CHR 0xE2, CHR 0x80, CHR 0xAF],
      [CHR 0xE2, CHR 0x81, CHR 0x9F], [CHR 0xE3, CHR 0x80, CHR 0x80]]"

lemma space_runes_nonempty: "r \<in> set space_runes \<Longrightarrow> r \<noteq> []"
  by (auto simp: space_runes_def)

lemma find_prefix_rune_shorter:
  assumes "find (has_prefix s) space_runes = Some r"
  shows "length s - length r < length s"
proof -
  from assms have "r \<in> set space_runes" and "has_prefix s r"
    by (auto simp: find_Some_iff in_set_conv_nth)
  then have "0 < length r" and "length r \<le> length s"
    using space_runes_nonempty by (auto simp: has_prefix_iff)
  then show ?thesis by linarith
qed

lemma find_suffix_rune_shorter:
  assumes "find (has_suffix s) space_runes = Some r"
  shows "length s - length r < length s"
proof -
  from assms have "r \<in> set space_runes" and "has_suffix s r"
    by (auto simp: find_Some_iff in_set_conv_nth)
  then have "0 < length r" and "length r \<le> length s"
    using space_runes_nonempty by (auto simp: has_suffix_iff)
  then show ?thesis by linarith
qed

function trim_left_space :: "string \<Rightarrow> string" where
  "trim_left_space s =
     (case find (has_prefix s) space_runes of
        None \<Rightarrow> s
      | Some r \<Rightarrow> trim_left_space (drop (length r) s))"
  by pat_completeness auto
termination
  by (relation "measure length") (auto dest!: find_prefix_rune_shorter)

function trim_right_space :: "string \<Rightarrow> string" where
  "trim_right_space s =
     (case find (has_suffix s) space_runes of
        None \<Rightarrow> s
      | Some r \<Rightarrow> trim_right_space (take (length s - length r) s))"
  by pat_completeness auto
termination
  by (relation "measure length") (auto dest!: find_suffix_rune_shorter)

declare trim_left_space.simps [simp del] trim_right_space.simps [simp del]

definition trim_space :: "string \<Rightarrow> string" where
  "trim_space s = trim_right_space (trim_left_space s)"

text \<open>A printable ASCII byte starts or ends no space rune, so a string between two of them stays.\<close>

definition graphic :: "char \<Rightarrow> bool" where
  "graphic c \<longleftrightarrow> (33::nat) \<le> of_char c \<and> of_char c \<le> (126::nat)"

lemma hd_space_rune: "r \<in> set space_runes \<Longrightarrow> \<not> graphic (hd r)"
  by (auto simp: space_runes_def graphic_def)

lemma last_space_rune: "r \<in> set space_runes \<Longrightarrow> \<not> graphic (last r)"
  by (auto simp: space_runes_def graphic_def)

lemma trim_left_space_id:
  assumes "s \<noteq> []" and "graphic (hd s)"
  shows "trim_left_space s = s"
proof -
  have "find (has_prefix s) space_runes = None"
    unfolding find_None_iff
  proof clarify
    fix r assume r: "r \<in> set space_runes" "has_prefix s r"
    then have "hd s = hd r"
      using space_runes_nonempty by (auto simp: has_prefix_iff)
    with r assms(2) show False using hd_space_rune by simp
  qed
  then show ?thesis by (simp add: trim_left_space.simps [of s])
qed

lemma trim_right_space_id:
  assumes "s \<noteq> []" and "graphic (last s)"
  shows "trim_right_space s = s"
proof -
  have "find (has_suffix s) space_runes = None"
    unfolding find_None_iff
  proof clarify
    fix r assume r: "r \<in> set space_runes" "has_suffix s r"
    then have "last s = last r"
      using space_runes_nonempty by (auto simp: has_suffix_iff)
    with r assms(2) show False using last_space_rune by simp
  qed
  then show ?thesis by (simp add: trim_right_space.simps [of s])
qed

lemma trim_space_id [go_str]:
  "s \<noteq> [] \<Longrightarrow> graphic (hd s) \<Longrightarrow> graphic (last s) \<Longrightarrow> trim_space s = s"
  by (simp add: trim_space_def trim_left_space_id trim_right_space_id)

lemma trim_space_Nil [go_str, simp]: "trim_space [] = []"
  by (simp add: trim_space_def trim_left_space.simps trim_right_space.simps
      space_runes_def has_prefix_def has_suffix_def)

section \<open>Numbers\<close>

definition byte :: "char \<Rightarrow> nat" where
  "byte c = of_char c"

definition is_digit :: "char \<Rightarrow> bool" where
  "is_digit c \<longleftrightarrow> 48 \<le> byte c \<and> byte c \<le> 57"

definition digit_val :: "char \<Rightarrow> nat" where
  "digit_val c = byte c - 48"

definition digits_val :: "string \<Rightarrow> nat" where
  "digits_val s = foldl (\<lambda>v c. v * 10 + digit_val c) 0 s"

lemma graphic_digit [go_str]: "is_digit c \<Longrightarrow> graphic c"
  by (simp add: is_digit_def graphic_def byte_def)

text \<open>\<open>strconv.Atoi\<close>: an optional sign, decimal digits, and the range of a 64-bit \<open>int\<close>.\<close>

definition atoi :: "string \<Rightarrow> int option" where
  "atoi s =
     (let neg = (s \<noteq> [] \<and> hd s = CHR ''-'');
          ds = (if s \<noteq> [] \<and> (hd s = CHR ''-'' \<or> hd s = CHR ''+'') then tl s else s);
          n = (if neg then - int (digits_val ds) else int (digits_val ds))
      in if ds = [] \<or> \<not> list_all is_digit ds \<or> \<not> int64 n then None else Some n)"

lemma atoi_int64 [go_num]: "atoi s = Some n \<Longrightarrow> int64 n"
  by (auto simp: atoi_def Let_def split: if_splits)

lemma atoi_digits [go_num]:
  assumes "s \<noteq> []" and "list_all is_digit s"
  shows "atoi s = (if int64 (int (digits_val s)) then Some (int (digits_val s)) else None)"
proof -
  have "hd s \<noteq> CHR ''-''" and "hd s \<noteq> CHR ''+''"
    using assms by (cases s; auto simp: is_digit_def byte_def)+
  with assms show ?thesis by (simp add: atoi_def Let_def)
qed

text \<open>\<open>strconv.Itoa\<close> and the verb \<open>%d\<close>.\<close>

definition digit_char :: "nat \<Rightarrow> char" where
  "digit_char d = char_of (48 + d)"

fun itoa_nat :: "nat \<Rightarrow> string" where
  "itoa_nat n = (if n < 10 then [digit_char n] else itoa_nat (n div 10) @ [digit_char (n mod 10)])"

declare itoa_nat.simps [simp del]

definition itoa :: "int \<Rightarrow> string" where
  "itoa n = (if n < 0 then CHR ''-'' # itoa_nat (nat (- n)) else itoa_nat (nat n))"

lemma byte_digit_char: "d < 10 \<Longrightarrow> byte (digit_char d) = 48 + d"
  by (simp add: byte_def digit_char_def)

lemma is_digit_digit_char [go_str, simp]: "d < 10 \<Longrightarrow> is_digit (digit_char d)"
  by (simp add: is_digit_def byte_digit_char)

lemma digits_val_snoc: "digits_val (s @ [c]) = digits_val s * 10 + digit_val c"
  by (simp add: digits_val_def)

lemma itoa_nat_nonempty [go_str, simp]: "itoa_nat n \<noteq> []"
  by (subst itoa_nat.simps) simp

lemma itoa_nat_digits [go_str, simp]: "list_all is_digit (itoa_nat n)"
proof (induction n rule: itoa_nat.induct)
  case (1 n)
  then show ?case by (subst itoa_nat.simps) auto
qed

lemma digits_val_itoa_nat [go_str, simp]: "digits_val (itoa_nat n) = n"
proof (induction n rule: itoa_nat.induct)
  case (1 n)
  show ?case
  proof (cases "n < 10")
    case True
    then show ?thesis
      by (subst itoa_nat.simps) (simp add: digits_val_def digit_val_def byte_digit_char)
  next
    case False
    with 1 show ?thesis
      by (subst itoa_nat.simps) (simp add: digits_val_snoc digit_val_def byte_digit_char)
  qed
qed

lemma atoi_itoa_nat [go_num]: "int64 (int n) \<Longrightarrow> atoi (itoa_nat n) = Some (int n)"
  by (simp add: atoi_digits)

section \<open>Letter case\<close>

text \<open>
  \<open>strings.ToLower\<close>, as far as the program observes it: every lowered string is compared with an
  ASCII constant. The ASCII letters are mapped, and the only two other runes whose lower case is
  ASCII (U+0130 to \<open>i\<close>, U+212A to \<open>k\<close>). Other runes stay outside ASCII and are left as they are.
\<close>

definition lower_byte :: "char \<Rightarrow> char" where
  "lower_byte c = (if 65 \<le> byte c \<and> byte c \<le> 90 then char_of (byte c + 32) else c)"

function to_lower :: "string \<Rightarrow> string" where
  "to_lower s =
     (if s = [] then []
      else if has_prefix s [CHR 0xC4, CHR 0xB0] then CHR ''i'' # to_lower (drop 2 s)
      else if has_prefix s [CHR 0xE2, CHR 0x84, CHR 0xAA] then CHR ''k'' # to_lower (drop 3 s)
      else lower_byte (hd s) # to_lower (tl s))"
  by pat_completeness auto
termination
  by (relation "measure length") (auto simp: has_prefix_def)

declare to_lower.simps [simp del]

section \<open>Runes\<close>

text \<open>
  Ranging over a string decodes UTF-8; writing the rune back re-encodes it. \<open>rune_len\<close> is the length
  of the valid encoding a string starts with (0: invalid, decoded as U+FFFD of width one), \<open>runes\<close>
  the list of re-encoded runes.
\<close>

definition cont :: "nat \<Rightarrow> nat \<Rightarrow> string \<Rightarrow> nat \<Rightarrow> bool" where
  "cont lo hi s i \<longleftrightarrow> i < length s \<and> lo \<le> byte (s ! i) \<and> byte (s ! i) \<le> hi"

definition rune_len :: "string \<Rightarrow> nat" where
  "rune_len s =
     (if s = [] then 0
      else let b = byte (hd s) in
        if b < 0x80 then 1
        else if b < 0xC2 then 0
        else if b < 0xE0 then (if cont 0x80 0xBF s 1 then 2 else 0)
        else if b < 0xF0 then
          (if cont (if b = 0xE0 then 0xA0 else 0x80) (if b = 0xED then 0x9F else 0xBF) s 1
              \<and> cont 0x80 0xBF s 2 then 3 else 0)
        else if b < 0xF5 then
          (if cont (if b = 0xF0 then 0x90 else 0x80) (if b = 0xF4 then 0x8F else 0xBF) s 1
              \<and> cont 0x80 0xBF s 2 \<and> cont 0x80 0xBF s 3 then 4 else 0)
        else 0)"

definition rune_error :: string where
  "rune_error = [CHR 0xEF, CHR 0xBF, CHR 0xBD]"

function runes :: "string \<Rightarrow> string list" where
  "runes s =
     (if s = [] then []
      else if rune_len s = 0 then rune_error # runes (tl s)
      else take (rune_len s) s # runes (drop (rune_len s) s))"
  by pat_completeness auto
termination
  by (relation "measure length") (auto simp: Suc_leI)

declare runes.simps [simp del]

text \<open>\<open>utf8.ValidString\<close>: every rune decodes.\<close>

function valid_utf8 :: "string \<Rightarrow> bool" where
  "valid_utf8 s =
     (if s = [] then True else if rune_len s = 0 then False else valid_utf8 (drop (rune_len s) s))"
  by pat_completeness auto
termination
  by (relation "measure length") auto

declare valid_utf8.simps [simp del]

lemma valid_utf8_runes: "valid_utf8 s \<Longrightarrow> concat (runes s) = s"
proof (induction s rule: valid_utf8.induct)
  case (1 s)
  then show ?case
    by (simp add: runes.simps [of s] valid_utf8.simps [of s] split: if_splits)
qed

lemma rune_len_ascii: "byte c < 128 \<Longrightarrow> rune_len (c # s) = 1"
  by (simp add: rune_len_def)

lemma runes_ascii: "byte c < 128 \<Longrightarrow> runes (c # s) = [c] # runes s"
  by (subst runes.simps) (simp add: rune_len_ascii)

end
