(* ===== verification/Model.thy ===== *)
theory Model
  imports GoStrings Complex_Main
begin

text \<open>
  The vocabulary of the program: Go errors with their chains (what \<open>errors.Is\<close> and \<open>errors.As\<close>
  see), the untyped values of plugin configurations, and the records of \<open>internal/model/model.go\<close>.
\<close>

section \<open>Errors\<close>

text \<open>
  A formatted message is kept as the pieces its format string is made of: literal text, a plain
  string (\<open>%s\<close>, \<open>%v\<close>), a quoted string (\<open>%q\<close>), a number (\<open>%d\<close>).
\<close>

datatype piece = Lit string | Str string | Quoted string | Num int

type_synonym msg = "piece list"

text \<open>
  The registry sentinels, the context errors, the end-of-file errors, the errors of package \<open>net\<close>
  (an \<open>ENet\<close> with the flag set is a timeout that answers to \<open>context.DeadlineExceeded\<close>), a
  \<open>url.Error\<close>, an HTTP status error of the registry client with the \<open>Retry-After\<close> its request
  carries, \<open>registry.RateLimitError\<close>, a message wrapping an error (\<open>%w\<close>) and a plain message.
\<close>

datatype go_error =
    ErrNotFound | ErrUnauthorized | ErrRateLimited | ErrUnavailable
  | ErrCanceled | ErrDeadline
  | ErrEOF | ErrUnexpectedEOF
  | ErrNet bool string | ErrDNS string | ErrOp string
  | ErrUrl string string go_error
  | ErrTransport int duration msg
  | RateLimitError duration go_error
  | ErrWrap msg go_error
  | ErrText msg

text \<open>The chain of \<open>Unwrap\<close> calls, outermost first.\<close>

fun err_chain :: "go_error \<Rightarrow> go_error list" where
  "err_chain (ErrUrl op u e) = ErrUrl op u e # err_chain e"
| "err_chain (RateLimitError d e) = RateLimitError d e # err_chain e"
| "err_chain (ErrWrap m e) = ErrWrap m e # err_chain e"
| "err_chain e = [e]"

text \<open>\<open>errors.Is(err, target)\<close> for a sentinel target.\<close>

definition err_matches :: "go_error \<Rightarrow> go_error \<Rightarrow> bool" where
  "err_matches target e \<longleftrightarrow>
     e = target \<or> (target = ErrDeadline \<and> (case e of ErrNet timeout _ \<Rightarrow> timeout | _ \<Rightarrow> False))"

definition err_is :: "go_error \<Rightarrow> go_error \<Rightarrow> bool" where
  "err_is e target \<longleftrightarrow> list_ex (err_matches target) (err_chain e)"

text \<open>\<open>errors.As\<close> for the interface \<open>net.Error\<close> and for \<open>*net.DNSError\<close>, \<open>*net.OpError\<close>.\<close>

definition is_net_error :: "go_error \<Rightarrow> bool" where
  "is_net_error e = (case e of ErrNet _ _ \<Rightarrow> True | ErrDNS _ \<Rightarrow> True | ErrOp _ \<Rightarrow> True
     | ErrUrl _ _ _ \<Rightarrow> True | ErrDeadline \<Rightarrow> True | _ \<Rightarrow> False)"

definition err_as_net :: "go_error \<Rightarrow> bool" where
  "err_as_net e = list_ex is_net_error (err_chain e)"

lemma err_chain_nonempty [simp]: "err_chain e \<noteq> []"
  by (cases e) auto

section \<open>Untyped configuration values\<close>

text \<open>
  The values YAML decoding puts into a \<open>map[string]any\<close>. A map is an association list (a nil map
  and an empty map read alike), a \<open>float64\<close> a rational.
\<close>

datatype any =
    ANull | AStr string | AInt int | AInt64 int | AFloat rat | ABool bool
  | AList "any list" | AStrs "string list" | AMap "(string \<times> any) list"

type_synonym cfg_map = "(string \<times> any) list"

text \<open>Writing a key of a map: replace its binding or add one.\<close>

fun set_key :: "'k \<Rightarrow> 'v \<Rightarrow> ('k \<times> 'v) list \<Rightarrow> ('k \<times> 'v) list" where
  "set_key k v [] = [(k, v)]"
| "set_key k v ((k', v') # m) = (if k = k' then (k, v) # m else (k', v') # set_key k v m)"

lemma map_of_set_key [simp]: "map_of (set_key k v m) = (map_of m)(k \<mapsto> v)"
  by (induction m) (auto simp: fun_eq_iff)

lemma set_key_idem [simp]: "set_key k v (set_key k v m) = set_key k v m"
  by (induction m) auto

lemma keys_set_key: "set (map fst (set_key k v m)) = insert k (set (map fst m))"
  by (induction k v m rule: set_key.induct) auto

lemma distinct_set_key: "distinct (map fst m) \<Longrightarrow> distinct (map fst (set_key k v m))"
proof (induction k v m rule: set_key.induct)
  case (2 k v k' v' m)
  then show ?case using keys_set_key [of k v m] by auto
qed simp

text \<open>Reading \<open>m[k]\<close> of a \<open>map[string]string\<close>: a missing key reads as the empty string.\<close>

type_synonym labels = "(string \<times> string) list"

definition label_of :: "labels \<Rightarrow> string \<Rightarrow> string" where
  "label_of m k = (case map_of m k of None \<Rightarrow> [] | Some v \<Rightarrow> v)"

section \<open>Containers and updates\<close>

record container =
  c_id :: string
  c_name :: string
  c_image_ref :: string
  c_labels :: labels

record update_available =
  u_container :: container
  u_host :: string
  u_repo :: string
  u_current_tag :: string
  u_latest_tag :: string
  u_bump :: string
  u_local_digest :: string
  u_remote_digest :: string
  u_checked_at :: int

definition BumpMajor :: string where "BumpMajor = ''major''"
definition BumpMinor :: string where "BumpMinor = ''minor''"
definition BumpPatch :: string where "BumpPatch = ''patch''"

section \<open>Digests\<close>

definition ellipsis :: string where "ellipsis = [CHR 0xE2, CHR 0x80, CHR 0xA6]"
definition arrow :: string where "arrow = [CHR 0xE2, CHR 0x86, CHR 0x92]"

definition normalizeDigest :: "string \<Rightarrow> string" where
  "normalizeDigest d = trim_prefix d ''sha256:''"

definition shortHex :: "string \<Rightarrow> string" where
  "shortHex d = (let hex = trim_prefix d ''sha256:'' in if 12 < length hex then take 12 hex else hex)"

end
