(* ===== verification/Diagnostics.thy ===== *)
theory Diagnostics
  imports Model
begin

text \<open>
  The engine's structured log and its one-time warnings (\<open>warnOnce\<close> of
  \<open>internal/core/tracking_mode.go\<close>, over the \<open>warnOnceKeys\<close> of the engine). A log line is its level,
  its message and its attributes; the log is the list of the lines passed to the logger, oldest
  first. \<open>d_debug\<close> is what \<open>log.Enabled\<close> answers for the debug level.
\<close>

datatype level = LevelDebug | LevelInfo | LevelWarn | LevelError

text \<open>The levels of \<open>slog\<close> are ordered by their numbers.\<close>

definition level_num :: "level \<Rightarrow> int" where
  "level_num l = (case l of LevelDebug \<Rightarrow> -4 | LevelInfo \<Rightarrow> 0 | LevelWarn \<Rightarrow> 4 | LevelError \<Rightarrow> 8)"

lemma level_num_inject: "level_num l = level_num l' \<Longrightarrow> l = l'"
  by (simp add: level_num_def split: level.splits)

instantiation level :: linorder
begin

definition less_eq_level :: "level \<Rightarrow> level \<Rightarrow> bool" where
  "less_eq_level l l' \<longleftrightarrow> level_num l \<le> level_num l'"

definition less_level :: "level \<Rightarrow> level \<Rightarrow> bool" where
  "less_level l l' \<longleftrightarrow> level_num l < level_num l'"

instance
  by standard (auto simp: less_eq_level_def less_level_def intro: level_num_inject)

end

lemma debug_least [simp]: "LevelDebug \<le> l" "l \<le> LevelDebug \<longleftrightarrow> l = LevelDebug"
  by (cases l; simp add: less_eq_level_def level_num_def)+

datatype attr = AttrStr string | AttrNum int | AttrErr go_error

datatype log_line = LogLine level string "(string \<times> attr) list"

record diag =
  d_keys :: "string list"
  d_log :: "log_line list"
  d_debug :: bool

definition log_to :: "level \<Rightarrow> string \<Rightarrow> (string \<times> attr) list \<Rightarrow> diag \<Rightarrow> diag" where
  "log_to lvl text attrs d = d\<lparr>d_log := d_log d @ [LogLine lvl text attrs]\<rparr>"

definition log_lines :: "log_line list \<Rightarrow> diag \<Rightarrow> diag" where
  "log_lines ls d = d\<lparr>d_log := d_log d @ ls\<rparr>"

definition warnOnce :: "string \<Rightarrow> string \<Rightarrow> (string \<times> attr) list \<Rightarrow> diag \<Rightarrow> diag" where
  "warnOnce key text attrs d =
     (if key \<in> set (d_keys d) then d
      else log_to LevelWarn text attrs (d\<lparr>d_keys := key # d_keys d\<rparr>))"

lemma warnOnce_keys [simp]: "set (d_keys (warnOnce key text attrs d)) = insert key (set (d_keys d))"
  by (auto simp: warnOnce_def log_to_def)

lemma warnOnce_idem: "warnOnce key text attrs (warnOnce key text' attrs' d) = warnOnce key text' attrs' d"
  by (simp add: warnOnce_def log_to_def)

lemma log_lines_frame [simp]:
  "d_keys (log_lines ls d) = d_keys d" "d_debug (log_lines ls d) = d_debug d"
  by (simp_all add: log_lines_def)

lemma log_to_frame [simp]:
  "d_keys (log_to lvl text attrs d) = d_keys d" "d_debug (log_to lvl text attrs d) = d_debug d"
  by (simp_all add: log_to_def)

lemma warnOnce_debug [simp]: "d_debug (warnOnce key text attrs d) = d_debug d"
  by (simp add: warnOnce_def)

section \<open>A sequence of warnings\<close>

text \<open>
  What a diagnostic step may do to the state: keys are never forgotten, the log only grows, and no
  more lines at the warning level are added than there are new keys.
\<close>

definition is_warn :: "log_line \<Rightarrow> bool" where
  "is_warn l = (case l of LogLine lvl _ _ \<Rightarrow> lvl = LevelWarn)"

definition diag_step :: "diag \<Rightarrow> diag \<Rightarrow> bool" where
  "diag_step d d' \<longleftrightarrow> (\<exists>ks ls. d_keys d' = ks @ d_keys d \<and> distinct ks \<and> set ks \<inter> set (d_keys d) = {}
      \<and> d_log d' = d_log d @ ls \<and> length (filter is_warn ls) = length ks
      \<and> d_debug d' = d_debug d)"

lemma diag_step_refl [intro, simp]: "diag_step d d"
  by (auto simp: diag_step_def)

lemma diag_step_trans [trans]:
  assumes "diag_step a b" and "diag_step b c"
  shows "diag_step a c"
proof -
  obtain ks ls where 1: "d_keys b = ks @ d_keys a" "distinct ks" "set ks \<inter> set (d_keys a) = {}"
      "d_log b = d_log a @ ls" "length (filter is_warn ls) = length ks" "d_debug b = d_debug a"
    using assms(1) by (auto simp: diag_step_def)
  obtain ks' ls' where 2: "d_keys c = ks' @ d_keys b" "distinct ks'" "set ks' \<inter> set (d_keys b) = {}"
      "d_log c = d_log b @ ls'" "length (filter is_warn ls') = length ks'" "d_debug c = d_debug b"
    using assms(2) by (auto simp: diag_step_def)
  show ?thesis
    unfolding diag_step_def
    by (rule exI [of _ "ks' @ ks"], rule exI [of _ "ls @ ls'"]) (use 1 2 in auto)
qed

lemma diag_step_warnOnce [intro, simp]: "diag_step d (warnOnce key text attrs d)"
proof (cases "key \<in> set (d_keys d)")
  case True
  then show ?thesis by (simp add: warnOnce_def)
next
  case False
  then show ?thesis
    unfolding diag_step_def
    by (intro exI [of _ "[key]"] exI [of _ "[LogLine LevelWarn text attrs]"])
      (auto simp: warnOnce_def log_to_def is_warn_def)
qed

lemma diag_step_log_to [intro]: "lvl \<noteq> LevelWarn \<Longrightarrow> diag_step d (log_to lvl text attrs d)"
  unfolding diag_step_def by (auto simp: log_to_def is_warn_def)

end
