(* ===== verification/Markup.thy ===== *)
theory Markup
  imports Model
begin

text \<open>
  Escaping text for the notification channels: Markdown for Discord, Gotify and ntfy, HTML for
  Telegram, and the percent encodings of \<open>net/url\<close> the links use.
\<close>

section \<open>Markdown\<close>

text \<open>
  The three Markdown escapers range over the runes of the text, put a backslash before a special one
  and write the rune back; they differ in their lists of special characters.
\<close>

definition backslash :: char where "backslash = CHR 0x5C"
definition backtick :: char where "backtick = CHR 0x60"

definition escape_runes :: "string list \<Rightarrow> string \<Rightarrow> string" where
  "escape_runes special s =
     (if s = [] then s
      else concat (map (\<lambda>r. if r \<in> set special then backslash # r else r) (runes s)))"

definition discordMarkdownSpecial :: "string list" where
  "discordMarkdownSpecial = [[backslash], ''*'', ''_'', ''~'', ''|'', ''>'', [backtick]]"

definition EscapeMarkdown :: "string \<Rightarrow> string" where
  "EscapeMarkdown = escape_runes discordMarkdownSpecial"

definition gotify_markdownSpecial :: "string list" where
  "gotify_markdownSpecial = [[backslash], ''*'', ''_'', ''~'', [backtick], ''['', '']'']"

definition gotify_escapeMarkdown :: "string \<Rightarrow> string" where
  "gotify_escapeMarkdown = escape_runes gotify_markdownSpecial"

definition ntfy_markdownSpecial :: "string list" where
  "ntfy_markdownSpecial = [[backslash], ''*'', ''_'', ''~'', [backtick], ''['', '']'']"

definition ntfy_escapeMarkdown :: "string \<Rightarrow> string" where
  "ntfy_escapeMarkdown = escape_runes ntfy_markdownSpecial"

section \<open>HTML\<close>

text \<open>\<open>html.EscapeString\<close>.\<close>

definition html_char :: "char \<Rightarrow> string" where
  "html_char c =
     (if c = CHR ''&'' then ''&amp;''
      else if c = CHR 0x27 then ''&#39;''
      else if c = CHR ''<'' then ''&lt;''
      else if c = CHR ''>'' then ''&gt;''
      else if c = CHR 0x22 then ''&#34;''
      else [c])"

definition html_escape :: "string \<Rightarrow> string" where
  "html_escape s = concat (map html_char s)"

section \<open>Percent encoding\<close>

definition hex_digit :: "nat \<Rightarrow> char" where
  "hex_digit n = (if n < 10 then char_of (48 + n) else char_of (55 + n))"

definition percent :: "char \<Rightarrow> string" where
  "percent c = [CHR ''%'', hex_digit (byte c div 16), hex_digit (byte c mod 16)]"

definition unreserved :: "char \<Rightarrow> bool" where
  "unreserved c \<longleftrightarrow> is_digit c \<or> (65 \<le> byte c \<and> byte c \<le> 90) \<or> (97 \<le> byte c \<and> byte c \<le> 122)
     \<or> c \<in> set ''-_.~''"

definition QueryEscape :: "string \<Rightarrow> string" where
  "QueryEscape s = concat (map (\<lambda>c. if unreserved c then [c] else if c = CHR '' '' then ''+'' else percent c) s)"

definition PathEscape :: "string \<Rightarrow> string" where
  "PathEscape s = concat (map (\<lambda>c. if unreserved c \<or> c \<in> set ''$&+=:@'' then [c] else percent c) s)"

section \<open>What a reader of the escaped text sees\<close>

text \<open>
  The characters that open or close a piece of Markdown inside a line: emphasis, strike-through and code
  everywhere, spoilers and quotes on Discord, links in what Gotify and ntfy show.
\<close>

definition inline_markup :: "char set" where
  "inline_markup = {CHR ''*'', CHR ''_'', CHR ''~'', CHR 0x60}"

definition discord_markup :: "char set" where
  "discord_markup = inline_markup \<union> {CHR ''|'', CHR ''>''}"

definition link_markup :: "char set" where
  "link_markup = inline_markup \<union> {CHR ''['', CHR '']''}"

text \<open>
  \<open>unescape\<close> drops an escaping backslash; \<open>literal\<close> holds of a text in which no character of the given
  markup stands unescaped and every backslash escapes such a character or a backslash.
\<close>

fun unescape :: "string \<Rightarrow> string" where
  "unescape [] = []"
| "unescape [c] = [c]"
| "unescape (c # d # s) = (if c = CHR 0x5C then d # unescape s else c # unescape (d # s))"

fun literal :: "char set \<Rightarrow> string \<Rightarrow> bool" where
  "literal markup [] = True"
| "literal markup [c] \<longleftrightarrow> c \<noteq> CHR 0x5C \<and> c \<notin> markup"
| "literal markup (c # d # s) \<longleftrightarrow>
     (if c = CHR 0x5C then (d = CHR 0x5C \<or> d \<in> markup) \<and> literal markup s
      else c \<notin> markup \<and> literal markup (d # s))"

lemma unescape_plain: "c \<noteq> backslash \<Longrightarrow> unescape (c # s) = c # unescape s"
  by (cases s) (auto simp: backslash_def)

lemma literal_plain: "c \<noteq> backslash \<Longrightarrow> literal markup (c # s) \<longleftrightarrow> c \<notin> markup \<and> literal markup s"
  by (cases s) (auto simp: backslash_def)

lemma unescape_escaped: "unescape (backslash # c # s) = c # unescape s"
  by (simp add: backslash_def)

lemma literal_escaped:
  "c = backslash \<or> c \<in> markup \<Longrightarrow> literal markup (backslash # c # s) \<longleftrightarrow> literal markup s"
  by (auto simp: backslash_def)

lemma unescape_high: "\<forall>c\<in>set r. c \<noteq> backslash \<Longrightarrow> unescape (r @ s) = r @ unescape s"
  by (induction r) (auto simp: unescape_plain)

lemma literal_high:
  "\<forall>c\<in>set r. c \<noteq> backslash \<and> c \<notin> markup \<Longrightarrow> literal markup (r @ s) = literal markup s"
  by (induction r) (auto simp: literal_plain)

text \<open>A rune is one ASCII byte, or it is made of bytes above 127.\<close>

lemma rune_len_bytes:
  "rune_len s \<le> 4"
  "1 < rune_len s \<Longrightarrow> 128 \<le> byte (s ! 1)"
  "2 < rune_len s \<Longrightarrow> 128 \<le> byte (s ! 2)"
  "3 < rune_len s \<Longrightarrow> 128 \<le> byte (s ! 3)"
  by (simp_all add: rune_len_def cont_def Let_def split: if_splits)

lemma rune_len_take:
  assumes "rune_len s \<noteq> 0"
  shows "(\<exists>c. take (rune_len s) s = [c] \<and> byte c < 128) \<or> (\<forall>c\<in>set (take (rune_len s) s). 128 \<le> byte c)"
proof (cases s)
  case (Cons b t)
  have nth: "set (take n s) = {s ! i | i. i < n \<and> i < length s}" for n
    by (auto simp: set_conv_nth) (metis nth_take)
  show ?thesis
  proof (cases "byte b < 128")
    case False
    have "128 \<le> byte (s ! i)" if i: "i < rune_len s" for i
    proof -
      consider "i = 0" | "i = 1" | "i = 2" | "i = 3" using i rune_len_bytes(1) [of s] by linarith
      then show ?thesis
        using i False Cons rune_len_bytes(2-4) [of s] by cases simp_all
    qed
    then show ?thesis by (auto simp: nth)
  qed (use Cons in \<open>simp add: rune_len_def\<close>)
qed (use assms in \<open>simp add: rune_len_def\<close>)

definition rune_shaped :: "string \<Rightarrow> bool" where
  "rune_shaped r \<longleftrightarrow> (\<exists>c. r = [c] \<and> byte c < 128) \<or> (r \<noteq> [] \<and> (\<forall>c\<in>set r. 128 \<le> byte c))"

lemma runes_shape: "\<forall>r\<in>set (runes s). rune_shaped r"
proof (induction s rule: runes.induct)
  case (1 s)
  consider "s = []" | "s \<noteq> []" "rune_len s = 0" | "s \<noteq> []" "rune_len s \<noteq> 0" by blast
  then show ?case
  proof cases
    case 2
    then have r: "runes s = rune_error # runes (tl s)" by (subst runes.simps) simp
    have "rune_shaped rune_error" by (simp add: rune_shaped_def rune_error_def byte_def)
    then show ?thesis unfolding r using 1(1) [OF 2] by simp
  next
    case 3
    then have r: "runes s = take (rune_len s) s # runes (drop (rune_len s) s)" by (subst runes.simps) simp
    have "rune_shaped (take (rune_len s) s)"
      using rune_len_take [OF 3(2)] 3 by (auto simp: rune_shaped_def)
    then show ?thesis unfolding r using 1(2) [OF 3] by simp
  qed (simp add: runes.simps)
qed

text \<open>A list of special runes that escapes exactly the given markup and the backslash.\<close>

definition escapes_markup :: "string list \<Rightarrow> char set \<Rightarrow> bool" where
  "escapes_markup special markup \<longleftrightarrow>
     set special = (\<lambda>c. [c]) ` insert backslash markup \<and> (\<forall>c\<in>markup. byte c < 128)"

lemma escapes_markup_iff: "escapes_markup special markup \<Longrightarrow> [c] \<in> set special \<longleftrightarrow> c = backslash \<or> c \<in> markup"
  by (auto simp: escapes_markup_def)

lemma special_lists:
  "escapes_markup discordMarkdownSpecial discord_markup"
  "escapes_markup gotify_markdownSpecial link_markup"
  "escapes_markup ntfy_markdownSpecial link_markup"
  by (auto simp: escapes_markup_def discordMarkdownSpecial_def gotify_markdownSpecial_def ntfy_markdownSpecial_def
      inline_markup_def discord_markup_def link_markup_def backslash_def backtick_def byte_def)

lemma high_not_special:
  assumes "escapes_markup special markup" and "\<forall>c\<in>set r. 128 \<le> byte c" and "r \<noteq> []"
  shows "r \<notin> set special" and "\<forall>c\<in>set r. c \<noteq> backslash \<and> c \<notin> markup"
proof -
  have b: "byte backslash < 128" by (simp add: backslash_def byte_def)
  show "r \<notin> set special" using assms b by (fastforce simp: escapes_markup_def)
  show "\<forall>c\<in>set r. c \<noteq> backslash \<and> c \<notin> markup"
    using assms(1,2) b by (fastforce simp: escapes_markup_def)
qed

lemma escape_runes_list:
  assumes "escapes_markup special markup" and "\<forall>r\<in>set rs. rune_shaped r"
  shows "unescape (concat (map (\<lambda>r. if r \<in> set special then backslash # r else r) rs)) = concat rs
    \<and> literal markup (concat (map (\<lambda>r. if r \<in> set special then backslash # r else r) rs))"
  using assms(2)
proof (induction rs)
  case (Cons r rs)
  let ?rest = "concat (map (\<lambda>r. if r \<in> set special then backslash # r else r) rs)"
  from Cons have IH: "unescape ?rest = concat rs" "literal markup ?rest" by simp_all
  from Cons.prems consider c where "r = [c]" | "r \<noteq> []" "\<forall>c\<in>set r. 128 \<le> byte c" by (auto simp: rune_shaped_def)
  then show ?case
  proof cases
    case (1 c)
    with IH escapes_markup_iff [OF assms(1), of c] show ?thesis
      by (cases "r \<in> set special") (simp_all del: unescape.simps(3) literal.simps(3)
        add: unescape_plain literal_plain unescape_escaped literal_escaped)
  next
    case 2
    from high_not_special [OF assms(1) 2(2,1)] IH show ?thesis
      by (simp add: unescape_high literal_high)
  qed
qed simp

lemma escape_runes_correct:
  assumes "escapes_markup special markup"
  shows "unescape (escape_runes special s) = concat (runes s) \<and> literal markup (escape_runes special s)"
proof -
  have "runes [] = []" by (simp add: runes.simps)
  then show ?thesis
    using escape_runes_list [OF assms runes_shape, of s] by (simp add: escape_runes_def)
qed

lemmas markdown_escaped =
  special_lists [THEN escape_runes_correct, folded EscapeMarkdown_def gotify_escapeMarkdown_def ntfy_escapeMarkdown_def]

lemma EscapeMarkdown_brackets: "EscapeMarkdown ''[a](b)'' = ''[a](b)''"
  by code_simp

lemma html_escape_safe: "c \<in> set (html_escape s) \<Longrightarrow> c \<notin> {CHR ''<'', CHR ''>'', CHR 0x22, CHR 0x27}"
  by (auto simp: html_escape_def html_char_def split: if_splits)

lemma html_escape_append: "html_escape (s @ t) = html_escape s @ html_escape t"
  by (simp add: html_escape_def)

section \<open>Properties\<close>

text \<open>
  C27. Escaped text carries no inline markup: in what the three escapers write no character that opens
  emphasis, strike-through or code stands unescaped, nor one of a spoiler or quote on Discord, nor a link
  bracket for Gotify and ntfy, and no stray backslash either; dropping the escapes gives the text back,
  unchanged if it is valid UTF-8 and otherwise with U+FFFD for every byte that does not decode. (Discord's
  escaper leaves link brackets as they are.)
\<close>

theorem markdown_literal:
  "literal discord_markup (EscapeMarkdown s) \<and> unescape (EscapeMarkdown s) = concat (runes s)
   \<and> literal link_markup (gotify_escapeMarkdown s) \<and> unescape (gotify_escapeMarkdown s) = concat (runes s)
   \<and> literal link_markup (ntfy_escapeMarkdown s) \<and> unescape (ntfy_escapeMarkdown s) = concat (runes s)
   \<and> (valid_utf8 s \<longrightarrow> concat (runes s) = s)
   \<and> EscapeMarkdown ''[a](b)'' = ''[a](b)''"
  by (simp add: markdown_escaped EscapeMarkdown_brackets valid_utf8_runes)

theorem markdown_literal_witness:
  "valid_utf8 ''a*b[c]'' \<and> unescape (EscapeMarkdown ''a*b[c]'') = ''a*b[c]''
   \<and> literal discord_markup (EscapeMarkdown ''a*b[c]'') \<and> unescape (gotify_escapeMarkdown ''a*b[c]'') = ''a*b[c]''"
proof -
  have "valid_utf8 ''a*b[c]''" by code_simp
  with markdown_literal [of "''a*b[c]''"] show ?thesis by simp
qed

end
