(* ===== verification/Logging.thy ===== *)
theory Logging
  imports Diagnostics Markup
begin

text \<open>
  The log format (\<open>internal/logging/handler.go\<close>): one line per record, values quoted when they could be
  mistaken for something else. Times, durations, floats and the values of other types come with their
  text; \<open>printable\<close> is \<open>strconv.IsPrint\<close> for the runes beyond ASCII. The lock and the writer are left out: a
  handler returns the bytes of its line.
\<close>

section \<open>Quoting\<close>

text \<open>\<open>strconv.Quote\<close>, rune by rune; a byte that starts no valid encoding is escaped by itself.\<close>

definition low_hex :: "nat \<Rightarrow> char" where
  "low_hex n = (if n < 10 then char_of (48 + n) else char_of (87 + n))"

definition hex_digits :: "nat \<Rightarrow> nat \<Rightarrow> string" where
  "hex_digits width n = map (\<lambda>i. low_hex (n div 16 ^ (width - 1 - i) mod 16)) [0..<width]"

definition quote_char :: char where "quote_char = CHR 0x22"

text \<open>The code point a valid encoding stands for.\<close>

definition code_point :: "string \<Rightarrow> nat" where
  "code_point r =
     (case map byte r of
        [a] \<Rightarrow> a
      | [a, b] \<Rightarrow> (a mod 32) * 64 + b mod 64
      | [a, b, c] \<Rightarrow> (a mod 16) * 4096 + (b mod 64) * 64 + c mod 64
      | [a, b, c, d] \<Rightarrow> (a mod 8) * 262144 + (b mod 64) * 4096 + (c mod 64) * 64 + d mod 64
      | _ \<Rightarrow> 0)"

definition quote_ascii :: "char \<Rightarrow> string" where
  "quote_ascii c =
     (if c = quote_char \<or> c = backslash then [backslash, c]
      else if 32 \<le> byte c \<and> byte c < 127 then [c]
      else if byte c = 7 then [backslash, CHR ''a'']
      else if byte c = 8 then [backslash, CHR ''b'']
      else if byte c = 12 then [backslash, CHR ''f'']
      else if byte c = 10 then [backslash, CHR ''n'']
      else if byte c = 13 then [backslash, CHR ''r'']
      else if byte c = 9 then [backslash, CHR ''t'']
      else if byte c = 11 then [backslash, CHR ''v'']
      else [backslash, CHR ''x''] @ hex_digits 2 (byte c))"

definition quote_rune :: "(nat \<Rightarrow> bool) \<Rightarrow> string \<Rightarrow> string" where
  "quote_rune printable r =
     (case r of
        [c] \<Rightarrow> quote_ascii c
      | _ \<Rightarrow>
          if printable (code_point r) then r
          else if code_point r < 65536 then [backslash, CHR ''u''] @ hex_digits 4 (code_point r)
          else [backslash, CHR ''U''] @ hex_digits 8 (code_point r))"

function quote_from :: "(nat \<Rightarrow> bool) \<Rightarrow> string \<Rightarrow> string" where
  "quote_from printable s =
     (if s = [] then []
      else if rune_len s = 0 then [backslash, CHR ''x''] @ hex_digits 2 (byte (hd s)) @ quote_from printable (tl s)
      else quote_rune printable (take (rune_len s) s) @ quote_from printable (drop (rune_len s) s))"
  by pat_completeness auto
termination by (relation "measure (\<lambda>(_, s). length s)") (auto simp: Suc_leI)

declare quote_from.simps [simp del]

definition quoted :: "(nat \<Rightarrow> bool) \<Rightarrow> string \<Rightarrow> string" where
  "quoted printable s = quote_char # quote_from printable s @ [quote_char]"

definition needsQuote :: "string \<Rightarrow> bool" where
  "needsQuote s \<longleftrightarrow>
     s = [] \<or> \<not> valid_utf8 s
     \<or> (\<exists>r\<in>set (runes s). r = '' '' \<or> r = ''='' \<or> r = [quote_char] \<or> (length r = 1 \<and> byte (hd r) < 32))"

definition appendUnquoted :: "(nat \<Rightarrow> bool) \<Rightarrow> string \<Rightarrow> string \<Rightarrow> string" where
  "appendUnquoted printable buf s = (if needsQuote s then buf @ quoted printable s else buf @ s)"

section \<open>Records\<close>

text \<open>
  The values of attributes by kind: text (strings, and the text of values of any other kind), numbers,
  and kinds that are printed by the library and never quoted (floats, durations, times).
\<close>

datatype log_value =
    TextValue string
  | IntValue int
  | BoolValue bool
  | PlainValue string
  | GroupValue "log_attr list"
and log_attr = LogAttr string log_value | NoAttr

definition appendValue :: "(nat \<Rightarrow> bool) \<Rightarrow> string \<Rightarrow> log_value \<Rightarrow> string" where
  "appendValue printable buf v =
     (case v of
        TextValue s \<Rightarrow> appendUnquoted printable buf s
      | IntValue n \<Rightarrow> buf @ itoa n
      | BoolValue b \<Rightarrow> buf @ (if b then ''true'' else ''false'')
      | PlainValue s \<Rightarrow> buf @ s
      | GroupValue _ \<Rightarrow> buf)"

definition in_group :: "string \<Rightarrow> string \<Rightarrow> string" where
  "in_group grp key = (if grp \<noteq> [] then grp @ ''.'' @ key else key)"

fun appendAttr :: "(nat \<Rightarrow> bool) \<Rightarrow> string \<Rightarrow> string \<Rightarrow> log_attr \<Rightarrow> string"
  and appendAttrs :: "(nat \<Rightarrow> bool) \<Rightarrow> string \<Rightarrow> string \<Rightarrow> log_attr list \<Rightarrow> string" where
  "appendAttr printable buf grp NoAttr = buf"
| "appendAttr printable buf grp (LogAttr key (GroupValue attrs)) = appendAttrs printable buf (in_group grp key) attrs"
| "appendAttr printable buf grp (LogAttr key v) =
     appendValue printable (buf @ '' '' @ in_group grp key @ ''='') v"
| "appendAttrs printable buf grp [] = buf"
| "appendAttrs printable buf grp (a # attrs) = appendAttrs printable (appendAttr printable buf grp a) grp attrs"

record text_handler =
  th_level :: level
  th_attrs :: "log_attr list"
  th_group :: string

text \<open>The levels of \<open>log/slog\<close>.\<close>

definition level_name :: "level \<Rightarrow> string" where
  "level_name l = (case l of LevelDebug \<Rightarrow> ''DEBUG'' | LevelInfo \<Rightarrow> ''INFO'' | LevelWarn \<Rightarrow> ''WARN'' | LevelError \<Rightarrow> ''ERROR'')"

definition NewHandler :: "level \<Rightarrow> text_handler" where
  "NewHandler l = \<lparr>th_level = l, th_attrs = [], th_group = []\<rparr>"

definition Enabled :: "text_handler \<Rightarrow> level \<Rightarrow> bool" where
  "Enabled h l \<longleftrightarrow> th_level h \<le> l"

definition WithAttrs :: "text_handler \<Rightarrow> log_attr list \<Rightarrow> text_handler" where
  "WithAttrs h attrs = h\<lparr>th_attrs := th_attrs h @ attrs\<rparr>"

definition WithGroup :: "text_handler \<Rightarrow> string \<Rightarrow> text_handler" where
  "WithGroup h name = h\<lparr>th_group := in_group (th_group h) name\<rparr>"

record log_record =
  lr_time :: "string option"
  lr_level :: level
  lr_message :: string
  lr_attrs :: "log_attr list"

definition Handle :: "(nat \<Rightarrow> bool) \<Rightarrow> text_handler \<Rightarrow> log_record \<Rightarrow> string" where
  "Handle printable h r =
     (let buf = (case lr_time r of None \<Rightarrow> [] | Some t \<Rightarrow> t @ '' '');
          buf = buf @ level_name (lr_level r) @ '' '' @ lr_message r;
          buf = appendAttrs printable buf (th_group h) (th_attrs h);
          buf = appendAttrs printable buf (th_group h) (lr_attrs r)
      in buf @ [CHR 0x0A])"

section \<open>Facts\<close>

text \<open>
  \<open>one_word\<close> text cannot end a line and cannot be mistaken for the next attribute: nothing in it is a
  space, an equals sign, a quotation mark or a control character.
\<close>

definition no_break :: "string \<Rightarrow> bool" where "no_break s \<longleftrightarrow> CHR 0x0A \<notin> set s"

definition one_word :: "string \<Rightarrow> bool" where
  "one_word s \<longleftrightarrow> s \<noteq> [] \<and> (\<forall>c\<in>set s. c \<noteq> CHR '' '' \<and> c \<noteq> CHR ''='' \<and> c \<noteq> quote_char \<and> 32 \<le> byte c)"

lemma no_break_simps [simp]: "no_break []" "no_break (s @ t) \<longleftrightarrow> no_break s \<and> no_break t"
  "no_break (c # s) \<longleftrightarrow> c \<noteq> CHR 0x0A \<and> no_break s"
  by (auto simp: no_break_def)

lemma high_no_break: "\<forall>c\<in>set s. 32 \<le> byte c \<Longrightarrow> no_break s"
  by (auto simp: no_break_def byte_def)

lemma byte_low_hex: "n < 16 \<Longrightarrow> 32 \<le> byte (low_hex n)"
  by (simp add: low_hex_def byte_def)

lemma hex_digits_no_break: "no_break (hex_digits k n)"
  by (rule high_no_break) (auto simp: hex_digits_def intro!: byte_low_hex)

lemma quote_ascii_no_break: "no_break (quote_ascii c)"
proof -
  have "byte c = 10" if "c = CHR 0x0A" using that by (simp add: byte_def)
  then have "c \<noteq> CHR 0x0A" if "byte c \<noteq> 10" using that by blast
  then show ?thesis
    using hex_digits_no_break by (simp add: quote_ascii_def quote_char_def backslash_def)
qed

lemma quote_rune_no_break: "rune_shaped r \<Longrightarrow> no_break (quote_rune printable r)"
proof -
  assume "rune_shaped r"
  then consider c where "r = [c]" | "\<forall>c\<in>set r. 32 \<le> byte c" by (force simp: rune_shaped_def)
  then show ?thesis
  proof cases
    case 2
    have esc: "no_break ([backslash, CHR ''u''] @ hex_digits 4 n)" "no_break ([backslash, CHR ''U''] @ hex_digits 8 n)" for n
      unfolding no_break_simps using hex_digits_no_break by (simp_all add: backslash_def)
    show ?thesis
    proof (cases "\<exists>c. r = [c]")
      case False
      then have "quote_rune printable r = (if printable (code_point r) then r
          else if code_point r < 65536 then [backslash, CHR ''u''] @ hex_digits 4 (code_point r)
          else [backslash, CHR ''U''] @ hex_digits 8 (code_point r))"
        unfolding quote_rune_def by (cases r rule: remdups_adj.cases) auto
      then show ?thesis using esc high_no_break [OF 2] by presburger
    qed (auto simp: quote_rune_def quote_ascii_no_break)
  qed (simp add: quote_rune_def quote_ascii_no_break)
qed

lemma quote_from_no_break: "no_break (quote_from printable s)"
proof (induction s rule: length_induct)
  case (1 s)
  consider "s = []" | "s \<noteq> []" "rune_len s = 0" | "s \<noteq> []" "rune_len s \<noteq> 0" by blast
  then show ?case
  proof cases
    case 2
    then have "quote_from printable s = [backslash, CHR ''x''] @ hex_digits 2 (byte (hd s)) @ quote_from printable (tl s)"
      by (subst quote_from.simps) simp
    with 1 2 show ?thesis by (simp add: hex_digits_no_break backslash_def)
  next
    case 3
    then have "quote_from printable s = quote_rune printable (take (rune_len s) s) @ quote_from printable (drop (rune_len s) s)"
      by (subst quote_from.simps) simp
    moreover have "rune_shaped (take (rune_len s) s)" using rune_len_take [OF 3(2)] 3 by (auto simp: rune_shaped_def)
    moreover have "length (drop (rune_len s) s) < length s" using 3 by simp
    ultimately show ?thesis using 1 by (simp add: quote_rune_no_break)
  qed (simp add: quote_from.simps)
qed

lemma unquoted_word:
  assumes "\<not> needsQuote s"
  shows "one_word s"
proof -
  have s: "s \<noteq> []" "concat (runes s) = s" using assms by (auto simp: needsQuote_def valid_utf8_runes)
  have "c \<noteq> CHR '' '' \<and> c \<noteq> CHR ''='' \<and> c \<noteq> quote_char \<and> 32 \<le> byte c" if "c \<in> set s" for c
  proof -
    from that s(2) obtain r where r: "r \<in> set (runes s)" "c \<in> set r" by (metis UN_E set_concat)
    with runes_shape have "rune_shaped r" by blast
    then consider "r = [c]" | "128 \<le> byte c" using r(2) by (auto simp: rune_shaped_def)
    then show ?thesis
    proof cases
      case 1
      have "r \<noteq> '' '' \<and> r \<noteq> ''='' \<and> r \<noteq> [quote_char] \<and> \<not> (length r = 1 \<and> byte (hd r) < 32)"
        using assms r(1) unfolding needsQuote_def by blast
      with 1 show ?thesis by simp
    next
      case 2
      have low: "byte CHR '' '' < 128" "byte CHR ''='' < 128" "byte quote_char < 128" by code_simp+
      have "c \<noteq> d" if "byte d < 128" for d using 2 that by fastforce
      from this [OF low(1)] this [OF low(2)] this [OF low(3)] 2 show ?thesis by simp
    qed
  qed
  with s(1) show ?thesis by (simp add: one_word_def)
qed

lemma one_word_no_break: "one_word s \<Longrightarrow> no_break s"
  by (auto simp: one_word_def intro: high_no_break)

lemma appendUnquoted_shape:
  "\<exists>v. appendUnquoted printable buf s = buf @ v \<and> no_break v
     \<and> (v = s \<and> one_word s \<or> v = quote_char # quote_from printable s @ [quote_char])"
  using unquoted_word [of s] quote_from_no_break [of printable s]
  by (auto simp: appendUnquoted_def quoted_def quote_char_def one_word_no_break)

lemma itoa_no_break: "no_break (itoa n)"
proof -
  have "no_break (itoa_nat m)" for m
    using itoa_nat_digits [of m] by (intro high_no_break) (auto simp: list_all_iff is_digit_def)
  then show ?thesis by (simp add: itoa_def)
qed

text \<open>What the library and the call sites are trusted with: keys and already printed values have no line break.\<close>

fun clean_attr :: "log_attr \<Rightarrow> bool" where
  "clean_attr NoAttr \<longleftrightarrow> True"
| "clean_attr (LogAttr key (GroupValue attrs)) \<longleftrightarrow> no_break key \<and> list_all clean_attr attrs"
| "clean_attr (LogAttr key (PlainValue s)) \<longleftrightarrow> no_break key \<and> no_break s"
| "clean_attr (LogAttr key v) \<longleftrightarrow> no_break key"

lemma in_group_no_break: "no_break grp \<Longrightarrow> no_break key \<Longrightarrow> no_break (in_group grp key)"
  by (simp add: in_group_def)

lemma appendUnquoted_no_break: "no_break buf \<Longrightarrow> no_break (appendUnquoted printable buf s)"
  using appendUnquoted_shape [of printable buf s] by auto

lemma appendAttr_no_break:
  "no_break buf \<Longrightarrow> no_break grp \<Longrightarrow> clean_attr a \<Longrightarrow> no_break (appendAttr printable buf grp a)"
  "no_break buf \<Longrightarrow> no_break grp \<Longrightarrow> list_all clean_attr attrs \<Longrightarrow> no_break (appendAttrs printable buf grp attrs)"
  by (induction printable buf grp a and printable buf grp attrs rule: appendAttr_appendAttrs.induct)
    (auto simp: appendValue_def in_group_no_break itoa_no_break appendUnquoted_no_break)

text \<open>Quoted text ends where its quotation mark is: inside, every quotation mark and backslash is escaped.\<close>

fun escaped_text :: "string \<Rightarrow> bool" where
  "escaped_text [] \<longleftrightarrow> True"
| "escaped_text [c] \<longleftrightarrow> c \<noteq> CHR 0x22 \<and> c \<noteq> CHR 0x5C"
| "escaped_text (c # d # s) \<longleftrightarrow> (if c = CHR 0x5C then escaped_text s else c \<noteq> CHR 0x22 \<and> escaped_text (d # s))"

lemma escaped_text_plain: "c \<noteq> CHR 0x5C \<Longrightarrow> escaped_text (c # s) \<longleftrightarrow> c \<noteq> CHR 0x22 \<and> escaped_text s"
  by (cases s) auto

lemma escaped_text_append: "escaped_text s \<Longrightarrow> escaped_text t \<Longrightarrow> escaped_text (s @ t)"
  by (induction s rule: escaped_text.induct) (auto simp: escaped_text_plain split: if_splits)

definition plain_char :: "char \<Rightarrow> bool" where "plain_char c \<longleftrightarrow> c \<noteq> CHR 0x22 \<and> c \<noteq> CHR 0x5C"

lemma escaped_text_chars: "\<forall>c\<in>set s. plain_char c \<Longrightarrow> escaped_text s"
  by (induction s) (simp_all add: plain_char_def escaped_text_plain)

lemma high_plain: "128 \<le> byte c \<Longrightarrow> plain_char c"
  by (auto simp: plain_char_def byte_def)

lemma low_hex_plain: "n < 16 \<Longrightarrow> plain_char (low_hex n)"
proof -
  assume "n < 16"
  then have "byte (low_hex n) \<notin> {34, 92}" by (auto simp: low_hex_def byte_def)
  then show ?thesis by (auto simp: plain_char_def byte_def)
qed

lemma escape_escaped: "escaped_text (backslash # c # hex_digits k n)" "escaped_text [backslash, c]"
proof -
  have "escaped_text (hex_digits k n)"
    by (rule escaped_text_chars) (auto simp: hex_digits_def intro!: low_hex_plain)
  then show "escaped_text (backslash # c # hex_digits k n)" "escaped_text [backslash, c]"
    by (simp_all add: backslash_def)
qed

lemma quote_ascii_escaped: "escaped_text (quote_ascii c)"
  using escape_escaped escaped_text_chars [of "[c]"]
  by (auto simp: quote_ascii_def plain_char_def quote_char_def backslash_def)

lemma quote_rune_escaped: "rune_shaped r \<Longrightarrow> escaped_text (quote_rune printable r)"
proof -
  assume "rune_shaped r"
  then consider c where "r = [c]" | "\<forall>c\<in>set r. plain_char c" "\<nexists>c. r = [c]"
    by (auto simp: rune_shaped_def intro: high_plain)
  then show ?thesis
  proof cases
    case 2
    then have "quote_rune printable r = (if printable (code_point r) then r
        else if code_point r < 65536 then backslash # CHR ''u'' # hex_digits 4 (code_point r)
        else backslash # CHR ''U'' # hex_digits 8 (code_point r))"
      unfolding quote_rune_def by (cases r rule: remdups_adj.cases) auto
    then show ?thesis using escape_escaped escaped_text_chars [OF 2(1)] by presburger
  qed (simp add: quote_rune_def quote_ascii_escaped)
qed

lemma quote_from_escaped: "escaped_text (quote_from printable s)"
proof (induction s rule: length_induct)
  case (1 s)
  consider "s = []" | "s \<noteq> []" "rune_len s = 0" | "s \<noteq> []" "rune_len s \<noteq> 0" by blast
  then show ?case
  proof cases
    case 2
    then have "quote_from printable s = (backslash # CHR ''x'' # hex_digits 2 (byte (hd s))) @ quote_from printable (tl s)"
      by (subst quote_from.simps) simp
    moreover have "escaped_text (quote_from printable (tl s))" using 1 2 by simp
    ultimately show ?thesis by (metis escaped_text_append escape_escaped(1))
  next
    case 3
    then have "quote_from printable s = quote_rune printable (take (rune_len s) s) @ quote_from printable (drop (rune_len s) s)"
      by (subst quote_from.simps) simp
    moreover have "rune_shaped (take (rune_len s) s)" using rune_len_take [OF 3(2)] 3 by (auto simp: rune_shaped_def)
    moreover have "length (drop (rune_len s) s) < length s" using 3 by simp
    ultimately show ?thesis using 1 by (simp add: quote_rune_escaped escaped_text_append)
  qed (simp add: quote_from.simps)
qed

text \<open>Text goes without quotation marks exactly if it is one word of valid UTF-8.\<close>

lemma needsQuote_iff: "needsQuote s \<longleftrightarrow> \<not> (one_word s \<and> valid_utf8 s)"
proof
  show "\<not> (one_word s \<and> valid_utf8 s)" if "needsQuote s"
  proof
    assume word: "one_word s \<and> valid_utf8 s"
    then have s: "s \<noteq> []" "concat (runes s) = s" by (auto simp: one_word_def valid_utf8_runes)
    with that word obtain r where r: "r \<in> set (runes s)"
      "r = '' '' \<or> r = ''='' \<or> r = [quote_char] \<or> (length r = 1 \<and> byte (hd r) < 32)"
      unfolding needsQuote_def by blast
    then obtain c where c: "r = [c]" "c = CHR '' '' \<or> c = CHR ''='' \<or> c = quote_char \<or> byte c < 32"
      by (auto simp: length_Suc_conv)
    from r(1) c(1) have "c \<in> set (concat (runes s))" unfolding set_concat by fastforce
    with s(2) have "c \<in> set s" by simp
    then have "c \<noteq> CHR '' '' \<and> c \<noteq> CHR ''='' \<and> c \<noteq> quote_char \<and> 32 \<le> byte c"
      using word unfolding one_word_def by blast
    with c(2) show False by linarith
  qed
  show "needsQuote s" if "\<not> (one_word s \<and> valid_utf8 s)"
  proof (rule ccontr)
    assume "\<not> needsQuote s"
    then have "one_word s" "valid_utf8 s" using unquoted_word by (simp_all add: needsQuote_def)
    with that show False by simp
  qed
qed

text \<open>
  What a line shows: the attributes in order, those of a group under the dotted names of their groups,
  and the text of each value.
\<close>

fun flat :: "string \<Rightarrow> log_attr \<Rightarrow> (string \<times> log_value) list" where
  "flat grp NoAttr = []"
| "flat grp (LogAttr key (GroupValue attrs)) = concat (map (flat (in_group grp key)) attrs)"
| "flat grp (LogAttr key v) = [(in_group grp key, v)]"

fun shown :: "(nat \<Rightarrow> bool) \<Rightarrow> log_value \<Rightarrow> string" where
  "shown printable (TextValue s) =
     (if one_word s \<and> valid_utf8 s then s else [CHR 0x22] @ quote_from printable s @ [CHR 0x22])"
| "shown printable (IntValue n) = itoa n"
| "shown printable (BoolValue b) = (if b then ''true'' else ''false'')"
| "shown printable (PlainValue s) = s"
| "shown printable (GroupValue attrs) = []"

definition show_attrs :: "(nat \<Rightarrow> bool) \<Rightarrow> string \<Rightarrow> log_attr list \<Rightarrow> string" where
  "show_attrs printable grp attrs =
     concat (map (\<lambda>(key, v). '' '' @ key @ ''='' @ shown printable v) (concat (map (flat grp) attrs)))"

lemma appendValue_shown: "appendValue printable buf v = buf @ shown printable v"
  by (cases v) (simp_all add: appendValue_def appendUnquoted_def needsQuote_iff quoted_def quote_char_def)

lemma appendAttr_shown:
  "appendAttr printable buf grp a = buf @ show_attrs printable grp [a]"
  "appendAttrs printable buf grp attrs = buf @ show_attrs printable grp attrs"
  by (induction printable buf grp a and printable buf grp attrs rule: appendAttr_appendAttrs.induct)
    (simp_all add: show_attrs_def appendValue_shown)

lemma itoa_word: "one_word (itoa n)"
proof -
  have nat: "one_word (itoa_nat m)" for m
  proof -
    have "byte c \<noteq> 32 \<and> byte c \<noteq> 61 \<and> byte c \<noteq> 34" if "is_digit c" for c using that by (auto simp: is_digit_def)
    then have "c \<noteq> CHR '' '' \<and> c \<noteq> CHR ''='' \<and> c \<noteq> quote_char \<and> 32 \<le> byte c" if "is_digit c" for c
      using that by (fastforce simp: byte_def quote_char_def is_digit_def)
    with itoa_nat_digits [of m] show ?thesis by (auto simp: one_word_def list_all_iff)
  qed
  show ?thesis using nat by (auto simp: itoa_def one_word_def quote_char_def byte_def)
qed

section \<open>Properties\<close>

text \<open>
  C40. A record is one line of a fixed form: the time, the level and the message, and then for every
  attribute, in order and with the names of its groups, a space, its key, an equals sign and its value,
  and nothing else. A string is written as it is exactly if it is one word of valid UTF-8, without space,
  equals sign, quotation mark or control character, and otherwise between quotation marks, inside which
  every quotation mark and backslash is escaped; integers and booleans are one word; what the library
  prints of a time, a duration or a float is written as it comes. If the message, the keys and what the
  library prints have no line break, the line has none, whatever the strings in the attributes are.
\<close>

theorem log_record_one_line:
  assumes "no_break (lr_message r)" and "\<forall>t. lr_time r = Some t \<longrightarrow> no_break t" and "no_break (th_group h)"
    and "list_all clean_attr (th_attrs h)" and "list_all clean_attr (lr_attrs r)"
  shows "Handle printable h r =
      (case lr_time r of None \<Rightarrow> [] | Some t \<Rightarrow> t @ '' '') @ level_name (lr_level r) @ '' '' @ lr_message r
        @ show_attrs printable (th_group h) (th_attrs h @ lr_attrs r) @ [CHR 0x0A]
    \<and> CHR 0x0A \<notin> set (butlast (Handle printable h r))
    \<and> (\<forall>s. escaped_text (quote_from printable s))
    \<and> (\<forall>n b. one_word (shown printable (IntValue n)) \<and> one_word (shown printable (BoolValue b)))"
proof -
  have "show_attrs printable grp (xs @ ys) = show_attrs printable grp xs @ show_attrs printable grp ys" for grp xs ys
    by (simp add: show_attrs_def)
  then have line: "Handle printable h r =
      (case lr_time r of None \<Rightarrow> [] | Some t \<Rightarrow> t @ '' '') @ level_name (lr_level r) @ '' '' @ lr_message r
        @ show_attrs printable (th_group h) (th_attrs h @ lr_attrs r) @ [CHR 0x0A]"
    by (simp add: Handle_def Let_def appendAttr_shown)
  have "no_break (level_name (lr_level r))" by (simp add: level_name_def split: level.split)
  with assms have "no_break (butlast (Handle printable h r))"
    by (auto simp: Handle_def Let_def butlast_append intro!: appendAttr_no_break split: option.split)
  moreover have "one_word ''true''" "one_word ''false''" by code_simp+
  ultimately show ?thesis using line by (simp add: no_break_def quote_from_escaped itoa_word)
qed

definition sample_record :: log_record where
  "sample_record = \<lparr>lr_time = None, lr_level = LevelWarn, lr_message = ''check failed'',
     lr_attrs = [LogAttr ''error'' (TextValue (''x'' @ [CHR 0x0A] @ ''ERROR y'')), LogAttr ''tags'' (IntValue 3)]\<rparr>"

theorem log_record_one_line_witness:
  "\<exists>line. Handle (\<lambda>_. True) (NewHandler LevelInfo) sample_record
     = ''WARN check failed'' @ '' error='' @ [CHR 0x22] @ line @ [CHR 0x22] @ '' tags=3'' @ [CHR 0x0A]
     \<and> CHR 0x0A \<notin> set line"
proof -
  have "\<not> one_word (''x'' @ [CHR 0x0A] @ ''ERROR y'')" by code_simp
  moreover have "itoa 3 = ''3''" by code_simp
  ultimately show ?thesis
    using log_record_one_line [of sample_record "NewHandler LevelInfo" "\<lambda>_. True"]
      quote_from_no_break [of "\<lambda>_. True" "''x'' @ [CHR 0x0A] @ ''ERROR y''"]
    by (simp add: sample_record_def NewHandler_def no_break_def show_attrs_def in_group_def level_name_def)
qed

end
