(* ===== verification/ImageRef.thy ===== *)
theory ImageRef
  imports Model
begin

text \<open>
  Image references (\<open>internal/imageref\<close>): normalising a raw reference and the keys under which a
  rule of the configuration is looked up. The reference parser of go-containerregistry is the
  argument \<open>parse_reference\<close>.
\<close>

section \<open>Parsing a reference\<close>

record parsed =
  p_host :: string
  p_repo :: string
  p_tag :: string
  p_digest :: string

datatype ref_kind = TagRef string | DigestRef string | OtherRef

record name_ref =
  nr_registry :: string
  nr_repository :: string
  nr_kind :: ref_kind

type_synonym ref_parser = "string \<Rightarrow> go_error + name_ref"

definition is_hex :: "char \<Rightarrow> bool" where
  "is_hex c \<longleftrightarrow> is_digit c \<or> (97 \<le> byte c \<and> byte c \<le> 102) \<or> (65 \<le> byte c \<and> byte c \<le> 70)"

definition sha256_prefix :: string where "sha256_prefix = ''sha256:''"

definition bareDigestRef :: "string \<Rightarrow> string option" where
  "bareDigestRef raw =
     (if length raw \<noteq> length sha256_prefix + 64 then None
      else if map lower_byte (take (length sha256_prefix) raw) \<noteq> sha256_prefix then None
      else
        let hex = drop (length sha256_prefix) raw in
        if \<not> list_all is_hex hex then None
        else Some (sha256_prefix @ map lower_byte hex))"

definition parse :: "ref_parser \<Rightarrow> string \<Rightarrow> go_error + parsed" where
  "parse parse_reference raw0 =
     (let raw = trim_space raw0 in
      if raw = [] then Inl (ErrText [Lit ''empty image reference''])
      else case bareDigestRef raw of
        Some digest \<Rightarrow> Inr \<lparr>p_host = [], p_repo = [], p_tag = [], p_digest = digest\<rparr>
      | None \<Rightarrow>
          (case parse_reference raw of
             Inl err \<Rightarrow> Inl (ErrWrap [Lit ''parse image reference '', Quoted raw, Lit '': ''] err)
           | Inr ref \<Rightarrow>
               let parsed = \<lparr>p_host = nr_registry ref, p_repo = nr_repository ref,
                             p_tag = [], p_digest = []\<rparr>
               in case nr_kind ref of
                    TagRef t \<Rightarrow> Inr (parsed\<lparr>p_tag := t\<rparr>)
                  | DigestRef d \<Rightarrow> Inr (parsed\<lparr>p_digest := d\<rparr>)
                  | OtherRef \<Rightarrow>
                      Inl (ErrText [Lit ''unsupported reference type for '', Quoted raw])))"

lemma byte_char_of [simp]: "n < 256 \<Longrightarrow> byte (char_of n) = n"
  by (simp add: byte_def)

lemma byte_lower_byte: "byte (lower_byte c) = (if 65 \<le> byte c \<and> byte c \<le> 90 then byte c + 32 else byte c)"
  by (simp add: lower_byte_def)

lemma lower_byte_idem [simp]: "lower_byte (lower_byte c) = lower_byte c"
  using byte_lower_byte [of c] by (auto simp: lower_byte_def [of "lower_byte c"])

lemma is_hex_lower: "is_hex c \<Longrightarrow> is_hex (lower_byte c)"
  by (auto simp: is_hex_def is_digit_def byte_lower_byte)

lemma graphic_hex: "is_hex c \<Longrightarrow> graphic c"
  by (auto simp: is_hex_def is_digit_def graphic_def byte_def)

lemma sha256_prefix_facts:
  "sha256_prefix \<noteq> []" "graphic (hd sha256_prefix)"
  "map lower_byte sha256_prefix = sha256_prefix"
  by (simp_all add: sha256_prefix_def graphic_def lower_byte_def byte_def)

lemma bareDigestRef_Some:
  assumes "bareDigestRef raw = Some d"
  shows "\<exists>hex. d = sha256_prefix @ hex \<and> length hex = 64 \<and> list_all is_hex hex
    \<and> map lower_byte hex = hex"
  using assms
  by (auto simp: bareDigestRef_def Let_def list_all_iff is_hex_lower split: if_splits)

lemma bareDigestRef_canonical:
  "length hex = 64 \<Longrightarrow> list_all is_hex hex \<Longrightarrow>
     bareDigestRef (sha256_prefix @ hex) = Some (sha256_prefix @ map lower_byte hex)"
  by (simp add: bareDigestRef_def sha256_prefix_facts)

lemma bareDigestRef_idem:
  assumes "bareDigestRef raw = Some d"
  shows "bareDigestRef d = Some d"
  using bareDigestRef_Some [OF assms] bareDigestRef_canonical by fastforce

lemma bareDigestRef_trim:
  assumes "bareDigestRef raw = Some d"
  shows "trim_space d = d"
proof -
  obtain hex where d: "d = sha256_prefix @ hex" and "length hex = 64" "list_all is_hex hex"
    using bareDigestRef_Some [OF assms] by blast
  then have ne: "hex \<noteq> []" by auto
  with \<open>list_all is_hex hex\<close> have "is_hex (last hex)"
    by (simp add: list_all_iff)
  with d ne show ?thesis
    using graphic_hex sha256_prefix_facts by (intro trim_space_id) auto
qed

section \<open>Rule keys\<close>

definition library_prefix :: string where "library_prefix = ''library/''"

definition DockerHubHost :: string where "DockerHubHost = ''index.docker.io''"

definition RuleLookupKeys :: "string \<Rightarrow> string \<Rightarrow> string list" where
  "RuleLookupKeys host repo =
     (let keys = [repo] in
      if host \<noteq> DockerHubHost then keys
      else case cut_prefix repo library_prefix of
        Some name \<Rightarrow>
          (if name \<noteq> [] \<and> \<not> contains name CHR ''/'' then keys @ [name]
           else if \<not> contains repo CHR ''/'' then keys @ [library_prefix @ repo]
           else keys)
      | None \<Rightarrow>
          (if \<not> contains repo CHR ''/'' then keys @ [library_prefix @ repo] else keys))"

definition RuleConfigKeys :: "string \<Rightarrow> string list" where
  "RuleConfigKeys img = RuleLookupKeys DockerHubHost img"

lemma library_contains_slash [simp]: "contains (library_prefix @ s) CHR ''/''"
  by (simp add: contains_def library_prefix_def)

lemma cut_library_None: "\<not> contains repo CHR ''/'' \<Longrightarrow> cut_prefix repo library_prefix = None"
  by (auto simp: cut_prefix_def has_prefix_iff contains_def library_prefix_def)

lemma hub_keys_plain:
  "\<not> contains repo CHR ''/'' \<Longrightarrow>
     RuleLookupKeys DockerHubHost repo = [repo, library_prefix @ repo]"
  by (simp add: RuleLookupKeys_def cut_library_None)

lemma hub_keys_library:
  "name \<noteq> [] \<Longrightarrow> \<not> contains name CHR ''/'' \<Longrightarrow>
     RuleLookupKeys DockerHubHost (library_prefix @ name) = [library_prefix @ name, name]"
  using cut_prefix_append [of "library_prefix" name] by (simp add: RuleLookupKeys_def)

text \<open>The two spellings of an official image claim each other; every other key claims itself only.\<close>

lemma hub_keys_cases:
  "(\<not> contains repo CHR ''/'' \<and> RuleLookupKeys DockerHubHost repo = [repo, library_prefix @ repo])
   \<or> (\<exists>name. repo = library_prefix @ name \<and> name \<noteq> [] \<and> \<not> contains name CHR ''/''
         \<and> RuleLookupKeys DockerHubHost repo = [repo, name])
   \<or> RuleLookupKeys DockerHubHost repo = [repo]"
proof (cases "contains repo CHR ''/''")
  case False
  then show ?thesis by (simp add: hub_keys_plain)
next
  case True
  then show ?thesis
    by (auto simp: RuleLookupKeys_def Let_def cut_prefix_Some split: option.splits if_splits)
qed

lemma repo_in_keys [simp]: "repo \<in> set (RuleLookupKeys host repo)"
  by (auto simp: RuleLookupKeys_def Let_def split: option.splits)

lemma hub_keys_sym:
  assumes "key \<in> set (RuleLookupKeys DockerHubHost repo)" and "repo \<noteq> []"
  shows "repo \<in> set (RuleLookupKeys DockerHubHost key)"
  using hub_keys_cases [of repo] assms hub_keys_library [of repo]
  by (auto simp: hub_keys_plain)

lemma hub_keys_trans:
  assumes "a \<in> set (RuleLookupKeys DockerHubHost repo)"
    and "b \<in> set (RuleLookupKeys DockerHubHost repo)" and "repo \<noteq> []"
  shows "b \<in> set (RuleLookupKeys DockerHubHost a)"
  using hub_keys_cases [of repo] assms hub_keys_library [of repo]
  by (auto simp: hub_keys_plain)

lemma other_host_keys: "host \<noteq> DockerHubHost \<Longrightarrow> RuleLookupKeys host repo = [repo]"
  by (simp add: RuleLookupKeys_def)

lemma lookup_keys_subset: "set (RuleLookupKeys host repo) \<subseteq> set (RuleConfigKeys repo)"
  by (cases "host = DockerHubHost") (auto simp: RuleConfigKeys_def other_host_keys)

end
