(* ===== verification/Config.thy ===== *)
theory Config
  imports ImageRef
begin

text \<open>
  The configuration (\<open>internal/config\<close>): the records YAML is decoded into, what \<open>Load\<close> checks, the
  environment overrides, the path of the state file and the instance name. What the process finds
  outside itself is the record \<open>sys\<close>: the environment variables, the time zone database, the cron
  parser, the regular expression compiler, the configuration file and the YAML decoder.
\<close>

section \<open>The configuration records\<close>

record plugin_config =
  pc_type :: string
  pc_config :: cfg_map

record rule_config =
  rc_image :: string
  rc_include :: string
  rc_track :: string
  rc_mode :: string

record timeouts =
  t_provider :: duration
  t_registry :: duration

record config =
  cfg_provider :: plugin_config
  cfg_registries :: "plugin_config list"
  cfg_notifiers :: "plugin_config list"
  cfg_timeouts :: timeouts
  cfg_interval :: duration
  cfg_schedule :: string
  cfg_state_file :: string
  cfg_log_level :: string
  cfg_rules :: "rule_config list"
  cfg_exclude_containers :: "string list"
  cfg_instance_name :: string
  cfg_timezone :: string
  cfg_registry_proxy :: string
  cfg_health_max_age :: duration

type_synonym regex = "string \<Rightarrow> bool"

datatype location = LocLocal | LocNamed string

record sys =
  sys_getenv :: "string \<Rightarrow> string"
  sys_load_location :: "string \<Rightarrow> go_error option"
  sys_cron_parse :: "string \<Rightarrow> go_error option"
  sys_re_compile :: "string \<Rightarrow> go_error + regex"
  sys_read_file :: "string \<Rightarrow> go_error + string"
  sys_yaml :: "config \<Rightarrow> string \<Rightarrow> go_error + config"
  sys_hostname :: "go_error + string"

text \<open>
  A machine on which nothing is set up, for concrete examples: no environment, no files, every time
  zone, schedule and pattern accepted (a pattern matches exactly the strings that start with it).
\<close>

definition quiet_sys :: sys where
  "quiet_sys =
     \<lparr>sys_getenv = (\<lambda>_. []), sys_load_location = (\<lambda>_. None), sys_cron_parse = (\<lambda>_. None),
      sys_re_compile = (\<lambda>p. Inr (\<lambda>s. has_prefix s p)),
      sys_read_file = (\<lambda>_. Inl (ErrText [Lit ''no such file''])),
      sys_yaml = (\<lambda>cfg _. Inr cfg),
      sys_hostname = Inl (ErrText [Lit ''no host name''])\<rparr>"

section \<open>Checking the rules\<close>

definition EffectiveRuleTrack :: "rule_config \<Rightarrow> string" where
  "EffectiveRuleTrack rule =
     (let t = trim_space (rc_track rule) in
      if t \<noteq> [] then t else trim_space (rc_mode rule))"

definition RuleUsesDeprecatedMode :: "rule_config \<Rightarrow> bool" where
  "RuleUsesDeprecatedMode rule \<longleftrightarrow>
     trim_space (rc_track rule) = [] \<and> trim_space (rc_mode rule) \<noteq> []"

datatype rule_error =
    RuleImageRequired nat
  | RuleBothSet nat string
  | RuleUnknownTrack nat string
  | RuleIncludeRequired nat
  | RuleBadInclude nat go_error
  | RuleConflict nat string nat string

definition digest_track :: string where "digest_track = ''digest''"

text \<open>
  The inner loop claims the keys of one rule. \<open>seen\<close> maps a key to the rule that claimed it; the
  image of that rule is stored with it, where the code reads it back from the rule list.
\<close>

fun claim_keys :: "nat \<Rightarrow> string \<Rightarrow> string list \<Rightarrow> (string \<rightharpoonup> nat \<times> string)
    \<Rightarrow> rule_error + (string \<rightharpoonup> nat \<times> string)" where
  "claim_keys i img [] seen = Inr seen"
| "claim_keys i img (key # keys) seen =
     (case seen key of
        Some (prev, prev_img) \<Rightarrow> Inl (RuleConflict i img prev prev_img)
      | None \<Rightarrow> claim_keys i img keys (seen(key \<mapsto> (i, img))))"

definition check_rule :: "sys \<Rightarrow> nat \<Rightarrow> rule_config \<Rightarrow> rule_error option" where
  "check_rule sys i rule =
     (let track = trim_space (rc_track rule);
          mode = trim_space (rc_mode rule);
          effective = EffectiveRuleTrack rule
      in if rc_image rule = [] then Some (RuleImageRequired i)
      else if track \<noteq> [] \<and> mode \<noteq> [] then Some (RuleBothSet i (rc_image rule))
      else if effective \<noteq> [] \<and> effective \<noteq> digest_track then Some (RuleUnknownTrack i effective)
      else if rc_include rule = [] \<and> effective \<noteq> digest_track then Some (RuleIncludeRequired i)
      else if rc_include rule \<noteq> [] then
        (case sys_re_compile sys (rc_include rule) of
           Inl err \<Rightarrow> Some (RuleBadInclude i err)
         | Inr _ \<Rightarrow> None)
      else None)"

fun validate_from :: "sys \<Rightarrow> nat \<Rightarrow> rule_config list \<Rightarrow> (string \<rightharpoonup> nat \<times> string)
    \<Rightarrow> rule_error option" where
  "validate_from sys i [] seen = None"
| "validate_from sys i (rule # rules) seen =
     (case check_rule sys i rule of
        Some e \<Rightarrow> Some e
      | None \<Rightarrow>
          (case claim_keys i (rc_image rule) (RuleConfigKeys (rc_image rule)) seen of
             Inl e \<Rightarrow> Some e
           | Inr seen' \<Rightarrow> validate_from sys (Suc i) rules seen'))"

definition validateRules :: "sys \<Rightarrow> rule_config list \<Rightarrow> rule_error option" where
  "validateRules sys rules = validate_from sys 0 rules Map.empty"

lemma claim_keys_Inr:
  "claim_keys i img keys seen = Inr seen' \<Longrightarrow>
     dom seen' = dom seen \<union> set keys \<and> set keys \<inter> dom seen = {}"
proof (induction keys arbitrary: seen)
  case (Cons key keys)
  then have None: "seen key = None"
    and rest: "claim_keys i img keys (seen(key \<mapsto> (i, img))) = Inr seen'"
    by (auto split: option.splits)
  from Cons.IH [OF rest] None show ?case by auto
qed auto

lemma claim_keys_fresh:
  "distinct keys \<Longrightarrow> set keys \<inter> dom seen = {} \<Longrightarrow> \<exists>seen'. claim_keys i img keys seen = Inr seen'"
proof (induction keys arbitrary: seen)
  case (Cons key keys)
  then have None: "seen key = None" and d: "distinct keys"
    and disj: "set keys \<inter> dom (seen(key \<mapsto> (i, img))) = {}"
    by auto
  have "claim_keys i img (key # keys) seen = claim_keys i img keys (seen(key \<mapsto> (i, img)))"
    using None by simp
  with Cons.IH [OF d disj] show ?case by metis
qed auto

lemma distinct_config_keys: "distinct (RuleConfigKeys img)"
  using hub_keys_cases [of img] by (auto simp: RuleConfigKeys_def library_prefix_def)

text \<open>An accepted list of rules claims pairwise disjoint keys, and each rule passes its own checks.\<close>

lemma validate_from_disjoint:
  assumes "validate_from sys i rules seen = None"
  shows "(\<forall>r\<in>set rules. set (RuleConfigKeys (rc_image r)) \<inter> dom seen = {}) \<and>
    (\<forall>j < length rules. \<forall>k < j.
       set (RuleConfigKeys (rc_image (rules ! j))) \<inter> set (RuleConfigKeys (rc_image (rules ! k))) = {})"
  using assms
proof (induction rules arbitrary: i seen)
  case (Cons r rules)
  then obtain seen' where s: "claim_keys i (rc_image r) (RuleConfigKeys (rc_image r)) seen = Inr seen'"
    and v: "validate_from sys (Suc i) rules seen' = None"
    by (auto split: option.splits sum.splits)
  note c = claim_keys_Inr [OF s]
  note ih = Cons.IH [OF v]
  have "set (RuleConfigKeys (rc_image q)) \<inter> dom seen = {}" if "q \<in> set rules" for q
  proof -
    have "set (RuleConfigKeys (rc_image q)) \<inter> dom seen' = {}" using ih that by simp
    then show ?thesis using c by (simp add: Int_Un_distrib)
  qed
  with c have first: "\<forall>q\<in>set (r # rules). set (RuleConfigKeys (rc_image q)) \<inter> dom seen = {}"
    by simp
  have "set (RuleConfigKeys (rc_image ((r # rules) ! j))) \<inter>
      set (RuleConfigKeys (rc_image ((r # rules) ! k))) = {}"
    if "j < length (r # rules)" "k < j" for j k
  proof (cases k)
    case 0
    with that have "(r # rules) ! j \<in> set rules" by (cases j) auto
    with ih c 0 show ?thesis by fastforce
  next
    case (Suc m)
    with that ih show ?thesis by (cases j) auto
  qed
  with first show ?case by blast
qed simp

lemma validate_from_checked:
  "validate_from sys i rules seen = None \<Longrightarrow> j < length rules \<Longrightarrow>
     check_rule sys (i + j) (rules ! j) = None"
proof (induction rules arbitrary: i j seen)
  case (Cons r rules)
  show ?case
  proof (cases j)
    case 0
    with Cons.prems show ?thesis by (auto split: option.splits)
  next
    case (Suc m)
    from Cons.prems obtain seen' where "validate_from sys (Suc i) rules seen' = None"
      by (auto split: option.splits sum.splits)
    with Cons.IH [of "Suc i" seen' m] Cons.prems Suc show ?thesis by simp
  qed
qed simp

lemma validate_from_complete:
  assumes "\<forall>j < length rules. check_rule sys (i + j) (rules ! j) = None"
    and "\<forall>r\<in>set rules. set (RuleConfigKeys (rc_image r)) \<inter> dom seen = {}"
    and "\<forall>j < length rules. \<forall>k < j.
       set (RuleConfigKeys (rc_image (rules ! j))) \<inter> set (RuleConfigKeys (rc_image (rules ! k))) = {}"
  shows "validate_from sys i rules seen = None"
  using assms
proof (induction rules arbitrary: i seen)
  case (Cons r rules)
  obtain seen' where s: "claim_keys i (rc_image r) (RuleConfigKeys (rc_image r)) seen = Inr seen'"
    using claim_keys_fresh [OF distinct_config_keys] Cons.prems(2) by fastforce
  have "validate_from sys (Suc i) rules seen' = None"
  proof (rule Cons.IH)
    show "\<forall>j<length rules. check_rule sys (Suc i + j) (rules ! j) = None"
      using Cons.prems(1) by fastforce
    show "\<forall>q\<in>set rules. set (RuleConfigKeys (rc_image q)) \<inter> dom seen' = {}"
    proof
      fix q assume q: "q \<in> set rules"
      then obtain j where "j < length rules" "rules ! j = q" by (auto simp: in_set_conv_nth)
      with Cons.prems(3) [rule_format, of "Suc j" 0]
      have "set (RuleConfigKeys (rc_image q)) \<inter> set (RuleConfigKeys (rc_image r)) = {}" by simp
      moreover have "set (RuleConfigKeys (rc_image q)) \<inter> dom seen = {}"
        using Cons.prems(2) q by simp
      ultimately show "set (RuleConfigKeys (rc_image q)) \<inter> dom seen' = {}"
        using claim_keys_Inr [OF s] by blast
    qed
    show "\<forall>j < length rules. \<forall>k < j. set (RuleConfigKeys (rc_image (rules ! j)))
        \<inter> set (RuleConfigKeys (rc_image (rules ! k))) = {}"
      using Cons.prems(3) by fastforce
  qed
  moreover have "check_rule sys i r = None"
    using Cons.prems(1) by fastforce
  ultimately show ?case using s by simp
qed simp

lemma check_rule_None:
  assumes "check_rule sys i rule = None"
  shows "rc_image rule \<noteq> []"
    and "EffectiveRuleTrack rule = [] \<or> EffectiveRuleTrack rule = digest_track"
    and "rc_include rule \<noteq> [] \<or> EffectiveRuleTrack rule = digest_track"
    and "rc_include rule \<noteq> [] \<Longrightarrow> \<exists>re. sys_re_compile sys (rc_include rule) = Inr re"
  using assms by (auto simp: check_rule_def Let_def split: if_splits sum.splits)

lemma validated_rules:
  assumes "validateRules sys rules = None" and "r \<in> set rules"
  shows "rc_image r \<noteq> []"
    and "EffectiveRuleTrack r = [] \<or> EffectiveRuleTrack r = digest_track"
    and "rc_include r \<noteq> [] \<or> EffectiveRuleTrack r = digest_track"
    and "rc_include r \<noteq> [] \<Longrightarrow> \<exists>re. sys_re_compile sys (rc_include r) = Inr re"
proof -
  obtain j where j: "j < length rules" "rules ! j = r"
    using assms(2) by (auto simp: in_set_conv_nth)
  from validate_from_checked [OF assms(1) [unfolded validateRules_def] j(1)] j(2)
  have c: "check_rule sys j r = None" by simp
  show "rc_image r \<noteq> []"
    and "EffectiveRuleTrack r = [] \<or> EffectiveRuleTrack r = digest_track"
    and "rc_include r \<noteq> [] \<or> EffectiveRuleTrack r = digest_track"
    and "rc_include r \<noteq> [] \<Longrightarrow> \<exists>re. sys_re_compile sys (rc_include r) = Inr re"
    using check_rule_None [OF c] by auto
qed

lemma validated_keys_unique:
  assumes v: "validateRules sys rules = None"
    and r: "r \<in> set rules" "r' \<in> set rules"
    and k: "rc_image r \<in> set (RuleLookupKeys host repo)"
           "rc_image r' \<in> set (RuleLookupKeys host repo)"
    and "repo \<noteq> []"
  shows "r = r'"
proof (rule ccontr)
  assume ne: "r \<noteq> r'"
  obtain i j where i: "i < length rules" "rules ! i = r" and j: "j < length rules" "rules ! j = r'"
    using r by (auto simp: in_set_conv_nth)
  with ne have "i \<noteq> j" by auto
  have "rc_image r' \<in> set (RuleConfigKeys (rc_image r))"
    using k \<open>repo \<noteq> []\<close> hub_keys_trans [of "rc_image r" repo "rc_image r'"]
    by (cases "host = DockerHubHost") (auto simp: RuleConfigKeys_def other_host_keys)
  moreover have "rc_image r' \<in> set (RuleConfigKeys (rc_image r'))"
    by (simp add: RuleConfigKeys_def)
  moreover have "set (RuleConfigKeys (rc_image r)) \<inter> set (RuleConfigKeys (rc_image r')) = {}"
    using validate_from_disjoint [OF v [unfolded validateRules_def]] i j \<open>i \<noteq> j\<close>
    by (cases i j rule: linorder_cases) (auto simp: Int_commute)
  ultimately show False by blast
qed

section \<open>Excluded containers\<close>

datatype exclude_error = ExcludeNameRequired nat

text \<open>The set is the list of its names, the second component the duplicates in order.\<close>

fun exclude_from :: "nat \<Rightarrow> string list \<Rightarrow> string list \<Rightarrow> string list
    \<Rightarrow> exclude_error + (string list \<times> string list)" where
  "exclude_from i [] out dups = Inr (out, dups)"
| "exclude_from i (raw # names) out dups =
     (let name = trim_space raw in
      if name = [] then Inl (ExcludeNameRequired i)
      else if name \<in> set out then
        exclude_from (Suc i) names out (if name \<in> set dups then dups else dups @ [name])
      else exclude_from (Suc i) names (out @ [name]) dups)"

definition ExcludeContainerSet :: "string list
    \<Rightarrow> exclude_error + (string list option \<times> string list)" where
  "ExcludeContainerSet names =
     (if names = [] then Inr (None, [])
      else case exclude_from 0 names [] [] of
        Inl e \<Rightarrow> Inl e
      | Inr (out, dups) \<Rightarrow> Inr (Some out, dups))"

lemma exclude_from_Inr:
  assumes "exclude_from i names out dups = Inr (out', dups')"
    and "distinct out" and "distinct dups" and "set dups \<subseteq> set out"
  shows "set out' = set out \<union> trim_space ` set names \<and> distinct out' \<and> [] \<notin> trim_space ` set names
    \<and> distinct dups' \<and> set dups \<subseteq> set dups' \<and> set dups' \<subseteq> set out'
    \<and> (\<forall>n. n \<in> set dups' - set dups \<longleftrightarrow>
          n \<notin> set dups \<and> (if n \<in> set out then 1 else 2) \<le> count_list (map trim_space names) n)"
  using assms
proof (induction names arbitrary: i out dups)
  case (Cons raw names)
  let ?n = "trim_space raw"
  from Cons.prems have ne: "?n \<noteq> []" by (auto simp: Let_def split: if_splits)
  show ?case
  proof (cases "?n \<in> set out")
    case True
    let ?d = "if ?n \<in> set dups then dups else dups @ [?n]"
    have e: "exclude_from (Suc i) names out ?d = Inr (out', dups')"
      using Cons.prems True ne by (simp add: Let_def)
    have "distinct ?d" "set ?d \<subseteq> set out" using Cons.prems True by auto
    note ih = Cons.IH [OF e Cons.prems(2) this]
    have "n \<in> set dups' - set dups \<longleftrightarrow>
        n \<notin> set dups \<and> (if n \<in> set out then 1 else 2) \<le> count_list (map trim_space (raw # names)) n"
      for n
      using ih True by (cases "n = ?n") (auto split: if_splits)
    with ih True ne show ?thesis by (auto split: if_splits)
  next
    case False
    have e: "exclude_from (Suc i) names (out @ [?n]) dups = Inr (out', dups')"
      using Cons.prems False ne by (simp add: Let_def)
    have "distinct (out @ [?n])" "set dups \<subseteq> set (out @ [?n])" using Cons.prems False by auto
    note ih = Cons.IH [OF e this(1) Cons.prems(3) this(2)]
    have "n \<in> set dups' - set dups \<longleftrightarrow>
        n \<notin> set dups \<and> (if n \<in> set out then 1 else 2) \<le> count_list (map trim_space (raw # names)) n"
      for n
      using ih False by (cases "n = ?n") auto
    with ih False ne show ?thesis by auto
  qed
qed auto

lemma exclude_from_Inl:
  "exclude_from i names out dups = Inl e \<Longrightarrow> \<exists>raw\<in>set names. trim_space raw = []"
  by (induction names arbitrary: i out dups) (auto simp: Let_def split: if_splits)

end
