(* ===== verification/Watch.thy ===== *)
theory Watch
  imports Config Diagnostics
begin

text \<open>
  Which containers are monitored (\<open>internal/core/watch.go\<close>): the exclusion list of the configuration
  (the set as the list of its names, \<open>None\<close> for a nil set) and the label \<open>versentry.watch\<close>.
\<close>

definition labelWatch :: string where "labelWatch = ''versentry.watch''"

text \<open>\<open>strconv.ParseBool\<close>.\<close>

definition parse_bool :: "string \<Rightarrow> bool option" where
  "parse_bool s =
     (if s \<in> set [''1'', ''t'', ''T'', ''TRUE'', ''true'', ''True''] then Some True
      else if s \<in> set [''0'', ''f'', ''F'', ''FALSE'', ''false'', ''False''] then Some False
      else None)"

definition shouldMonitorLabel :: "labels \<Rightarrow> bool" where
  "shouldMonitorLabel ls =
     (if ls = [] then True
      else case map_of ls labelWatch of
        None \<Rightarrow> True
      | Some raw \<Rightarrow> (case parse_bool raw of None \<Rightarrow> True | Some v \<Rightarrow> v))"

definition ShouldMonitor :: "container \<Rightarrow> string list option \<Rightarrow> bool" where
  "ShouldMonitor c exclude =
     (case exclude of
        Some names \<Rightarrow> if c_name c \<in> set names then False else shouldMonitorLabel (c_labels c)
      | None \<Rightarrow> shouldMonitorLabel (c_labels c))"

fun filter_watch_from :: "string list option \<Rightarrow> container list \<Rightarrow> container list \<Rightarrow> nat
    \<Rightarrow> container list \<times> nat" where
  "filter_watch_from exclude [] monitored excluded = (monitored, excluded)"
| "filter_watch_from exclude (c # cs) monitored excluded =
     (if ShouldMonitor c exclude then filter_watch_from exclude cs (monitored @ [c]) excluded
      else filter_watch_from exclude cs monitored (Suc excluded))"

definition filterByWatch :: "container list \<Rightarrow> string list option \<Rightarrow> container list \<times> nat" where
  "filterByWatch containers exclude =
     (if containers = [] then ([], 0) else filter_watch_from exclude containers [] 0)"

text \<open>The lines of the filter: a label it cannot read, a container it leaves out.\<close>

definition monitor_lines :: "container \<Rightarrow> string list option \<Rightarrow> log_line list" where
  "monitor_lines c exclude =
     (if exclude \<noteq> None \<and> c_name c \<in> set (the exclude) then []
      else case map_of (c_labels c) labelWatch of
        None \<Rightarrow> []
      | Some raw \<Rightarrow>
          (case parse_bool raw of
             None \<Rightarrow>
               [LogLine LevelWarn ''invalid versentry.watch label value, ignoring''
                  [(''container'', AttrStr (c_name c)), (''value'', AttrStr raw)]]
           | Some v \<Rightarrow> []))"

fun watch_lines :: "string list option \<Rightarrow> container list \<Rightarrow> log_line list" where
  "watch_lines exclude [] = []"
| "watch_lines exclude (c # cs) =
     monitor_lines c exclude
     @ (if ShouldMonitor c exclude then []
        else [LogLine LevelDebug ''container excluded by watch policy''
                [(''container'', AttrStr (c_name c)), (''image'', AttrStr (c_image_ref c))]])
     @ watch_lines exclude cs"

text \<open>The names a missing-container warning is logged for, in the order of the warnings.\<close>

definition warnMissingExcludeContainers :: "container list \<Rightarrow> string list option \<Rightarrow> string list" where
  "warnMissingExcludeContainers fleet exclude =
     (case exclude of
        None \<Rightarrow> []
      | Some names \<Rightarrow>
          if names = [] then []
          else filter (\<lambda>name. name \<notin> set (map c_name fleet)) (sort names))"

lemma filter_watch_from_eq:
  "filter_watch_from exclude cs monitored excluded =
     (monitored @ filter (\<lambda>c. ShouldMonitor c exclude) cs,
      excluded + length (filter (\<lambda>c. \<not> ShouldMonitor c exclude) cs))"
  by (induction cs arbitrary: monitored excluded) auto

lemma filterByWatch_eq:
  "filterByWatch cs exclude =
     (filter (\<lambda>c. ShouldMonitor c exclude) cs, length (filter (\<lambda>c. \<not> ShouldMonitor c exclude) cs))"
  by (simp add: filterByWatch_def filter_watch_from_eq)

section \<open>Properties\<close>

text \<open>
  Opting out only excludes: a container is dropped exactly when its name is on the exclusion list
  or its watch label reads as false (a missing or unreadable label monitors); the monitored
  containers keep their order, and together with the excluded ones they are all containers.
\<close>
theorem filterByWatch_correct:
  "fst (filterByWatch cs exclude) =
     filter (\<lambda>c. \<not> (\<exists>names. exclude = Some names \<and> c_name c \<in> set names) \<and>
        Option.bind (map_of (c_labels c) labelWatch) parse_bool \<noteq> Some False) cs
   \<and> length (fst (filterByWatch cs exclude)) + snd (filterByWatch cs exclude) = length cs"
proof -
  have "(\<lambda>c. ShouldMonitor c exclude) = (\<lambda>c.
      \<not> (\<exists>names. exclude = Some names \<and> c_name c \<in> set names) \<and>
        Option.bind (map_of (c_labels c) labelWatch) parse_bool \<noteq> Some False)"
    by (auto simp: fun_eq_iff ShouldMonitor_def shouldMonitorLabel_def split: option.splits)
  then show ?thesis
    using filter_length_split [of "\<lambda>c. ShouldMonitor c exclude" cs] by (simp add: filterByWatch_eq)
qed

text \<open>
  The exclusion list of the configuration: a list is refused exactly when some name is empty
  after trimming; otherwise the set holds exactly the trimmed names, each once, and the reported
  duplicates are exactly the names that occur more than once, each reported once.
\<close>
theorem ExcludeContainerSet_correct:
  "case ExcludeContainerSet names of
     Inl e \<Rightarrow> [] \<in> trim_space ` set names
   | Inr (out, dups) \<Rightarrow>
       [] \<notin> trim_space ` set names
       \<and> (case out of None \<Rightarrow> names = []
           | Some xs \<Rightarrow> names \<noteq> [] \<and> set xs = trim_space ` set names \<and> distinct xs)
       \<and> distinct dups
       \<and> set dups = {n. 2 \<le> count_list (map trim_space names) n}"
proof (cases "exclude_from 0 names [] []")
  case (Inl e)
  then have "[] \<in> trim_space ` set names"
    using exclude_from_Inl [OF Inl] by (metis imageI)
  with Inl show ?thesis by (auto simp: ExcludeContainerSet_def)
next
  case (Inr p)
  then obtain out dups where p: "exclude_from 0 names [] [] = Inr (out, dups)"
    by (cases p) auto
  from exclude_from_Inr [OF p] p show ?thesis
    by (auto simp: ExcludeContainerSet_def)
qed

end
