(* ===== verification/Rules.thy ===== *)
theory Rules
  imports Config Diagnostics
begin

text \<open>
  Rule resolution (\<open>internal/core/rules.go\<close>): compiling the rules of the configuration, reading a
  rule from container labels, and the chain that lets the configuration win. A \<open>RuleResolver\<close> is the
  function from a query to the rule it finds; a nil resolver is \<open>None\<close> in the chain's list. Log lines
  are not part of the model.
\<close>

definition labelInclude :: string where "labelInclude = ''versentry.include''"
definition labelTrack :: string where "labelTrack = ''versentry.track''"
definition labelMode :: string where "labelMode = ''versentry.mode''"
definition RuleTrackDigest :: string where "RuleTrackDigest = ''digest''"

record rule =
  r_image :: string
  r_include :: "regex option"
  r_track :: string

record rule_query =
  q_host :: string
  q_image :: string
  q_container :: string
  q_labels :: labels

type_synonym resolver = "rule_query \<Rightarrow> rule option"

section \<open>Rules of the configuration\<close>

definition compile_include :: "sys \<Rightarrow> string \<Rightarrow> go_error + regex option" where
  "compile_include sys inc =
     (if inc \<noteq> [] then
        (case sys_re_compile sys inc of Inl err \<Rightarrow> Inl err | Inr re \<Rightarrow> Inr (Some re))
      else Inr None)"

fun config_rules_from :: "sys \<Rightarrow> nat \<Rightarrow> rule_config list \<Rightarrow> (string \<rightharpoonup> rule)
    \<Rightarrow> (nat \<times> go_error) + (string \<rightharpoonup> rule)" where
  "config_rules_from sys i [] byImage = Inr byImage"
| "config_rules_from sys i (rc # rules) byImage =
     (case compile_include sys (rc_include rc) of
        Inl err \<Rightarrow> Inl (i, err)
      | Inr re \<Rightarrow>
          config_rules_from sys (Suc i) rules
            (byImage(rc_image rc \<mapsto>
               \<lparr>r_image = rc_image rc, r_include = re, r_track = EffectiveRuleTrack rc\<rparr>)))"

definition NewConfigRuleResolver :: "sys \<Rightarrow> rule_config list
    \<Rightarrow> (nat \<times> go_error) + (string \<rightharpoonup> rule)" where
  "NewConfigRuleResolver sys rules = config_rules_from sys 0 rules Map.empty"

fun first_rule :: "(string \<rightharpoonup> rule) \<Rightarrow> string list \<Rightarrow> rule option" where
  "first_rule byImage [] = None"
| "first_rule byImage (key # keys) =
     (case byImage key of Some rule \<Rightarrow> Some rule | None \<Rightarrow> first_rule byImage keys)"

definition config_RuleFor :: "(string \<rightharpoonup> rule) \<Rightarrow> resolver" where
  "config_RuleFor byImage q = first_rule byImage (RuleLookupKeys (q_host q) (q_image q))"

section \<open>Rules from labels\<close>

definition resolveLabelTrack :: "string \<Rightarrow> string \<Rightarrow> string" where
  "resolveLabelTrack trackRaw0 modeRaw0 =
     (let trackRaw = trim_space trackRaw0;
          modeRaw = trim_space modeRaw0;
          track = (if trackRaw \<noteq> [] then
                     (if trackRaw \<noteq> RuleTrackDigest then [] else RuleTrackDigest)
                   else [])
      in if modeRaw = [] then track
      else if modeRaw \<noteq> RuleTrackDigest then track
      else if track \<noteq> [] then track
      else RuleTrackDigest)"

definition label_RuleFor :: "sys \<Rightarrow> resolver" where
  "label_RuleFor sys q =
     (if q_labels q = [] then None
      else
        let raw = label_of (q_labels q) labelInclude;
            incl = (if raw \<noteq> [] then
                      (case sys_re_compile sys raw of Inl _ \<Rightarrow> None | Inr re \<Rightarrow> Some re)
                    else None);
            track = resolveLabelTrack (label_of (q_labels q) labelTrack)
                      (label_of (q_labels q) labelMode)
        in if incl = None \<and> track = [] then None
           else Some \<lparr>r_image = q_image q, r_include = incl, r_track = track\<rparr>)"

text \<open>
  What the label resolver logs: the labels it ignores or finds deprecated. A query never fails.
\<close>

definition query_line :: "string \<Rightarrow> rule_query \<Rightarrow> (string \<times> attr) list \<Rightarrow> log_line" where
  "query_line txt q attrs =
     LogLine LevelWarn txt ([(''container'', AttrStr (q_container q)), (''image'', AttrStr (q_image q))] @ attrs)"

definition track_lines :: "rule_query \<Rightarrow> string \<Rightarrow> string \<Rightarrow> log_line list" where
  "track_lines q trackRaw0 modeRaw0 =
     (let trackRaw = trim_space trackRaw0;
          modeRaw = trim_space modeRaw0
      in (if trackRaw \<noteq> [] \<and> trackRaw \<noteq> RuleTrackDigest then
            [query_line ''invalid versentry.track label, ignoring'' q [(''track'', AttrStr trackRaw)]]
          else [])
       @ (if modeRaw = [] then []
          else if modeRaw \<noteq> RuleTrackDigest then
            [query_line ''invalid versentry.mode label, ignoring'' q [(''mode'', AttrStr modeRaw)]]
          else if trackRaw = RuleTrackDigest then
            [query_line ''versentry.mode and versentry.track both set; using track'' q []]
          else [query_line ''versentry.mode is deprecated, use versentry.track instead'' q []]))"

definition label_lines :: "sys \<Rightarrow> rule_query \<Rightarrow> log_line list" where
  "label_lines sys q =
     (if q_labels q = [] then []
      else
        let raw = label_of (q_labels q) labelInclude
        in (if raw \<noteq> [] then
              (case sys_re_compile sys raw of
                 Inl err \<Rightarrow>
                   [query_line ''invalid versentry.include label, ignoring'' q
                      [(''include'', AttrStr raw), (''error'', AttrErr err)]]
               | Inr re \<Rightarrow> [])
            else [])
         @ track_lines q (label_of (q_labels q) labelTrack) (label_of (q_labels q) labelMode))"

section \<open>The chain\<close>

fun chain_RuleFor :: "resolver option list \<Rightarrow> resolver" where
  "chain_RuleFor [] q = None"
| "chain_RuleFor (src # srcs) q =
     (case src of
        None \<Rightarrow> chain_RuleFor srcs q
      | Some r \<Rightarrow> (case r q of Some rule \<Rightarrow> Some rule | None \<Rightarrow> chain_RuleFor srcs q))"

text \<open>The resolver the application builds: configuration first, then labels.\<close>

definition app_rules :: "sys \<Rightarrow> (string \<rightharpoonup> rule) \<Rightarrow> resolver" where
  "app_rules sys byImage = chain_RuleFor [Some (config_RuleFor byImage), Some (label_RuleFor sys)]"

definition app_rule_lines :: "sys \<Rightarrow> (string \<rightharpoonup> rule) \<Rightarrow> rule_query \<Rightarrow> log_line list" where
  "app_rule_lines sys byImage q = (if config_RuleFor byImage q \<noteq> None then [] else label_lines sys q)"

definition filterTags :: "string list \<Rightarrow> regex \<Rightarrow> string list" where
  "filterTags tags incl = filter incl tags"

section \<open>Facts\<close>

definition compiled_rule :: "sys \<Rightarrow> rule_config \<Rightarrow> rule" where
  "compiled_rule sys rc =
     \<lparr>r_image = rc_image rc,
      r_include = (case compile_include sys (rc_include rc) of Inl _ \<Rightarrow> None | Inr re \<Rightarrow> re),
      r_track = EffectiveRuleTrack rc\<rparr>"

lemma config_rules_from_ok:
  assumes "\<forall>rc\<in>set rules. rc_include rc \<noteq> [] \<longrightarrow> (\<exists>re. sys_re_compile sys (rc_include rc) = Inr re)"
    and "distinct (map rc_image rules)"
  shows "\<exists>m. config_rules_from sys i rules byImage = Inr m \<and>
    (\<forall>k. m k = (case find (\<lambda>rc. rc_image rc = k) rules of
        Some rc \<Rightarrow> Some (compiled_rule sys rc) | None \<Rightarrow> byImage k))"
  using assms
proof (induction rules arbitrary: i byImage)
  case (Cons rc rules)
  have "\<exists>re. compile_include sys (rc_include rc) = Inr re"
    using Cons.prems(1) by (auto simp: compile_include_def split: sum.splits)
  then obtain re where re: "compile_include sys (rc_include rc) = Inr re" by blast
  have a: "\<forall>rc\<in>set rules. rc_include rc \<noteq> [] \<longrightarrow> (\<exists>re. sys_re_compile sys (rc_include rc) = Inr re)"
    and b: "distinct (map rc_image rules)"
    using Cons.prems by auto
  let ?m = "byImage(rc_image rc \<mapsto>
      \<lparr>r_image = rc_image rc, r_include = re, r_track = EffectiveRuleTrack rc\<rparr>)"
  obtain m where m: "config_rules_from sys (Suc i) rules ?m = Inr m"
      "\<forall>k. m k = (case find (\<lambda>rc. rc_image rc = k) rules of
         Some rc \<Rightarrow> Some (compiled_rule sys rc) | None \<Rightarrow> ?m k)"
    using Cons.IH [OF a b, of "Suc i" ?m] by blast
  have none: "find (\<lambda>r. rc_image r = rc_image rc) rules = None"
    using Cons.prems(2) by (auto simp: find_None_iff image_iff)
  have "m k = (case find (\<lambda>rc. rc_image rc = k) (rc # rules) of
      Some rc \<Rightarrow> Some (compiled_rule sys rc) | None \<Rightarrow> byImage k)" for k
    using m(2) [rule_format, of k] none re
    by (cases "k = rc_image rc") (auto simp: compiled_rule_def split: option.splits)
  with m(1) re show ?case by auto
qed simp

lemma first_rule_Some:
  "first_rule m keys = Some rule \<Longrightarrow> \<exists>k\<in>set keys. m k = Some rule"
  by (induction keys) (auto split: option.splits)

lemma first_rule_None: "first_rule m keys = None \<longleftrightarrow> (\<forall>k\<in>set keys. m k = None)"
  by (induction keys) (auto split: option.splits)

lemma validated_images_distinct:
  assumes "validateRules sys rules = None"
  shows "distinct (map rc_image rules)"
proof -
  have "rc_image (rules ! i) \<noteq> rc_image (rules ! j)" if "i < length rules" "j < i" for i j
  proof
    assume eq: "rc_image (rules ! i) = rc_image (rules ! j)"
    have "set (RuleConfigKeys (rc_image (rules ! i))) \<inter> set (RuleConfigKeys (rc_image (rules ! j))) = {}"
      using validate_from_disjoint [OF assms [unfolded validateRules_def]] that by blast
    moreover have "rc_image (rules ! i) \<in> set (RuleConfigKeys (rc_image (rules ! i)))"
      by (simp add: RuleConfigKeys_def)
    ultimately show False using eq by auto
  qed
  then show ?thesis
    by (auto simp: distinct_conv_nth) (metis linorder_neqE_nat)
qed

lemma validated_resolver:
  assumes v: "validateRules sys rules = None"
  obtains m where "NewConfigRuleResolver sys rules = Inr m"
    and "\<And>k rule. m k = Some rule \<longleftrightarrow> (\<exists>rc\<in>set rules. rc_image rc = k \<and> rule = compiled_rule sys rc)"
proof -
  have "\<forall>rc\<in>set rules. rc_include rc \<noteq> [] \<longrightarrow> (\<exists>re. sys_re_compile sys (rc_include rc) = Inr re)"
    using validated_rules(4) [OF v] by blast
  from config_rules_from_ok [OF this validated_images_distinct [OF v], of 0 Map.empty]
  obtain m where m: "NewConfigRuleResolver sys rules = Inr m"
    and eq: "\<And>k. m k = (case find (\<lambda>rc. rc_image rc = k) rules of
        Some rc \<Rightarrow> Some (compiled_rule sys rc) | None \<Rightarrow> None)"
    by (auto simp: NewConfigRuleResolver_def)
  have "m k = Some rule \<longleftrightarrow> (\<exists>rc\<in>set rules. rc_image rc = k \<and> rule = compiled_rule sys rc)" for k rule
  proof (cases "find (\<lambda>rc. rc_image rc = k) rules")
    case None
    then have "\<forall>rc\<in>set rules. rc_image rc \<noteq> k" by (auto simp: find_None_iff)
    with None show ?thesis by (auto simp: eq)
  next
    case (Some rc)
    then have rc: "rc \<in> set rules" "rc_image rc = k"
      by (auto simp: find_Some_iff)
    have "rc' = rc" if "rc' \<in> set rules" "rc_image rc' = k" for rc'
      using validated_images_distinct [OF v] rc that by (auto simp: distinct_map inj_on_def)
    then have "(\<exists>rc'\<in>set rules. rc_image rc' = k \<and> rule = compiled_rule sys rc') \<longleftrightarrow>
        rule = compiled_rule sys rc"
      using rc by blast
    with Some show ?thesis by (auto simp: eq)
  qed
  with m show ?thesis using that by blast
qed

lemma resolveLabelTrack_values:
  "resolveLabelTrack t m = [] \<or> resolveLabelTrack t m = RuleTrackDigest"
  by (simp add: resolveLabelTrack_def Let_def)

lemma resolveLabelTrack_iff:
  "resolveLabelTrack t m = RuleTrackDigest \<longleftrightarrow>
     trim_space t = RuleTrackDigest \<or> trim_space m = RuleTrackDigest"
  by (auto simp: resolveLabelTrack_def Let_def RuleTrackDigest_def)

text \<open>A deprecated or contradictory mode label is reported exactly where it is looked at; the track still counts.\<close>

lemma track_lines_silent:
  "track_lines q t m = [] \<longleftrightarrow> trim_space m = [] \<and> trim_space t \<in> {[], RuleTrackDigest}"
  by (auto simp: track_lines_def Let_def)

section \<open>Properties\<close>

text \<open>
  C24. For rules the configuration check accepts, the resolver is built without error, and for every
  image reference it returns a rule exactly when some configured rule claims one of the reference's
  lookup keys, and then that rule, compiled. At most one configured rule claims a reference, so the
  order of the rules in the file does not matter.
\<close>
theorem config_resolver_correct:
  assumes "validateRules sys rules = None" and "q_image q \<noteq> []"
  shows "\<exists>byImage. NewConfigRuleResolver sys rules = Inr byImage \<and>
    (\<forall>rule. config_RuleFor byImage q = Some rule \<longleftrightarrow>
       (\<exists>rc\<in>set rules. rc_image rc \<in> set (RuleLookupKeys (q_host q) (q_image q)) \<and>
          rule = compiled_rule sys rc))
    \<and> (\<forall>rc\<in>set rules. \<forall>rc'\<in>set rules.
         {rc_image rc, rc_image rc'} \<subseteq> set (RuleLookupKeys (q_host q) (q_image q)) \<longrightarrow> rc = rc')"
proof -
  let ?keys = "RuleLookupKeys (q_host q) (q_image q)"
  obtain m where m: "NewConfigRuleResolver sys rules = Inr m"
    and iff: "\<And>k rule. m k = Some rule \<longleftrightarrow>
        (\<exists>rc\<in>set rules. rc_image rc = k \<and> rule = compiled_rule sys rc)"
    using validated_resolver [OF assms(1)] by blast
  note unique = validated_keys_unique [OF assms(1) _ _ _ _ assms(2)]
  have "config_RuleFor m q = Some rule \<longleftrightarrow>
      (\<exists>rc\<in>set rules. rc_image rc \<in> set ?keys \<and> rule = compiled_rule sys rc)" for rule
  proof
    assume "config_RuleFor m q = Some rule"
    then show "\<exists>rc\<in>set rules. rc_image rc \<in> set ?keys \<and> rule = compiled_rule sys rc"
      using first_rule_Some iff by (fastforce simp: config_RuleFor_def)
  next
    assume "\<exists>rc\<in>set rules. rc_image rc \<in> set ?keys \<and> rule = compiled_rule sys rc"
    then obtain rc where rc: "rc \<in> set rules" "rc_image rc \<in> set ?keys"
      "rule = compiled_rule sys rc" by blast
    then have "first_rule m ?keys \<noteq> None"
      using iff by (auto simp: first_rule_None)
    then obtain rule' where r': "first_rule m ?keys = Some rule'" by blast
    from first_rule_Some [OF this] obtain k where "k \<in> set ?keys" "m k = Some rule'" by blast
    with iff [of k rule'] obtain rc' where
      "rc' \<in> set rules" "rc_image rc' \<in> set ?keys" "rule' = compiled_rule sys rc'" by auto
    with unique [of rc' rc "q_host q"] rc have "rule' = rule" by simp
    with r' show "config_RuleFor m q = Some rule" by (simp add: config_RuleFor_def)
  qed
  moreover have "rc = rc'" if "rc \<in> set rules" "rc' \<in> set rules"
      "{rc_image rc, rc_image rc'} \<subseteq> set ?keys" for rc rc'
    using unique [OF that(1,2), of "q_host q"] that(3) by simp
  ultimately show ?thesis using m by blast
qed

theorem config_resolver_correct_witness:
  "\<exists>byImage. NewConfigRuleResolver quiet_sys [\<lparr>rc_image = ''nginx'', rc_include = ''1.'', rc_track = [], rc_mode = []\<rparr>]
       = Inr byImage
     \<and> config_RuleFor byImage \<lparr>q_host = ''index.docker.io'', q_image = ''library/nginx'',
          q_container = ''web'', q_labels = []\<rparr> \<noteq> None"
proof -
  let ?rc = "\<lparr>rc_image = ''nginx'', rc_include = ''1.'', rc_track = [], rc_mode = []\<rparr>"
  let ?q = "\<lparr>q_host = ''index.docker.io'', q_image = ''library/nginx'', q_container = ''web'', q_labels = []\<rparr>"
  have "check_rule quiet_sys 0 ?rc = None"
    by (simp add: check_rule_def Let_def EffectiveRuleTrack_def quiet_sys_def)
  then have v: "validateRules quiet_sys [?rc] = None"
    by (simp add: validateRules_def RuleConfigKeys_def RuleLookupKeys_def DockerHubHost_def
        cut_prefix_def has_prefix_def library_prefix_def contains_def)
  have "''nginx'' \<in> set (RuleLookupKeys (q_host ?q) (q_image ?q))"
    by (simp add: RuleLookupKeys_def DockerHubHost_def cut_prefix_def has_prefix_def library_prefix_def
        contains_def)
  then show ?thesis
    using config_resolver_correct [OF v, of ?q] by auto
qed

text \<open>
  The configuration wins as a whole: when it has a rule for the image, the labels of the
  container have no influence; otherwise the rule is the one the labels give, and a container
  without labels has none.
\<close>
theorem config_rule_wins:
  "app_rules sys byImage q =
     (case config_RuleFor byImage q of Some rule \<Rightarrow> Some rule | None \<Rightarrow> label_RuleFor sys q)
   \<and> (config_RuleFor byImage (q\<lparr>q_labels := l\<rparr>) = config_RuleFor byImage q)
   \<and> (label_RuleFor sys (q\<lparr>q_labels := []\<rparr>) = None)"
  by (auto simp: app_rules_def config_RuleFor_def label_RuleFor_def split: option.splits)

text \<open>
  An invalid label never disables monitoring or breaks a rule: the track of a label rule is
  digest exactly when one of the two track labels, trimmed, says so, and its include filter is
  present exactly when the label holds a pattern that compiles.
\<close>
theorem label_rule_correct:
  assumes "label_RuleFor sys q = Some rule"
  shows "r_image rule = q_image q
    \<and> (r_track rule = RuleTrackDigest \<longleftrightarrow>
         RuleTrackDigest \<in> trim_space ` {label_of (q_labels q) labelTrack, label_of (q_labels q) labelMode})
    \<and> (r_track rule = [] \<or> r_track rule = RuleTrackDigest)
    \<and> (\<forall>re. r_include rule = Some re \<longleftrightarrow>
         label_of (q_labels q) labelInclude \<noteq> [] \<and>
         sys_re_compile sys (label_of (q_labels q) labelInclude) = Inr re)
    \<and> (r_include rule \<noteq> None \<or> r_track rule = RuleTrackDigest)"
proof -
  let ?t = "resolveLabelTrack (label_of (q_labels q) labelTrack) (label_of (q_labels q) labelMode)"
  have "r_track rule = ?t" and "r_image rule = q_image q"
    and "r_include rule \<noteq> None \<or> ?t \<noteq> []"
    and "\<forall>re. r_include rule = Some re \<longleftrightarrow>
         label_of (q_labels q) labelInclude \<noteq> [] \<and>
         sys_re_compile sys (label_of (q_labels q) labelInclude) = Inr re"
    using assms by (auto simp: label_RuleFor_def Let_def split: if_splits sum.splits)
  then show ?thesis
    using resolveLabelTrack_values resolveLabelTrack_iff by auto
qed

theorem label_rule_correct_witness:
  "\<exists>rule. label_RuleFor quiet_sys \<lparr>q_host = ''ghcr.io'', q_image = ''a/b'', q_container = ''web'',
        q_labels = [(''versentry.include'', ''2.'')]\<rparr> = Some rule
     \<and> r_image rule = ''a/b'' \<and> r_track rule = []"
proof -
  let ?q = "\<lparr>q_host = ''ghcr.io'', q_image = ''a/b'', q_container = ''web'',
        q_labels = [(''versentry.include'', ''2.'')]\<rparr>"
  have "label_RuleFor quiet_sys ?q =
      Some \<lparr>r_image = ''a/b'', r_include = Some (\<lambda>s. has_prefix s ''2.''), r_track = []\<rparr>"
    by (simp add: label_RuleFor_def Let_def label_of_def labelInclude_def labelTrack_def labelMode_def
        resolveLabelTrack_def quiet_sys_def)
  with label_rule_correct [OF this] show ?thesis by simp
qed

end
