(* ===== verification/Numeric.thy ===== *)
theory Numeric
  imports Model "HOL-Library.Product_Lexorder"
begin

text \<open>
  Strict dotted numeric versions (\<open>internal/core/numeric.go\<close>) and the test for bare integer tags
  (\<open>bare_integer.go\<close>). The two regular expressions of the code, \<open>^v?\d+$\<close> and \<open>^v?\d+(\.\d+)+$\<close>,
  are written as the tests they denote.
\<close>

section \<open>Tag shapes\<close>

definition strip_v :: "string \<Rightarrow> string" where
  "strip_v s = (if s \<noteq> [] \<and> hd s = CHR ''v'' then tl s else s)"

definition bareIntegerTagRE :: "string \<Rightarrow> bool" where
  "bareIntegerTagRE s \<longleftrightarrow> strip_v s \<noteq> [] \<and> list_all is_digit (strip_v s)"

definition isBareIntegerTag :: "string \<Rightarrow> bool" where
  "isBareIntegerTag tag = bareIntegerTagRE (trim_space tag)"

definition numericTagRE :: "string \<Rightarrow> bool" where
  "numericTagRE s \<longleftrightarrow>
     (let parts = split_on CHR ''.'' (strip_v s)
      in 2 \<le> length parts \<and> list_all (\<lambda>p. p \<noteq> [] \<and> list_all is_digit p) parts)"

section \<open>Numeric versions\<close>

record numericVersion =
  nv_segments :: "int list"
  nv_original :: string

fun atoi_all :: "string list \<Rightarrow> int list option" where
  "atoi_all [] = Some []"
| "atoi_all (p # ps) =
     (case atoi p of
        None \<Rightarrow> None
      | Some n \<Rightarrow> (case atoi_all ps of None \<Rightarrow> None | Some ns \<Rightarrow> Some (n # ns)))"

definition parseNumericVersion :: "string \<Rightarrow> numericVersion option" where
  "parseNumericVersion tag =
     (let raw = trim_space tag in
      if \<not> numericTagRE raw then None
      else case atoi_all (split_on CHR ''.'' (strip_v raw)) of
        None \<Rightarrow> None
      | Some segs \<Rightarrow> Some \<lparr>nv_segments = segs, nv_original = raw\<rparr>)"

definition seg :: "numericVersion \<Rightarrow> nat \<Rightarrow> int" where
  "seg v i = (if i < length (nv_segments v) then nv_segments v ! i else 0)"

function compare_from :: "numericVersion \<Rightarrow> numericVersion \<Rightarrow> nat \<Rightarrow> nat \<Rightarrow> int" where
  "compare_from a b n i =
     (if i < n then
        (if seg a i < seg b i then -1
         else if seg b i < seg a i then 1
         else compare_from a b n (Suc i))
      else 0)"
  by pat_completeness auto
termination
  by (relation "measure (\<lambda>(a, b, n, i). n - i)") auto

declare compare_from.simps [simp del]

definition compareNumeric :: "numericVersion \<Rightarrow> numericVersion \<Rightarrow> int" where
  "compareNumeric a b =
     (let n = length (nv_segments a);
          n = (if n < length (nv_segments b) then length (nv_segments b) else n)
      in compare_from a b n 0)"

definition numericBump :: "numericVersion \<Rightarrow> numericVersion \<Rightarrow> string" where
  "numericBump current latest =
     (if seg latest 0 \<noteq> seg current 0 then BumpMajor
      else if seg latest 1 \<noteq> seg current 1 then BumpMinor
      else BumpPatch)"

section \<open>Choosing between equal versions\<close>

definition hasVPrefix :: "string \<Rightarrow> bool" where
  "hasVPrefix raw = (let s = trim_space raw in s \<noteq> [] \<and> hd s = CHR ''v'')"

definition preferMatchingVPrefix :: "string \<Rightarrow> string \<Rightarrow> string \<Rightarrow> bool \<times> bool" where
  "preferMatchingVPrefix current a b =
     (let cur = hasVPrefix current; fa = hasVPrefix a; fb = hasVPrefix b in
      if (fa = cur) \<noteq> (fb = cur) then (True, fa = cur) else (False, False))"

definition dottedComponentCount :: "string \<Rightarrow> nat" where
  "dottedComponentCount raw =
     (case parseNumericVersion raw of None \<Rightarrow> 0 | Some v \<Rightarrow> length (nv_segments v))"

definition preferEqualDottedTag :: "string \<Rightarrow> string \<Rightarrow> string \<Rightarrow> bool" where
  "preferEqualDottedTag current a b =
     (case preferMatchingVPrefix current a b of (decisive, preferA) \<Rightarrow>
      if decisive then preferA
      else
        let curN = dottedComponentCount current;
            aN = dottedComponentCount a;
            bN = dottedComponentCount b
        in if (aN = curN) \<noteq> (bN = curN) then aN = curN
           else if aN \<noteq> bN then bN < aN
           else if length a \<noteq> length b then length b < length a
           else a < b)"

text \<open>
  The loop over the tag list. Its body is that of \<open>pick_best\<close>: skip bare integers and what does not
  parse, take the first candidate, then replace the best when the new one compares greater or is a
  preferred spelling of the same version.
\<close>

definition numeric_cand :: "string \<Rightarrow> numericVersion option" where
  "numeric_cand raw = (if isBareIntegerTag raw then None else parseNumericVersion raw)"

definition numeric_beats :: "string \<Rightarrow> string \<times> numericVersion \<Rightarrow> string \<times> numericVersion \<Rightarrow> bool" where
  "numeric_beats currentRaw x best =
     (let cmp = compareNumeric (snd x) (snd best)
      in 0 < cmp \<or> (cmp = 0 \<and> preferEqualDottedTag currentRaw (fst x) (fst best)))"

definition selectNumericTag :: "numericVersion \<Rightarrow> string list \<Rightarrow> (string \<times> numericVersion) option" where
  "selectNumericTag current tags =
     pick_best numeric_cand (numeric_beats (nv_original current)) tags None"

section \<open>The comparison is the lexicographic order of the zero-padded segments\<close>

definition seg_less :: "numericVersion \<Rightarrow> numericVersion \<Rightarrow> bool" where
  "seg_less a b \<longleftrightarrow> (\<exists>i. seg a i < seg b i \<and> (\<forall>j<i. seg a j = seg b j))"

definition seg_eq :: "numericVersion \<Rightarrow> numericVersion \<Rightarrow> bool" where
  "seg_eq a b \<longleftrightarrow> (\<forall>i. seg a i = seg b i)"

lemma compare_from_cases:
  assumes "\<forall>j<i. seg a j = seg b j"
    and "\<forall>j. n \<le> j \<longrightarrow> seg a j = seg b j"
  shows "(compare_from a b n i = -1 \<and> seg_less a b)
    \<or> (compare_from a b n i = 1 \<and> seg_less b a)
    \<or> (compare_from a b n i = 0 \<and> seg_eq a b)"
  using assms
proof (induction a b n i rule: compare_from.induct)
  case (1 a b n i)
  show ?case
  proof (cases "i < n \<and> seg a i = seg b i")
    case True
    then have "\<forall>j<Suc i. seg a j = seg b j" using 1(2) by (auto simp: less_Suc_eq)
    with 1(1) [OF _ _ _ this 1(3)] True show ?thesis
      by (simp add: compare_from.simps [of a b n i])
  next
    case False
    show ?thesis
    proof (cases "i < n")
      case True
      with False have ne: "seg a i \<noteq> seg b i" by simp
      have "seg a i < seg b i \<Longrightarrow> seg_less a b" "seg b i < seg a i \<Longrightarrow> seg_less b a"
        using 1(2) unfolding seg_less_def by metis+
      with True ne show ?thesis
        by (simp add: compare_from.simps [of a b n i])
    next
      case False
      with 1(2,3) have "seg_eq a b"
        unfolding seg_eq_def by (metis le_less_linear not_less order.trans)
      with False show ?thesis by (simp add: compare_from.simps [of a b n i])
    qed
  qed
qed

lemma seg_less_irrefl: "\<not> seg_less a a"
  by (simp add: seg_less_def)

lemma seg_less_trans:
  assumes "seg_less a b" and "seg_less b c"
  shows "seg_less a c"
proof -
  obtain i where i: "seg a i < seg b i" "\<forall>k<i. seg a k = seg b k"
    using assms(1) by (auto simp: seg_less_def)
  obtain j where j: "seg b j < seg c j" "\<forall>k<j. seg b k = seg c k"
    using assms(2) by (auto simp: seg_less_def)
  show ?thesis
    unfolding seg_less_def
  proof (intro exI conjI)
    show "seg a (min i j) < seg c (min i j)"
      using i j by (cases i j rule: linorder_cases) auto
    show "\<forall>k<min i j. seg a k = seg c k"
      using i j by auto
  qed
qed

lemma seg_less_not_eq: "seg_less a b \<Longrightarrow> \<not> seg_eq a b"
  unfolding seg_less_def seg_eq_def by (metis less_irrefl)

lemma compareNumeric_cases:
  "(compareNumeric a b = -1 \<and> seg_less a b)
   \<or> (compareNumeric a b = 1 \<and> seg_less b a)
   \<or> (compareNumeric a b = 0 \<and> seg_eq a b)"
  unfolding compareNumeric_def Let_def
  by (rule compare_from_cases) (auto simp: seg_def)

lemma seg_less_antisym: "seg_less a b \<Longrightarrow> \<not> seg_less b a"
  using seg_less_irrefl seg_less_trans by blast

lemma seg_eq_sym: "seg_eq a b \<Longrightarrow> seg_eq b a"
  by (simp add: seg_eq_def)

lemma compareNumeric_iff:
  "compareNumeric a b = -1 \<longleftrightarrow> seg_less a b"
  "compareNumeric a b = 1 \<longleftrightarrow> seg_less b a"
  "compareNumeric a b = 0 \<longleftrightarrow> seg_eq a b"
  "0 < compareNumeric a b \<longleftrightarrow> seg_less b a"
  using compareNumeric_cases [of a b] seg_less_antisym [of a b] seg_less_not_eq [of a b]
    seg_less_not_eq [of b a] seg_eq_sym [of a b] by auto

lemma seg_eq_less: "seg_eq a b \<Longrightarrow> seg_less b c \<Longrightarrow> seg_less a c"
  by (auto simp: seg_eq_def seg_less_def)

lemma seg_less_eq: "seg_less a b \<Longrightarrow> seg_eq b c \<Longrightarrow> seg_less a c"
  by (auto simp: seg_eq_def seg_less_def)

lemma seg_eq_trans: "seg_eq a b \<Longrightarrow> seg_eq b c \<Longrightarrow> seg_eq a c"
  by (simp add: seg_eq_def)

section \<open>The tie-break is a strict total order\<close>

definition dotted_rank :: "string \<Rightarrow> string \<Rightarrow> bool \<times> bool \<times> nat \<times> nat" where
  "dotted_rank current a =
     (hasVPrefix a = hasVPrefix current, dottedComponentCount a = dottedComponentCount current,
      dottedComponentCount a, length a)"

lemma preferEqualDottedTag_rank:
  "preferEqualDottedTag current a b \<longleftrightarrow>
     dotted_rank current b < dotted_rank current a
     \<or> (dotted_rank current b = dotted_rank current a \<and> a < b)"
  unfolding preferEqualDottedTag_def preferMatchingVPrefix_def dotted_rank_def Let_def
  by (auto simp: less_bool_def)

lemma preferEqualDottedTag_irrefl: "\<not> preferEqualDottedTag cur a a"
  by (simp add: preferEqualDottedTag_rank)

lemma preferEqualDottedTag_trans:
  "preferEqualDottedTag cur a b \<Longrightarrow> preferEqualDottedTag cur b c \<Longrightarrow> preferEqualDottedTag cur a c"
  unfolding preferEqualDottedTag_rank by (metis order.strict_trans)

lemma preferEqualDottedTag_total:
  "a \<noteq> b \<Longrightarrow> preferEqualDottedTag cur a b \<or> preferEqualDottedTag cur b a"
  unfolding preferEqualDottedTag_rank by (metis linorder_neqE)

interpretation numeric_pick: best_pick numeric_cand "numeric_beats cur" for cur
proof (unfold_locales, goal_cases)
  case (1 x v)
  then show ?case
    by (simp add: numeric_beats_def Let_def compareNumeric_iff seg_less_irrefl
        preferEqualDottedTag_irrefl)
next
  case (2 x u y v z w)
  then show ?case
    unfolding numeric_beats_def Let_def compareNumeric_iff fst_conv snd_conv
    using seg_less_trans seg_eq_less seg_less_eq seg_eq_trans seg_eq_sym preferEqualDottedTag_trans
    by metis
next
  case (3 x u y v)
  then show ?case
    unfolding numeric_beats_def Let_def compareNumeric_iff fst_conv snd_conv
    using compareNumeric_cases [of u v] preferEqualDottedTag_total seg_eq_sym by metis
qed

section \<open>What parses\<close>

lemma atoi_all_digits:
  assumes "\<forall>p\<in>set ps. p \<noteq> [] \<and> list_all is_digit p"
  shows "atoi_all ps =
    (if \<forall>p\<in>set ps. int64 (int (digits_val p)) then Some (map (\<lambda>p. int (digits_val p)) ps) else None)"
  using assms by (induction ps) (auto simp: atoi_digits split: option.splits)

lemma parse_segments:
  assumes "parseNumericVersion tag = Some v"
  shows "nv_segments v = map (\<lambda>p. int (digits_val p)) (split_on CHR ''.'' (strip_v (trim_space tag)))
    \<and> nv_original v = trim_space tag \<and> 2 \<le> length (nv_segments v)
    \<and> (\<forall>n\<in>set (nv_segments v). 0 \<le> n \<and> n < 2 ^ 63)"
proof -
  let ?ps = "split_on CHR ''.'' (strip_v (trim_space tag))"
  have re: "numericTagRE (trim_space tag)" and at: "atoi_all ?ps = Some (nv_segments v)"
    and o: "nv_original v = trim_space tag"
    using assms by (auto simp: parseNumericVersion_def Let_def split: if_splits option.splits)
  from re have digits: "\<forall>p\<in>set ?ps. p \<noteq> [] \<and> list_all is_digit p" and len: "2 \<le> length ?ps"
    by (auto simp: numericTagRE_def Let_def list_all_iff)
  from at atoi_all_digits [OF digits]
  have "nv_segments v = map (\<lambda>p. int (digits_val p)) ?ps" "\<forall>p\<in>set ?ps. int64 (int (digits_val p))"
    by (auto split: if_splits)
  with len o show ?thesis by (auto simp: int64_def)
qed

text \<open>Rendering a version: the inverse of the parser on what it accepts.\<close>

definition show_version :: "bool \<Rightarrow> nat list \<Rightarrow> string" where
  "show_version hasV segs = (if hasV then ''v'' else []) @ join ''.'' (map itoa_nat segs)"

lemma digit_not_special: "is_digit c \<Longrightarrow> c \<noteq> CHR ''.'' \<and> c \<noteq> CHR ''v''"
  by (auto simp: is_digit_def byte_def)

lemma itoa_nat_parts: "\<forall>p\<in>set (map itoa_nat segs). CHR ''.'' \<notin> set p"
proof -
  have "CHR ''.'' \<notin> set (itoa_nat n)" for n
    using itoa_nat_digits [of n] digit_not_special by (auto simp: list_all_iff)
  then show ?thesis by auto
qed

lemma hd_itoa: "is_digit (hd (itoa_nat n))" and last_itoa: "is_digit (last (itoa_nat n))"
  using itoa_nat_digits [of n] itoa_nat_nonempty [of n]
  by (metis list_all_iff hd_in_set, metis list_all_iff last_in_set)

lemma join_itoa_ends:
  "segs \<noteq> [] \<Longrightarrow> join ''.'' (map itoa_nat segs) \<noteq> []
     \<and> is_digit (hd (join ''.'' (map itoa_nat segs))) \<and> is_digit (last (join ''.'' (map itoa_nat segs)))"
proof (induction segs)
  case (Cons n segs)
  then show ?case
    by (cases segs) (auto simp: hd_itoa last_itoa hd_append join_Cons)
qed simp

lemma strip_v_show: "segs \<noteq> [] \<Longrightarrow> strip_v (show_version hasV segs) = join ''.'' (map itoa_nat segs)"
  using join_itoa_ends [of segs] digit_not_special by (auto simp: strip_v_def show_version_def)

lemma trim_show: "segs \<noteq> [] \<Longrightarrow> trim_space (show_version hasV segs) = show_version hasV segs"
  using join_itoa_ends [of segs] graphic_digit
  by (intro trim_space_id) (auto simp: show_version_def graphic_def)

section \<open>Properties\<close>

text \<open>
  C22. The numeric comparison is the lexicographic order of the segment lists padded with zeroes: it
  returns -1, 1 or 0 exactly when the left version is smaller, greater or equal at the first
  segment where they differ; it is antisymmetric and transitive, so it orders versions totally.
\<close>
theorem compareNumeric_total_order:
  "compareNumeric a b \<in> {-1, 0, 1}
   \<and> (compareNumeric a b = -1 \<longleftrightarrow> (\<exists>i. seg a i < seg b i \<and> (\<forall>j<i. seg a j = seg b j)))
   \<and> (compareNumeric a b = 0 \<longleftrightarrow> (\<forall>i. seg a i = seg b i))
   \<and> compareNumeric b a = - compareNumeric a b
   \<and> (compareNumeric a b \<le> 0 \<longrightarrow> compareNumeric b c \<le> 0 \<longrightarrow> compareNumeric a c \<le> 0)"
proof -
  have range: "compareNumeric x y \<in> {-1, 0, 1}" for x y
    using compareNumeric_cases [of x y] by auto
  have anti: "compareNumeric b a = - compareNumeric a b"
    using compareNumeric_cases [of a b] compareNumeric_iff [of b a] seg_eq_sym by auto
  have le: "compareNumeric x y \<le> 0 \<longleftrightarrow> seg_less x y \<or> seg_eq x y" for x y
    using range [of x y] compareNumeric_iff [of x y] by auto
  have "compareNumeric a b \<le> 0 \<longrightarrow> compareNumeric b c \<le> 0 \<longrightarrow> compareNumeric a c \<le> 0"
    unfolding le using seg_less_trans seg_eq_less seg_less_eq seg_eq_trans by blast
  with range anti show ?thesis
    unfolding compareNumeric_iff seg_less_def seg_eq_def by blast
qed

theorem compareNumeric_total_order_witness:
  "compareNumeric \<lparr>nv_segments = [1, 2, 3], nv_original = ''1.2.3''\<rparr>
     \<lparr>nv_segments = [1, 10], nv_original = ''1.10''\<rparr> \<le> 0"
  using compareNumeric_total_order [of "\<lparr>nv_segments = [1, 2, 3], nv_original = ''1.2.3''\<rparr>"
      "\<lparr>nv_segments = [1, 2, 3, 0], nv_original = ''1.2.3.0''\<rparr>"
      "\<lparr>nv_segments = [1, 10], nv_original = ''1.10''\<rparr>"]
  by (simp add: compareNumeric_def compare_from.simps seg_def)

text \<open>
  C23. The parser of numeric tags accepts exactly the rendered versions it should and reads them back:
  rendering at least two segments that fit a 64-bit integer, with or without the leading v, parses
  to these segments; a segment past the range makes the tag not numeric; and whatever parses has at
  least two segments, all of them non-negative 64-bit numbers.
\<close>
theorem parseNumericVersion_roundtrip:
  assumes "2 \<le> length segs"
  shows "parseNumericVersion (show_version hasV segs) =
      (if \<forall>n\<in>set segs. n < 2 ^ 63
       then Some \<lparr>nv_segments = map int segs, nv_original = show_version hasV segs\<rparr> else None)
    \<and> (\<forall>tag v. parseNumericVersion tag = Some v \<longrightarrow>
         2 \<le> length (nv_segments v) \<and> (\<forall>n\<in>set (nv_segments v). 0 \<le> n \<and> n < 2 ^ 63))"
proof -
  have ne: "segs \<noteq> []" using assms by auto
  have split: "split_on CHR ''.'' (strip_v (show_version hasV segs)) = map itoa_nat segs"
    using strip_v_show [OF ne] split_on_join [OF _ itoa_nat_parts] ne by simp
  have "numericTagRE (show_version hasV segs)"
    using assms by (simp add: numericTagRE_def Let_def split list_all_iff [of _ "map itoa_nat segs"])
  moreover have "atoi_all (map itoa_nat segs) =
      (if \<forall>n\<in>set segs. n < 2 ^ 63 then Some (map int segs) else None)"
    by (subst atoi_all_digits) (auto simp: int64_def)
  ultimately have "parseNumericVersion (show_version hasV segs) =
      (if \<forall>n\<in>set segs. n < 2 ^ 63
       then Some \<lparr>nv_segments = map int segs, nv_original = show_version hasV segs\<rparr> else None)"
    by (auto simp: parseNumericVersion_def trim_show [OF ne] split)
  then show ?thesis
    using parse_segments by blast
qed

theorem parseNumericVersion_roundtrip_witness:
  "parseNumericVersion ''v0.63.1.3'' =
     Some \<lparr>nv_segments = [0, 63, 1, 3], nv_original = ''v0.63.1.3''\<rparr>"
proof -
  have "show_version True [0, 63, 1, 3] = ''v0.63.1.3''"
    by (simp add: show_version_def itoa_nat.simps digit_char_def char_of_def bit_Suc_0_iff)
  then show ?thesis using parseNumericVersion_roundtrip [of "[0, 63, 1, 3]" True] by simp
qed

text \<open>
  The selected numeric tag is the newest candidate of the list: it is one of the tags, is not a
  bare integer, parses, no other candidate is newer, and among candidates of the same version the
  preferred spelling is chosen. Nothing is selected exactly when no tag is a candidate. The selection
  depends on the set of tags only, not on the order in which the registry lists them.
\<close>
theorem selectNumericTag_newest:
  "(selectNumericTag current tags = Some (t, v) \<longleftrightarrow>
     t \<in> set tags \<and> numeric_cand t = Some v \<and>
     (\<forall>t'\<in>set tags. \<forall>v'. numeric_cand t' = Some v' \<longrightarrow>
        compareNumeric v' v \<le> 0 \<and>
        (compareNumeric v' v = 0 \<longrightarrow> t' = t \<or> preferEqualDottedTag (nv_original current) t t')))
   \<and> (selectNumericTag current tags = None \<longleftrightarrow>
       (\<forall>t\<in>set tags. isBareIntegerTag t \<or> parseNumericVersion t = None))
   \<and> (set tags = set tags' \<longrightarrow> selectNumericTag current tags = selectNumericTag current tags')"
proof -
  let ?cur = "nv_original current"
  have not_beats: "\<not> numeric_beats ?cur (t', v') (t, v) \<longleftrightarrow>
      compareNumeric v' v \<le> 0 \<and>
      (compareNumeric v' v = 0 \<longrightarrow> t' = t \<or> preferEqualDottedTag ?cur t t')" for t' v'
    using preferEqualDottedTag_total [of t t' ?cur] preferEqualDottedTag_trans [of ?cur t t' t]
      preferEqualDottedTag_irrefl [of ?cur t]
    by (auto simp: numeric_beats_def Let_def)
  have "selectNumericTag current tags = Some (t, v) \<longleftrightarrow>
      numeric_pick.is_best ?cur (set tags) (t, v)"
    unfolding selectNumericTag_def by (rule numeric_pick.pick_best_Some)
  moreover have "selectNumericTag current tags = None \<longleftrightarrow>
      (\<forall>t\<in>set tags. isBareIntegerTag t \<or> parseNumericVersion t = None)"
    unfolding selectNumericTag_def numeric_pick.pick_best_None by (auto simp: numeric_cand_def)
  moreover have "set tags = set tags' \<longrightarrow>
      selectNumericTag current tags = selectNumericTag current tags'"
    unfolding selectNumericTag_def by (blast intro: numeric_pick.pick_best_set_cong)
  ultimately show ?thesis
    unfolding numeric_pick.is_best_def fst_conv snd_conv not_beats by blast
qed

theorem selectNumericTag_newest_witness:
  "selectNumericTag \<lparr>nv_segments = [1, 2], nv_original = ''1.2''\<rparr> [''9'', ''1.3''] =
   selectNumericTag \<lparr>nv_segments = [1, 2], nv_original = ''1.2''\<rparr> [''1.3'', ''9'', ''1.3'']"
  using selectNumericTag_newest [of "\<lparr>nv_segments = [1, 2], nv_original = ''1.2''\<rparr>"
      "[''9'', ''1.3'']" _ _ "[''1.3'', ''9'', ''1.3'']"] by auto

end
