(* ===== verification/Semver.thy ===== *)
theory Semver
  imports Numeric Diagnostics
begin

text \<open>
  Selection among semantic versions (\<open>internal/core/semvercheck.go\<close>) and the diagnostics about
  bare integer tags (\<open>bare_integer.go\<close>). The semver library \<open>Masterminds/semver/v3\<close> is not under
  \<open>src/\<close>: it is the record \<open>'v semver\<close>, a parameter, and what the code relies on is \<open>semver_laws\<close>.
  A \<open>*semver.Version\<close> that may be nil is an option. \<open>Major()\<close> and \<open>Minor()\<close> are \<open>uint64\<close>.
\<close>

section \<open>The library\<close>

record 'v semver =
  sv_NewVersion :: "string \<Rightarrow> go_error + 'v"
  sv_Original :: "'v \<Rightarrow> string"
  sv_Prerelease :: "'v \<Rightarrow> string"
  sv_Major :: "'v \<Rightarrow> 64 word"
  sv_Minor :: "'v \<Rightarrow> 64 word"
  sv_GreaterThan :: "'v \<Rightarrow> 'v \<Rightarrow> bool"
  sv_Equal :: "'v \<Rightarrow> 'v \<Rightarrow> bool"

text \<open>
  The documented behaviour: \<open>GreaterThan\<close> and \<open>Equal\<close> are the comparison of a total preorder.
\<close>

definition semver_laws :: "'v semver \<Rightarrow> bool" where
  "semver_laws sv \<longleftrightarrow>
     (\<forall>a. \<not> sv_GreaterThan sv a a)
   \<and> (\<forall>a b c. sv_GreaterThan sv a b \<longrightarrow> sv_GreaterThan sv b c \<longrightarrow> sv_GreaterThan sv a c)
   \<and> (\<forall>a b. sv_Equal sv a b \<longleftrightarrow> \<not> sv_GreaterThan sv a b \<and> \<not> sv_GreaterThan sv b a)
   \<and> (\<forall>a b c. sv_Equal sv a b \<longrightarrow> sv_Equal sv b c \<longrightarrow> sv_Equal sv a c)"

definition parses :: "'v semver \<Rightarrow> string \<Rightarrow> 'v option" where
  "parses sv raw = (case sv_NewVersion sv raw of Inl _ \<Rightarrow> None | Inr v \<Rightarrow> Some v)"

section \<open>The form of a tag\<close>

record tagForm =
  tf_hasV :: bool
  tf_components :: nat
  tf_suffix :: string

definition parseTagForm :: "'v semver \<Rightarrow> string \<Rightarrow> tagForm" where
  "parseTagForm sv raw =
     (case sv_NewVersion sv raw of
        Inl _ \<Rightarrow> \<lparr>tf_hasV = False, tf_components = 0, tf_suffix = []\<rparr>
      | Inr v \<Rightarrow>
          (let s = trim_space raw;
               hasV = hasVPrefix s;
               s = (if hasV then tl s else s);
               core = takeWhile (\<lambda>c. c \<noteq> CHR ''-'' \<and> c \<noteq> CHR ''+'') s
           in \<lparr>tf_hasV = hasV,
               tf_components = length (filter (\<lambda>p. p \<noteq> []) (split_on CHR ''.'' core)),
               tf_suffix = sv_Prerelease sv v\<rparr>))"

definition preferEqualSemverTag :: "'v semver \<Rightarrow> string \<Rightarrow> string \<Rightarrow> string \<Rightarrow> bool" where
  "preferEqualSemverTag sv current a b =
     (case preferMatchingVPrefix current a b of (decisive, preferA) \<Rightarrow>
      if decisive then preferA
      else
        let cur = parseTagForm sv current;
            fa = parseTagForm sv a;
            fb = parseTagForm sv b
        in if (tf_components fa = tf_components cur) \<noteq> (tf_components fb = tf_components cur)
           then tf_components fa = tf_components cur
           else if (tf_suffix fa = tf_suffix cur) \<noteq> (tf_suffix fb = tf_suffix cur)
           then tf_suffix fa = tf_suffix cur
           else if tf_components fa \<noteq> tf_components fb then tf_components fb < tf_components fa
           else if length a \<noteq> length b then length b < length a
           else a < b)"

section \<open>Selection\<close>

definition semver_cand :: "'v semver \<Rightarrow> bool \<Rightarrow> string \<Rightarrow> 'v option" where
  "semver_cand sv skipPrerelease raw =
     (if isBareIntegerTag raw then None
      else case sv_NewVersion sv raw of
        Inl _ \<Rightarrow> None
      | Inr v \<Rightarrow> if skipPrerelease \<and> sv_Prerelease sv v \<noteq> [] then None else Some v)"

definition semver_beats :: "'v semver \<Rightarrow> string \<Rightarrow> string \<times> 'v \<Rightarrow> string \<times> 'v \<Rightarrow> bool" where
  "semver_beats sv currentRaw x best \<longleftrightarrow>
     sv_GreaterThan sv (snd x) (snd best)
     \<or> (sv_Equal sv (snd x) (snd best) \<and> preferEqualSemverTag sv currentRaw (fst x) (fst best))"

definition selectSemverTag :: "'v semver \<Rightarrow> 'v \<Rightarrow> string list \<Rightarrow> bool \<Rightarrow> (string \<times> 'v) option" where
  "selectSemverTag sv current tags skipPrerelease =
     pick_best (semver_cand sv skipPrerelease) (semver_beats sv (sv_Original sv current)) tags None"

definition DefaultTagSelector_Select :: "'v semver \<Rightarrow> 'v \<Rightarrow> string list \<Rightarrow> (string \<times> 'v) option" where
  "DefaultTagSelector_Select sv current tags = selectSemverTag sv current tags True"

definition RuleTagSelector_Select :: "'v semver \<Rightarrow> 'v \<Rightarrow> string list \<Rightarrow> (string \<times> 'v) option" where
  "RuleTagSelector_Select sv current tags = selectSemverTag sv current tags False"

definition semverBump :: "'v semver \<Rightarrow> 'v \<Rightarrow> 'v \<Rightarrow> string" where
  "semverBump sv current latest =
     (if sv_Major sv latest \<noteq> sv_Major sv current then BumpMajor
      else if sv_Minor sv latest \<noteq> sv_Minor sv current then BumpMinor
      else BumpPatch)"

section \<open>Bare integer tags\<close>

definition bareIntegerTagListLimit :: nat where "bareIntegerTagListLimit = 10"

fun collect_bare_from :: "string list \<Rightarrow> string list \<Rightarrow> string list" where
  "collect_bare_from seen [] = []"
| "collect_bare_from seen (tag # tags) =
     (let raw = trim_space tag in
      if \<not> isBareIntegerTag raw \<or> raw \<in> set seen then collect_bare_from seen tags
      else raw # collect_bare_from (raw # seen) tags)"

definition collectBareIntegerTags :: "string list \<Rightarrow> string list" where
  "collectBareIntegerTags tags = collect_bare_from [] tags"

definition newer_than :: "'v semver \<Rightarrow> 'v \<Rightarrow> string \<Rightarrow> bool" where
  "newer_than sv ref raw =
     (case sv_NewVersion sv raw of Inl _ \<Rightarrow> False | Inr v \<Rightarrow> sv_GreaterThan sv v ref)"

definition collectBareIntegerTagsNewerThan :: "'v semver \<Rightarrow> string list \<Rightarrow> 'v option \<Rightarrow> string list" where
  "collectBareIntegerTagsNewerThan sv tags current =
     (case current of
        None \<Rightarrow> []
      | Some cur \<Rightarrow> filter (newer_than sv cur) (collectBareIntegerTags tags))"

definition bareIntegersAffectingSelection :: "'v semver \<Rightarrow> string list \<Rightarrow> 'v option \<Rightarrow> string list" where
  "bareIntegersAffectingSelection sv claiming selected =
     (case selected of None \<Rightarrow> claiming | Some sel \<Rightarrow> filter (newer_than sv sel) claiming)"

definition formatBareIntegerTagList :: "string list \<Rightarrow> int \<Rightarrow> string" where
  "formatBareIntegerTagList tags limit0 =
     (let limit = (if limit0 \<le> 0 then int bareIntegerTagListLimit else limit0);
          n = length tags
      in if n = 0 then []
      else if int n \<le> limit then join '','' tags
      else join '','' (take (nat limit) tags) @ '','' @ ellipsis @ '' ('' @ itoa_nat n @ '' total)'')"

definition adjacentBareMajor :: "'v semver \<Rightarrow> string list \<Rightarrow> 'v option \<Rightarrow> bool" where
  "adjacentBareMajor sv bares current =
     (case current of
        None \<Rightarrow> False
      | Some cur \<Rightarrow>
          list_ex (\<lambda>raw. case sv_NewVersion sv raw of
              Inl _ \<Rightarrow> False
            | Inr v \<Rightarrow> sv_Major sv v = sv_Major sv cur + 1) bares)"

definition bare_gap_key :: "string \<Rightarrow> string" where
  "bare_gap_key repo = ''bare-integer-gap:'' @ repo"

definition bare_gap_text :: string where
  "bare_gap_text = ''skipped bare integer tags with no newer non-bare candidate''"

definition bare_omitted_text :: string where
  "bare_omitted_text = ''omitted ambiguous newer bare-integer tag(s)''"

definition bare_attrs :: "string \<Rightarrow> string \<Rightarrow> string list \<Rightarrow> (string \<times> attr) list" where
  "bare_attrs cname repo tags =
     [(''count'', AttrNum (int (length tags))), (''container'', AttrStr cname),
      (''image'', AttrStr repo),
      (''tags'', AttrStr (formatBareIntegerTagList tags (int bareIntegerTagListLimit)))]"

definition logSkippedBareSemverCandidates :: "'v semver \<Rightarrow> string \<Rightarrow> string \<Rightarrow> 'v option \<Rightarrow> 'v option
    \<Rightarrow> string list \<Rightarrow> diag \<Rightarrow> diag" where
  "logSkippedBareSemverCandidates sv cname repo current selected tags d =
     (case current of
        None \<Rightarrow> d
      | Some cur \<Rightarrow>
        let claiming = collectBareIntegerTagsNewerThan sv tags (Some cur) in
        if claiming = [] then d
        else
          let hasNewerNonBare = (case selected of None \<Rightarrow> False | Some s \<Rightarrow> sv_GreaterThan sv s cur);
              selectedStr = (case selected of None \<Rightarrow> [] | Some s \<Rightarrow> sv_Original sv s)
          in if \<not> hasNewerNonBare \<and> adjacentBareMajor sv claiming (Some cur) then
               warnOnce (bare_gap_key repo) bare_gap_text
                 (bare_attrs cname repo claiming
                  @ [(''current'', AttrStr (sv_Original sv cur)), (''selected'', AttrStr selectedStr)]) d
             else
               let affecting = bareIntegersAffectingSelection sv claiming selected in
               if affecting = [] \<or> selected = None \<or> \<not> d_debug d then d
               else log_to LevelDebug bare_omitted_text
                 (bare_attrs cname repo affecting @ [(''selected'', AttrStr selectedStr)]) d)"

text \<open>The zero value of a numeric version stands for \<open>no selection\<close>; its original is empty.\<close>

definition no_numeric :: numericVersion where
  "no_numeric = \<lparr>nv_segments = [], nv_original = []\<rparr>"

definition logSkippedBareNumericCandidates :: "'v semver \<Rightarrow> string \<Rightarrow> string \<Rightarrow> numericVersion
    \<Rightarrow> numericVersion \<Rightarrow> string list \<Rightarrow> diag \<Rightarrow> diag" where
  "logSkippedBareNumericCandidates sv cname repo current selected tags d =
     (case sv_NewVersion sv (nv_original current) of
        Inl _ \<Rightarrow> d
      | Inr curVer \<Rightarrow>
        let claiming = collectBareIntegerTagsNewerThan sv tags (Some curVer) in
        if claiming = [] then d
        else
          let selVer = (if nv_original selected \<noteq> [] then parses sv (nv_original selected) else None);
              hasNewerNonBare = (case selVer of None \<Rightarrow> False | Some s \<Rightarrow> sv_GreaterThan sv s curVer);
              selectedStr = nv_original selected
          in if \<not> hasNewerNonBare \<and> adjacentBareMajor sv claiming (Some curVer) then
               warnOnce (bare_gap_key repo) bare_gap_text
                 (bare_attrs cname repo claiming
                  @ [(''current'', AttrStr (nv_original current)), (''selected'', AttrStr selectedStr)]) d
             else
               let affecting = bareIntegersAffectingSelection sv claiming selVer in
               if affecting = [] \<or> nv_original selected = [] \<or> \<not> d_debug d then d
               else log_to LevelDebug bare_omitted_text
                 (bare_attrs cname repo affecting @ [(''selected'', AttrStr selectedStr)]) d)"

section \<open>The tie-break\<close>

definition semver_rank :: "'v semver \<Rightarrow> string \<Rightarrow> string \<Rightarrow> bool \<times> bool \<times> bool \<times> nat \<times> nat" where
  "semver_rank sv current a =
     (hasVPrefix a = hasVPrefix current,
      tf_components (parseTagForm sv a) = tf_components (parseTagForm sv current),
      tf_suffix (parseTagForm sv a) = tf_suffix (parseTagForm sv current),
      tf_components (parseTagForm sv a), length a)"

lemma preferEqualSemverTag_rank:
  "preferEqualSemverTag sv current a b \<longleftrightarrow>
     semver_rank sv current b < semver_rank sv current a
     \<or> (semver_rank sv current b = semver_rank sv current a \<and> a < b)"
  unfolding preferEqualSemverTag_def preferMatchingVPrefix_def semver_rank_def Let_def
  by (auto simp: less_bool_def)

lemma preferEqualSemverTag_irrefl: "\<not> preferEqualSemverTag sv cur a a"
  by (simp add: preferEqualSemverTag_rank)

lemma preferEqualSemverTag_trans:
  "preferEqualSemverTag sv cur a b \<Longrightarrow> preferEqualSemverTag sv cur b c \<Longrightarrow> preferEqualSemverTag sv cur a c"
  unfolding preferEqualSemverTag_rank by (metis order.strict_trans)

lemma preferEqualSemverTag_total:
  "a \<noteq> b \<Longrightarrow> preferEqualSemverTag sv cur a b \<or> preferEqualSemverTag sv cur b a"
  unfolding preferEqualSemverTag_rank by (metis linorder_neqE)

lemma preferEqualSemverTag_not:
  "\<not> preferEqualSemverTag sv cur a b \<longleftrightarrow> a = b \<or> preferEqualSemverTag sv cur b a"
  using preferEqualSemverTag_total [of a b sv cur] preferEqualSemverTag_trans [of sv cur a b a]
    preferEqualSemverTag_irrefl [of sv cur a] by blast

section \<open>What the laws give\<close>

lemma semver_lawsD:
  assumes "semver_laws sv"
  shows "\<not> sv_GreaterThan sv a a"
    and "sv_GreaterThan sv a b \<Longrightarrow> sv_GreaterThan sv b c \<Longrightarrow> sv_GreaterThan sv a c"
    and "sv_Equal sv a b \<longleftrightarrow> \<not> sv_GreaterThan sv a b \<and> \<not> sv_GreaterThan sv b a"
    and "sv_Equal sv a b \<Longrightarrow> sv_Equal sv b c \<Longrightarrow> sv_Equal sv a c"
  using assms unfolding semver_laws_def by blast+

lemma semver_gt_eq:
  assumes "semver_laws sv"
  shows "sv_GreaterThan sv a b \<Longrightarrow> sv_Equal sv b c \<Longrightarrow> sv_GreaterThan sv a c"
    and "sv_Equal sv a b \<Longrightarrow> sv_GreaterThan sv b c \<Longrightarrow> sv_GreaterThan sv a c"
  using semver_lawsD [OF assms] by metis+

lemma semver_eq_sym: "semver_laws sv \<Longrightarrow> sv_Equal sv a b \<Longrightarrow> sv_Equal sv b a"
  using semver_lawsD(3) by metis

lemma semver_best_pick:
  assumes laws: "semver_laws sv"
  shows "best_pick (semver_cand sv skip) (semver_beats sv cur)"
proof (unfold_locales, goal_cases)
  case (1 x v)
  then show ?case
    using semver_lawsD(1) [OF laws] by (simp add: semver_beats_def preferEqualSemverTag_irrefl)
next
  case (2 x u y v z w)
  then show ?case
    unfolding semver_beats_def fst_conv snd_conv
    using semver_lawsD(2,4) [OF laws, of u v w] semver_gt_eq [OF laws, of u v w]
      preferEqualSemverTag_trans [of sv cur x y z] by blast
next
  case (3 x u y v)
  then show ?case
    unfolding semver_beats_def fst_conv snd_conv
    using semver_lawsD(3) [OF laws, of u v] semver_eq_sym [OF laws, of u v]
      preferEqualSemverTag_total [of x y sv cur] by blast
qed

text \<open>A concrete library that keeps the laws: the numeric versions of \<open>Numeric\<close>.\<close>

definition numeric_semver :: "numericVersion semver" where
  "numeric_semver =
     \<lparr>sv_NewVersion = (\<lambda>s. case parseNumericVersion s of
          None \<Rightarrow> Inl (ErrText [Lit ''invalid semantic version'']) | Some v \<Rightarrow> Inr v),
      sv_Original = nv_original, sv_Prerelease = (\<lambda>_. []),
      sv_Major = (\<lambda>v. word_of_int (seg v 0)), sv_Minor = (\<lambda>v. word_of_int (seg v 1)),
      sv_GreaterThan = (\<lambda>a b. 0 < compareNumeric a b),
      sv_Equal = (\<lambda>a b. compareNumeric a b = 0)\<rparr>"

lemma numeric_semver_laws: "semver_laws numeric_semver"
proof -
  have "seg_eq a b \<longleftrightarrow> \<not> seg_less b a \<and> \<not> seg_less a b" for a b
    using compareNumeric_cases [of a b] seg_less_not_eq [of a b] seg_less_not_eq [of b a]
      seg_eq_sym [of a b] by blast
  then show ?thesis
    unfolding semver_laws_def numeric_semver_def semver.simps compareNumeric_iff
    using seg_less_irrefl seg_less_trans seg_eq_trans by (intro conjI allI impI) metis+
qed

section \<open>Bare integers\<close>

lemma collect_bare_from_spec:
  "set (collect_bare_from seen tags) = {r \<in> trim_space ` set tags. isBareIntegerTag r} - set seen
   \<and> distinct (collect_bare_from seen tags)"
  by (induction seen tags rule: collect_bare_from.induct) (auto simp: Let_def)

lemma collectBareIntegerTags_spec:
  "set (collectBareIntegerTags tags) = {r \<in> trim_space ` set tags. isBareIntegerTag r}"
  "distinct (collectBareIntegerTags tags)"
  using collect_bare_from_spec [of "[]" tags] by (auto simp: collectBareIntegerTags_def)

lemma diag_step_bare_semver: "diag_step d (logSkippedBareSemverCandidates sv cname repo cur sel tags d)"
  by (auto simp: logSkippedBareSemverCandidates_def Let_def split: option.splits)

lemma diag_step_bare_numeric: "diag_step d (logSkippedBareNumericCandidates sv cname repo cur sel tags d)"
  by (auto simp: logSkippedBareNumericCandidates_def Let_def split: option.splits sum.splits)

lemma adjacent_claiming:
  "adjacentBareMajor sv (collectBareIntegerTagsNewerThan sv tags (Some cur)) (Some cur) \<longleftrightarrow>
     (\<exists>raw\<in>trim_space ` set tags. \<exists>v. isBareIntegerTag raw \<and> sv_NewVersion sv raw = Inr v
        \<and> sv_GreaterThan sv v cur \<and> sv_Major sv v = sv_Major sv cur + 1)"
proof -
  have "newer_than sv cur raw \<and> (case sv_NewVersion sv raw of Inl _ \<Rightarrow> False
        | Inr v \<Rightarrow> sv_Major sv v = sv_Major sv cur + 1) \<longleftrightarrow>
      (\<exists>v. sv_NewVersion sv raw = Inr v \<and> sv_GreaterThan sv v cur
        \<and> sv_Major sv v = sv_Major sv cur + 1)" for raw
    by (cases "sv_NewVersion sv raw") (simp_all add: newer_than_def)
  then show ?thesis
    unfolding adjacentBareMajor_def collectBareIntegerTagsNewerThan_def list_ex_iff option.case
      set_filter collectBareIntegerTags_spec by blast
qed

lemma bare_gap_key_new:
  assumes "bare_gap_key repo \<in> set (d_keys (logSkippedBareSemverCandidates sv cname repo (Some cur) sel tags d))"
    and "bare_gap_key repo \<notin> set (d_keys d)"
  shows "adjacentBareMajor sv (collectBareIntegerTagsNewerThan sv tags (Some cur)) (Some cur)
    \<and> (\<forall>s. sel = Some s \<longrightarrow> \<not> sv_GreaterThan sv s cur)"
  using assms unfolding logSkippedBareSemverCandidates_def Let_def option.case
  by (cases sel) (auto split: if_splits)

lemma bare_gap_no_repeat:
  "bare_gap_key repo \<in> set (d_keys d) \<Longrightarrow>
     filter is_warn (d_log (logSkippedBareSemverCandidates sv cname repo (Some cur) sel tags d))
       = filter is_warn (d_log d)"
  by (simp add: logSkippedBareSemverCandidates_def Let_def warnOnce_def log_to_def is_warn_def)

section \<open>Properties\<close>

text \<open>
  The selected semver tag is the newest candidate of the registry's list: it is one of the tags,
  is not a bare integer, parses, has no prerelease when these are skipped, no candidate is greater,
  and every equal candidate loses the tie-break on its spelling. Nothing is selected exactly when
  there is no candidate, and the choice does not depend on the order in which tags are listed.
\<close>
theorem selectSemverTag_newest:
  assumes "semver_laws sv"
  shows "(selectSemverTag sv current tags skip = Some (t, v) \<longleftrightarrow>
     t \<in> set tags \<and> semver_cand sv skip t = Some v \<and>
     (\<forall>t'\<in>set tags. \<forall>v'. semver_cand sv skip t' = Some v' \<longrightarrow>
        \<not> sv_GreaterThan sv v' v \<and>
        (sv_Equal sv v' v \<longrightarrow> t' = t \<or> preferEqualSemverTag sv (sv_Original sv current) t t')))
   \<and> (selectSemverTag sv current tags skip = None \<longleftrightarrow> (\<forall>t\<in>set tags. semver_cand sv skip t = None))
   \<and> (set tags = set tags' \<longrightarrow>
        selectSemverTag sv current tags skip = selectSemverTag sv current tags' skip)"
proof -
  note bp = semver_best_pick [OF assms, of skip "sv_Original sv current"]
  have not_beats: "\<not> semver_beats sv (sv_Original sv current) (t', v') (t, v) \<longleftrightarrow>
      \<not> sv_GreaterThan sv v' v \<and>
      (sv_Equal sv v' v \<longrightarrow> t' = t \<or> preferEqualSemverTag sv (sv_Original sv current) t t')" for t' v'
    unfolding semver_beats_def fst_conv snd_conv
    using preferEqualSemverTag_not [of sv "sv_Original sv current" t' t] by blast
  show ?thesis
    unfolding selectSemverTag_def best_pick.pick_best_Some [OF bp] best_pick.pick_best_None [OF bp]
      best_pick.is_best_def [OF bp] fst_conv snd_conv not_beats
    using best_pick.pick_best_set_cong [OF bp] by blast
qed

theorem selectSemverTag_newest_witness:
  "selectSemverTag numeric_semver \<lparr>nv_segments = [1, 2], nv_original = ''1.2''\<rparr> [''9'', ''1.3''] True =
   selectSemverTag numeric_semver \<lparr>nv_segments = [1, 2], nv_original = ''1.2''\<rparr> [''1.3'', ''9'', ''1.3''] True"
  using selectSemverTag_newest [OF numeric_semver_laws, of "\<lparr>nv_segments = [1, 2], nv_original = ''1.2''\<rparr>"
      "[''9'', ''1.3'']" True _ _ "[''1.3'', ''9'', ''1.3'']"] by auto

text \<open>
  The warning about a gap of bare integers is true when it is logged: if it was logged then some
  tag of the registry is a bare integer that is newer than the current tag and whose major is exactly
  one above, while nothing newer was selected; and once logged for a repository it is never repeated.
\<close>
lemma bare_gap_warning_sound:
  "(bare_gap_key repo \<in> set (d_keys (logSkippedBareSemverCandidates sv cname repo (Some cur) sel tags d))
     \<longrightarrow> bare_gap_key repo \<in> set (d_keys d) \<or>
       ((\<exists>raw\<in>trim_space ` set tags. \<exists>v. isBareIntegerTag raw \<and> sv_NewVersion sv raw = Inr v
          \<and> sv_GreaterThan sv v cur \<and> sv_Major sv v = sv_Major sv cur + 1)
        \<and> (\<forall>s. sel = Some s \<longrightarrow> \<not> sv_GreaterThan sv s cur)))
   \<and> (bare_gap_key repo \<in> set (d_keys d) \<longrightarrow>
        filter is_warn (d_log (logSkippedBareSemverCandidates sv cname repo (Some cur) sel tags d))
          = filter is_warn (d_log d))"
  using bare_gap_key_new [of repo sv cname cur sel tags d]
    bare_gap_no_repeat [of repo d sv cname cur sel tags]
  unfolding adjacent_claiming by blast

lemma bare_gap_warning_sound_witness:
  "bare_gap_key ''r'' \<notin> set (d_keys (logSkippedBareSemverCandidates numeric_semver ''c'' ''r''
      (Some \<lparr>nv_segments = [1, 2], nv_original = ''1.2''\<rparr>) None [''1.3'']
      \<lparr>d_keys = [], d_log = [], d_debug = False\<rparr>))"
proof -
  have "trim_space ''1.3'' = ''1.3''"
    by (rule trim_space_id) (simp_all add: graphic_def)
  then show ?thesis
    using bare_gap_warning_sound [of "''r''" numeric_semver "''c''"
        "\<lparr>nv_segments = [1, 2], nv_original = ''1.2''\<rparr>" None "[''1.3'']"
        "\<lparr>d_keys = [], d_log = [], d_debug = False\<rparr>"]
    by (simp add: isBareIntegerTag_def bareIntegerTagRE_def strip_v_def is_digit_def byte_def)
qed

end
