(* ===== verification/Tracking.thy ===== *)
theory Tracking
  imports Rules Semver
begin

text \<open>
  How a container is tracked (\<open>internal/core/tracking_mode.go\<close>): by semantic version, by dotted
  number or by digest, and the one-time warnings about digest tracking that is easy to miss.
\<close>

definition ModeSemver :: string where "ModeSemver = ''semver''"
definition ModeNumeric :: string where "ModeNumeric = ''numeric''"
definition ModeDigest :: string where "ModeDigest = ''digest''"
definition digestCauseRule :: string where "digestCauseRule = ''rule''"
definition digestCauseAuto :: string where "digestCauseAuto = ''auto''"
definition LinksModeDigestRule :: string where "LinksModeDigestRule = ''digest(rule)''"
definition LinksModeDigestAuto :: string where "LinksModeDigestAuto = ''digest(auto)''"

lemmas mode_defs = ModeSemver_def ModeNumeric_def ModeDigest_def digestCauseRule_def digestCauseAuto_def

lemma modes_distinct [simp]:
  "ModeSemver \<noteq> ModeNumeric" "ModeNumeric \<noteq> ModeSemver" "ModeSemver \<noteq> ModeDigest"
  "ModeDigest \<noteq> ModeSemver" "ModeNumeric \<noteq> ModeDigest" "ModeDigest \<noteq> ModeNumeric"
  "digestCauseRule \<noteq> digestCauseAuto" "digestCauseAuto \<noteq> digestCauseRule"
  "digestCauseRule \<noteq> []" "digestCauseAuto \<noteq> []" "[] \<noteq> digestCauseRule" "[] \<noteq> digestCauseAuto"
  by (simp_all add: mode_defs)

text \<open>The resolver may be nil; the result is the mode, the rule and the cause of a digest mode.\<close>

definition resolveTrackingMode :: "'v semver \<Rightarrow> resolver option \<Rightarrow> string \<Rightarrow> string \<Rightarrow> string \<Rightarrow> string
    \<Rightarrow> labels \<Rightarrow> string \<times> rule option \<times> string" where
  "resolveTrackingMode sv rules host repo tag cname lbls =
     (let rule = (case rules of
          None \<Rightarrow> None
        | Some r \<Rightarrow> r \<lparr>q_host = host, q_image = repo, q_container = cname, q_labels = lbls\<rparr>)
      in if (case rule of None \<Rightarrow> False | Some r \<Rightarrow> r_track r = RuleTrackDigest)
         then (ModeDigest, rule, digestCauseRule)
      else case sv_NewVersion sv tag of
        Inr _ \<Rightarrow> (ModeSemver, rule, [])
      | Inl _ \<Rightarrow>
          (case parseNumericVersion tag of
             Some _ \<Rightarrow> (ModeNumeric, rule, [])
           | None \<Rightarrow> (ModeDigest, rule, digestCauseAuto)))"

text \<open>The lines of the resolver that is asked here; \<open>rule_lines\<close> is what it logs for a query.\<close>

definition tracking_lines :: "(rule_query \<Rightarrow> log_line list) \<Rightarrow> string \<Rightarrow> string \<Rightarrow> string \<Rightarrow> labels \<Rightarrow> log_line list" where
  "tracking_lines rule_lines host repo cname lbls =
     rule_lines \<lparr>q_host = host, q_image = repo, q_container = cname, q_labels = lbls\<rparr>"

definition linksDisplayMode :: "string \<Rightarrow> string \<Rightarrow> string" where
  "linksDisplayMode mode digestCause =
     (if mode = ModeSemver then ModeSemver
      else if mode = ModeNumeric then ModeNumeric
      else if mode = ModeDigest then
        (if digestCause = digestCauseRule then LinksModeDigestRule else LinksModeDigestAuto)
      else mode)"

definition digest_auto_key :: "string \<Rightarrow> string \<Rightarrow> string \<Rightarrow> string" where
  "digest_auto_key cname repo tag = ''digest-auto:'' @ cname @ ''|'' @ repo @ ''|'' @ tag"

definition include_ignored_key :: "string \<Rightarrow> string \<Rightarrow> string" where
  "include_ignored_key cname repo = ''include-ignored-digest:'' @ cname @ ''|'' @ repo"

definition digest_auto_text :: string where
  "digest_auto_text =
     ''tag is not semver; tracking by digest '' @ [CHR 0xE2, CHR 0x80, CHR 0x94]
       @ '' newer version tags will not be detected''"

definition include_ignored_text :: string where
  "include_ignored_text =
     ''include rule ignored: container tracked by digest (include applies only in semver mode)''"

definition latest_tag :: string where "latest_tag = ''latest''"

definition logTrackingDiagnostics :: "string \<Rightarrow> string \<Rightarrow> string \<Rightarrow> string \<Rightarrow> string \<Rightarrow> rule option
    \<Rightarrow> diag \<Rightarrow> diag" where
  "logTrackingDiagnostics cname repo tag mode digestCause rule d =
     (if mode \<noteq> ModeDigest then d
      else
        let d = (if digestCause = digestCauseAuto \<and> tag \<noteq> latest_tag then
                   warnOnce (digest_auto_key cname repo tag) digest_auto_text
                     [(''container'', AttrStr cname), (''image'', AttrStr repo), (''tag'', AttrStr tag)] d
                 else d)
        in if (case rule of None \<Rightarrow> False | Some r \<Rightarrow> r_include r \<noteq> None) then
             warnOnce (include_ignored_key cname repo) include_ignored_text
               [(''container'', AttrStr cname), (''image'', AttrStr repo), (''tag'', AttrStr tag),
                (''digest'', AttrStr digestCause)] d
           else d)"

lemma diag_step_tracking: "diag_step d (logTrackingDiagnostics cname repo tag mode cause rule d)"
  unfolding logTrackingDiagnostics_def Let_def
  by (auto intro: diag_step_trans [OF diag_step_warnOnce diag_step_warnOnce])

lemma resolveTrackingMode_cases:
  assumes "resolveTrackingMode sv rules host repo tag cname lbls = (mode, rule, cause)"
  shows "(mode = ModeDigest \<and> cause = digestCauseRule \<and> (\<exists>r. rule = Some r \<and> r_track r = RuleTrackDigest))
    \<or> (mode = ModeSemver \<and> cause = [] \<and> (\<exists>v. sv_NewVersion sv tag = Inr v))
    \<or> (mode = ModeNumeric \<and> cause = [] \<and> (\<exists>e v. sv_NewVersion sv tag = Inl e \<and> parseNumericVersion tag = Some v))
    \<or> (mode = ModeDigest \<and> cause = digestCauseAuto
        \<and> (\<exists>e. sv_NewVersion sv tag = Inl e) \<and> parseNumericVersion tag = None)"
  using assms unfolding resolveTrackingMode_def Let_def
  by (auto split: if_splits sum.splits option.splits)

section \<open>Properties\<close>

text \<open>
  A container is tracked by digest exactly when its rule says so or its tag is neither a semantic
  nor a dotted numeric version, and the cause tells which; a rule that asks for digest always wins
  over the shape of the tag; the mode is always one of the three, and the MODE column of the links
  command tells all four cases apart.
\<close>
theorem tracking_mode_correct:
  "case resolveTrackingMode sv rules host repo tag cname lbls of (mode, rule, cause) \<Rightarrow>
     rule = Option.bind rules (\<lambda>r. r \<lparr>q_host = host, q_image = repo, q_container = cname, q_labels = lbls\<rparr>)
   \<and> (cause = digestCauseRule \<longleftrightarrow> (\<exists>r. rule = Some r \<and> r_track r = RuleTrackDigest))
   \<and> (mode = ModeSemver \<longleftrightarrow> cause \<noteq> digestCauseRule \<and> parses sv tag \<noteq> None)
   \<and> (mode = ModeNumeric \<longleftrightarrow>
        cause \<noteq> digestCauseRule \<and> parses sv tag = None \<and> parseNumericVersion tag \<noteq> None)
   \<and> (mode = ModeDigest \<longleftrightarrow> cause \<noteq> [])
   \<and> mode \<in> {ModeSemver, ModeNumeric, ModeDigest}
   \<and> linksDisplayMode mode cause =
       (if mode \<noteq> ModeDigest then mode
        else if cause = digestCauseRule then LinksModeDigestRule else LinksModeDigestAuto)"
  unfolding resolveTrackingMode_def Let_def linksDisplayMode_def parses_def
  by (cases rules) (auto split: option.splits sum.splits)

end
