(* ===== verification/World.thy ===== *)
theory World
  imports Diagnostics
begin

text \<open>
  Time, timers and contexts. The outside world is a state \<open>'w\<close> that every blocking call may change;
  a context is the deadline it carries (\<open>None\<close>: only cancelable). The record \<open>env\<close> holds what the
  Go runtime offers: the clock, \<open>ctx.Err()\<close>, a timer that races with the context, and the default
  logger of \<open>log/slog\<close>, which appends a line to the program's output. \<open>env_laws\<close> is what the
  documentation of the clock, the context and the timer promises, \<open>observes\<close> what it means to read the log.
\<close>

type_synonym ctx = "int option"

record 'w env =
  e_now :: "'w \<Rightarrow> int"
  e_err :: "ctx \<Rightarrow> 'w \<Rightarrow> go_error option"
  e_timer :: "ctx \<Rightarrow> duration \<Rightarrow> 'w \<Rightarrow> go_error option \<times> 'w"
  e_log :: "log_line \<Rightarrow> 'w \<Rightarrow> 'w"

definition with_timeout :: "'w env \<Rightarrow> ctx \<Rightarrow> duration \<Rightarrow> 'w \<Rightarrow> ctx" where
  "with_timeout e c d w =
     Some (case c of None \<Rightarrow> e_now e w + d | Some t \<Rightarrow> min t (e_now e w + d))"

text \<open>
  Time does not run backwards; a timer of at least a second that fires was started before the deadline
  of its context and took its time; a context ends with one of the two context errors.
\<close>

definition env_laws :: "'w env \<Rightarrow> bool" where
  "env_laws e \<longleftrightarrow>
     (\<forall>c d w. e_now e w \<le> e_now e (snd (e_timer e c d w)))
   \<and> (\<forall>t d w. second \<le> d \<longrightarrow> fst (e_timer e (Some t) d w) = None \<longrightarrow>
        e_now e w < t \<and> e_now e w + d \<le> e_now e (snd (e_timer e (Some t) d w)))
   \<and> (\<forall>c d w. fst (e_timer e c d w) \<in> {None, Some ErrCanceled, Some ErrDeadline})
   \<and> (\<forall>c w. e_err e c w \<in> {None, Some ErrCanceled, Some ErrDeadline})"

text \<open>\<open>SleepContext\<close>, which the retry packages share: no wait for a duration that is not positive.\<close>

definition sleepContext :: "'w env \<Rightarrow> ctx \<Rightarrow> duration \<Rightarrow> 'w \<Rightarrow> go_error option \<times> 'w" where
  "sleepContext e c d w = (if d \<le> 0 then (None, w) else e_timer e c d w)"

lemma env_lawsD:
  assumes "env_laws e"
  shows "e_now e w \<le> e_now e (snd (e_timer e c d w))"
    and "second \<le> d \<Longrightarrow> fst (e_timer e (Some t) d w) = None \<Longrightarrow>
      e_now e w < t \<and> e_now e w + d \<le> e_now e (snd (e_timer e (Some t) d w))"
    and "fst (e_timer e c d w) \<in> {None, Some ErrCanceled, Some ErrDeadline}"
    and "e_err e c w \<in> {None, Some ErrCanceled, Some ErrDeadline}"
  using assms unfolding env_laws_def by blast+

lemma sleepContext_mono: "env_laws e \<Longrightarrow> e_now e w \<le> e_now e (snd (sleepContext e c d w))"
  by (simp add: sleepContext_def env_lawsD(1))

lemma sleepContext_err:
  "env_laws e \<Longrightarrow> fst (sleepContext e c d w) = Some err \<Longrightarrow> err = ErrCanceled \<or> err = ErrDeadline"
  using env_lawsD(3) [of e c d w] by (auto simp: sleepContext_def split: if_splits)

lemma sleepContext_fires:
  assumes "env_laws e" and "second \<le> d" and "fst (sleepContext e (Some t) d w) = None"
  shows "e_now e w < t" and "e_now e w + d \<le> e_now e (snd (sleepContext e (Some t) d w))"
proof -
  have "0 < d" using assms(2) by (simp add: second_def)
  with env_lawsD(2) [OF assms(1), of d t w] assms(2,3)
  show "e_now e w < t" and "e_now e w + d \<le> e_now e (snd (sleepContext e (Some t) d w))"
    by (auto simp: sleepContext_def)
qed

section \<open>Reading the log\<close>

text \<open>
  \<open>lg\<close> reads the lines that were logged so far from the world: the logger appends to them, and a timer
  leaves them alone.
\<close>

definition observes :: "('w \<Rightarrow> log_line list) \<Rightarrow> 'w env \<Rightarrow> bool" where
  "observes lg e \<longleftrightarrow> (\<forall>l w. lg (e_log e l w) = lg w @ [l]) \<and> (\<forall>c d w. lg (snd (e_timer e c d w)) = lg w)"

definition line_level :: "log_line \<Rightarrow> level" where
  "line_level l = (case l of LogLine lvl _ _ \<Rightarrow> lvl)"

lemma line_level_simps [simp]: "line_level (LogLine lvl text attrs) = lvl"
  by (simp add: line_level_def)

lemma observes_log [simp]: "observes lg e \<Longrightarrow> lg (e_log e l w) = lg w @ [l]"
  by (simp add: observes_def)

lemma observes_sleep [simp]: "observes lg e \<Longrightarrow> lg (snd (sleepContext e c d w)) = lg w"
  by (simp add: observes_def sleepContext_def)

section \<open>A concrete world\<close>

text \<open>
  A world that is only a clock: a timer fires when its duration ends before the deadline, otherwise
  the clock stops at the deadline. Used by the concrete examples.
\<close>

definition clock_env :: "int env" where
  "clock_env =
     \<lparr>e_now = (\<lambda>w. w),
      e_err = (\<lambda>c w. case c of None \<Rightarrow> None | Some t \<Rightarrow> if t \<le> w then Some ErrDeadline else None),
      e_timer = (\<lambda>c d w. case c of
          None \<Rightarrow> (None, w + max 0 d)
        | Some t \<Rightarrow> if w < t \<and> w + max 0 d \<le> t then (None, w + max 0 d)
                    else (Some ErrDeadline, max w t)),
      e_log = (\<lambda>_ w. w)\<rparr>"

text \<open>The same clock with a log beside it.\<close>

definition noted_env :: "(int \<times> log_line list) env" where
  "noted_env =
     \<lparr>e_now = fst, e_err = (\<lambda>c w. e_err clock_env c (fst w)),
      e_timer = (\<lambda>c d w. case e_timer clock_env c d (fst w) of (r, t) \<Rightarrow> (r, t, snd w)),
      e_log = (\<lambda>l w. (fst w, snd w @ [l]))\<rparr>"

lemma noted_env_observes [simp]: "observes snd noted_env"
  by (simp add: observes_def noted_env_def split: prod.splits)

lemma clock_env_laws: "env_laws clock_env"
  unfolding env_laws_def clock_env_def by (auto simp: second_def split: option.splits)

end
