(* ===== verification/RegistryPass.thy ===== *)
theory RegistryPass
  imports World
begin

text \<open>
  The registry layer of one pass (\<open>internal/core/registrypass\<close>): results are cached for the pass, a
  host that answers 429 too often is not asked again, and failed requests are retried. A registry is
  a record of its host and its two requests; its client is not part of this layer. The retry
  functions call each other, so they carry fuel; \<open>None\<close> is a computation that has not finished.
\<close>

section \<open>Errors\<close>

definition is_rate_limit_error :: "go_error \<Rightarrow> bool" where
  "is_rate_limit_error e = (case e of RateLimitError _ _ \<Rightarrow> True | _ \<Rightarrow> False)"

definition RetryAfterFromError :: "go_error \<Rightarrow> duration \<times> bool" where
  "RetryAfterFromError e =
     (case find is_rate_limit_error (err_chain e) of
        Some (RateLimitError d _) \<Rightarrow> (d, True)
      | _ \<Rightarrow> (0, False))"

definition isRateLimit :: "go_error \<Rightarrow> bool" where
  "isRateLimit e = list_ex is_rate_limit_error (err_chain e)"

definition is_transport_error :: "go_error \<Rightarrow> bool" where
  "is_transport_error e = (case e of ErrTransport _ _ _ \<Rightarrow> True | _ \<Rightarrow> False)"

definition isServerError :: "go_error \<Rightarrow> bool" where
  "isServerError e =
     (case find is_transport_error (err_chain e) of
        Some (ErrTransport status _ _) \<Rightarrow> 500 \<le> status \<and> status < 600
      | _ \<Rightarrow> False)"

definition permanent :: "go_error \<Rightarrow> bool" where
  "permanent e \<longleftrightarrow> err_is e ErrNotFound \<or> err_is e ErrUnauthorized"

section \<open>State\<close>

record 'w registry =
  reg_host :: string
  reg_ListTags :: "ctx \<Rightarrow> string \<Rightarrow> 'w \<Rightarrow> (go_error + string list) \<times> 'w"
  reg_TagDigest :: "ctx \<Rightarrow> string \<Rightarrow> string \<Rightarrow> 'w \<Rightarrow> (go_error + string) \<times> 'w"

record pass =
  ps_listTags :: "(string \<times> (go_error + string list)) list"
  ps_tagDigests :: "(string \<times> (go_error + string)) list"
  ps_rateLimited :: "string list"
  ps_log :: "log_line list"

definition New :: pass where
  "New = \<lparr>ps_listTags = [], ps_tagDigests = [], ps_rateLimited = [], ps_log = []\<rparr>"

definition pass_log :: "level \<Rightarrow> string \<Rightarrow> (string \<times> attr) list \<Rightarrow> pass \<Rightarrow> pass" where
  "pass_log lvl text attrs p = p\<lparr>ps_log := ps_log p @ [LogLine lvl text attrs]\<rparr>"

definition log_marked :: "string \<Rightarrow> pass \<Rightarrow> pass" where
  "log_marked host =
     pass_log LevelWarn ''registry host rate limited for pass'' [(''host'', AttrStr host)]"

definition log_rate_retry :: "string \<Rightarrow> duration \<Rightarrow> pass \<Rightarrow> pass" where
  "log_rate_retry host retryAfter =
     pass_log LevelWarn ''registry rate limited, retrying''
       [(''host'', AttrStr host), (''retry_after'', AttrNum retryAfter)]"

definition log_attempt_retry :: "string \<Rightarrow> nat \<Rightarrow> duration \<Rightarrow> go_error \<Rightarrow> pass \<Rightarrow> pass" where
  "log_attempt_retry host attempt delay err =
     pass_log LevelWarn ''registry attempt failed, retrying''
       [(''host'', AttrStr host), (''attempt'', AttrNum (int attempt)),
        (''max_attempts'', AttrNum 2), (''delay'', AttrNum delay), (''error'', AttrErr err)]"

definition log_tags_hit :: "string \<Rightarrow> string \<Rightarrow> pass \<Rightarrow> pass" where
  "log_tags_hit host repo =
     pass_log LevelDebug ''registry cache hit''
       [(''op'', AttrStr ''list_tags''), (''host'', AttrStr host), (''repo'', AttrStr repo)]"

definition log_digest_hit :: "string \<Rightarrow> string \<Rightarrow> pass \<Rightarrow> pass" where
  "log_digest_hit host key =
     pass_log LevelDebug ''registry cache hit''
       [(''op'', AttrStr ''tag_digest''), (''host'', AttrStr host), (''key'', AttrStr key)]"

lemma pass_log_frame [pass_simps]:
  "ps_listTags (pass_log lvl text attrs p) = ps_listTags p"
  "ps_tagDigests (pass_log lvl text attrs p) = ps_tagDigests p"
  "ps_rateLimited (pass_log lvl text attrs p) = ps_rateLimited p"
  by (simp_all add: pass_log_def)

lemmas log_line_defs = log_marked_def log_rate_retry_def log_attempt_retry_def log_tags_hit_def
  log_digest_hit_def

lemma log_frame [pass_simps]:
  "ps_listTags (log_marked h p) = ps_listTags p"
  "ps_tagDigests (log_marked h p) = ps_tagDigests p"
  "ps_rateLimited (log_marked h p) = ps_rateLimited p"
  "ps_listTags (log_rate_retry h d p) = ps_listTags p"
  "ps_tagDigests (log_rate_retry h d p) = ps_tagDigests p"
  "ps_rateLimited (log_rate_retry h d p) = ps_rateLimited p"
  "ps_listTags (log_attempt_retry h a d err p) = ps_listTags p"
  "ps_tagDigests (log_attempt_retry h a d err p) = ps_tagDigests p"
  "ps_rateLimited (log_attempt_retry h a d err p) = ps_rateLimited p"
  "ps_listTags (log_tags_hit h r p) = ps_listTags p"
  "ps_tagDigests (log_tags_hit h r p) = ps_tagDigests p"
  "ps_rateLimited (log_tags_hit h r p) = ps_rateLimited p"
  "ps_listTags (log_digest_hit h r p) = ps_listTags p"
  "ps_tagDigests (log_digest_hit h r p) = ps_tagDigests p"
  "ps_rateLimited (log_digest_hit h r p) = ps_rateLimited p"
  by (simp_all add: log_line_defs pass_simps)

definition isRateLimitedLocked :: "string \<Rightarrow> pass \<Rightarrow> bool" where
  "isRateLimitedLocked host p \<longleftrightarrow> host \<in> set (ps_rateLimited p)"

definition markRateLimited :: "string \<Rightarrow> pass \<Rightarrow> pass" where
  "markRateLimited host p =
     (if isRateLimitedLocked host p then p
      else log_marked host (p\<lparr>ps_rateLimited := host # ps_rateLimited p\<rparr>))"

section \<open>Retries\<close>

definition maxRegistryRetryAfter :: duration where "maxRegistryRetryAfter = 10 * second"
definition registry5xxMaxAttempts :: nat where "registry5xxMaxAttempts = 2"
definition registry5xxBackoff :: duration where "registry5xxBackoff = second"
definition registry5xxBackoffMultiplier :: int where "registry5xxBackoffMultiplier = 2"

definition serverBackoff :: "nat \<Rightarrow> duration" where
  "serverBackoff attempt = (dur_mul registry5xxBackoffMultiplier ^^ (attempt - 1)) registry5xxBackoff"

type_synonym ('w, 'a) request = "'w \<Rightarrow> (go_error + 'a) \<times> 'w"

fun handleRateLimit :: "nat \<Rightarrow> 'w env \<Rightarrow> ctx \<Rightarrow> string \<Rightarrow> ('w, 'a) request \<Rightarrow> go_error
    \<Rightarrow> pass \<Rightarrow> 'w \<Rightarrow> ((go_error + 'a) \<times> pass \<times> 'w) option"
  and retry_from :: "nat \<Rightarrow> 'w env \<Rightarrow> ctx \<Rightarrow> string \<Rightarrow> ('w, 'a) request \<Rightarrow> nat \<Rightarrow> go_error
    \<Rightarrow> pass \<Rightarrow> 'w \<Rightarrow> ((go_error + 'a) \<times> pass \<times> 'w) option"
where
  "handleRateLimit 0 e c host call firstErr p w = None"
| "handleRateLimit (Suc n) e c host call firstErr p w =
     (let retryAfter = fst (RetryAfterFromError firstErr) in
      if retryAfter \<le> 0 \<or> maxRegistryRetryAfter < retryAfter
      then Some (Inl ErrRateLimited, markRateLimited host p, w)
      else
        let p = log_rate_retry host retryAfter p
        in case sleepContext e c retryAfter w of
             (Some err, w) \<Rightarrow> Some (Inl err, p, w)
           | (None, w) \<Rightarrow>
        (case call w of
           (Inr value, w) \<Rightarrow> Some (Inr value, p, w)
         | (Inl err, w) \<Rightarrow>
             if isRateLimit err then Some (Inl ErrRateLimited, markRateLimited host p, w)
             else if isServerError err then retry_from n e c host call 1 err p w
             else Some (Inl err, p, w)))"
| "retry_from 0 e c host call attempt lastErr p w = None"
| "retry_from (Suc n) e c host call attempt lastErr p w =
     (if registry5xxMaxAttempts < attempt then
        Some (Inl (if isServerError lastErr then ErrUnavailable else lastErr), p, w)
      else if \<not> isServerError lastErr then Some (Inl lastErr, p, w)
      else if attempt = registry5xxMaxAttempts then
        Some (Inl (if isServerError lastErr then ErrUnavailable else lastErr), p, w)
      else
        let delay = serverBackoff attempt;
            p = log_attempt_retry host attempt delay lastErr p
        in case sleepContext e c delay w of
             (Some err, w) \<Rightarrow> Some (Inl err, p, w)
           | (None, w) \<Rightarrow>
        (case call w of
           (Inr value, w) \<Rightarrow> Some (Inr value, p, w)
         | (Inl err, w) \<Rightarrow>
             if permanent err then Some (Inl err, p, w)
             else if isRateLimit err then handleRateLimit n e c host call err p w
             else retry_from n e c host call (Suc attempt) err p w))"

definition retryServerError :: "nat \<Rightarrow> 'w env \<Rightarrow> ctx \<Rightarrow> string \<Rightarrow> ('w, 'a) request \<Rightarrow> go_error
    \<Rightarrow> pass \<Rightarrow> 'w \<Rightarrow> ((go_error + 'a) \<times> pass \<times> 'w) option" where
  "retryServerError n e c host call firstErr p w = retry_from n e c host call 1 firstErr p w"

definition fetchWithRetry :: "nat \<Rightarrow> 'w env \<Rightarrow> ctx \<Rightarrow> string \<Rightarrow> ('w, 'a) request
    \<Rightarrow> pass \<Rightarrow> 'w \<Rightarrow> ((go_error + 'a) \<times> pass \<times> 'w) option" where
  "fetchWithRetry n e c host call p w =
     (case call w of
        (Inr value, w) \<Rightarrow> Some (Inr value, p, w)
      | (Inl err, w) \<Rightarrow>
          if permanent err then Some (Inl err, p, w)
          else if isRateLimit err then handleRateLimit n e c host call err p w
          else if isServerError err then retryServerError n e c host call err p w
          else Some (Inl err, p, w))"

section \<open>The cached requests\<close>

definition list_key :: "string \<Rightarrow> string \<Rightarrow> string" where
  "list_key host repo = host @ ''/'' @ repo"

definition digest_key :: "string \<Rightarrow> string \<Rightarrow> string \<Rightarrow> string" where
  "digest_key host repo tag = host @ ''/'' @ repo @ ''#'' @ tag"

definition cachedListTags :: "string \<Rightarrow> string \<Rightarrow> string \<Rightarrow> pass \<Rightarrow> ((go_error + string list) \<times> pass) option" where
  "cachedListTags key host repo p =
     (if isRateLimitedLocked host p then Some (Inl ErrRateLimited, p)
      else case map_of (ps_listTags p) key of
        None \<Rightarrow> None
      | Some res \<Rightarrow> Some (res, log_tags_hit host repo p))"

definition cachedTagDigest :: "string \<Rightarrow> string \<Rightarrow> pass \<Rightarrow> ((go_error + string) \<times> pass) option" where
  "cachedTagDigest key host p =
     (if isRateLimitedLocked host p then Some (Inl ErrRateLimited, p)
      else case map_of (ps_tagDigests p) key of
        None \<Rightarrow> None
      | Some res \<Rightarrow> Some (res, log_digest_hit host key p))"

definition storeListTags :: "string \<Rightarrow> go_error + string list \<Rightarrow> pass \<Rightarrow> pass" where
  "storeListTags key res p = p\<lparr>ps_listTags := set_key key res (ps_listTags p)\<rparr>"

definition storeTagDigest :: "string \<Rightarrow> go_error + string \<Rightarrow> pass \<Rightarrow> pass" where
  "storeTagDigest key res p = p\<lparr>ps_tagDigests := set_key key res (ps_tagDigests p)\<rparr>"

definition ListTags :: "nat \<Rightarrow> 'w env \<Rightarrow> ctx \<Rightarrow> 'w registry \<Rightarrow> string \<Rightarrow> string \<Rightarrow> pass \<Rightarrow> 'w
    \<Rightarrow> ((go_error + string list) \<times> pass \<times> 'w) option" where
  "ListTags n e c reg host repo p w =
     (let key = list_key host repo in
      case cachedListTags key host repo p of
        Some (res, p) \<Rightarrow> Some (res, p, w)
      | None \<Rightarrow>
          (case fetchWithRetry n e c host (reg_ListTags reg c repo) p w of
             None \<Rightarrow> None
           | Some (res, p, w) \<Rightarrow> Some (res, storeListTags key res p, w)))"

definition TagDigest :: "nat \<Rightarrow> 'w env \<Rightarrow> ctx \<Rightarrow> 'w registry \<Rightarrow> string \<Rightarrow> string \<Rightarrow> string \<Rightarrow> pass \<Rightarrow> 'w
    \<Rightarrow> ((go_error + string) \<times> pass \<times> 'w) option" where
  "TagDigest n e c reg host repo tag p w =
     (let key = digest_key host repo tag in
      case cachedTagDigest key host p of
        Some (res, p) \<Rightarrow> Some (res, p, w)
      | None \<Rightarrow>
          (case fetchWithRetry n e c host (reg_TagDigest reg c repo tag) p w of
             None \<Rightarrow> None
           | Some (res, p, w) \<Rightarrow> Some (res, storeTagDigest key res p, w)))"

section \<open>What a fetch does to the state\<close>

lemma mark_frame [pass_simps]:
  "ps_listTags (markRateLimited h p) = ps_listTags p"
  "ps_tagDigests (markRateLimited h p) = ps_tagDigests p"
  "set (ps_rateLimited (markRateLimited h p)) = insert h (set (ps_rateLimited p))"
  by (auto simp: markRateLimited_def isRateLimitedLocked_def pass_simps)

text \<open>
  A finished fetch leaves both caches alone, and the hosts it marks are at most the one it asked; when
  it did not mark it, the set is unchanged. Its error is never one that asks for a retry.
\<close>

definition fetch_effect :: "string \<Rightarrow> pass \<Rightarrow> pass \<Rightarrow> bool" where
  "fetch_effect host p p' \<longleftrightarrow>
     ps_listTags p' = ps_listTags p \<and> ps_tagDigests p' = ps_tagDigests p \<and>
     (set (ps_rateLimited p') = set (ps_rateLimited p) \<or>
      set (ps_rateLimited p') = insert host (set (ps_rateLimited p)))"

definition settled :: "go_error \<Rightarrow> bool" where
  "settled e \<longleftrightarrow> permanent e \<or> (\<not> isRateLimit e \<and> \<not> isServerError e)"

lemma fetch_effect_logs [pass_simps]:
  "fetch_effect host (log_rate_retry h d p) p' = fetch_effect host p p'"
  "fetch_effect host (log_attempt_retry h a d err p) p' = fetch_effect host p p'"
  "fetch_effect host p (log_rate_retry h d p)"
  "fetch_effect host p (log_attempt_retry h a d err p)"
  "fetch_effect host p p"
  "fetch_effect host p (markRateLimited host p)"
  "fetch_effect host p (markRateLimited host (log_rate_retry h d p))"
  by (simp_all add: fetch_effect_def pass_simps)

lemma settled_sentinels [pass_simps]:
  "settled ErrRateLimited" "settled ErrUnavailable" "settled ErrCanceled" "settled ErrDeadline"
  by (simp_all add: settled_def isRateLimit_def isServerError_def is_rate_limit_error_def
      is_transport_error_def)

lemma retry_effect:
  "(handleRateLimit n e c host call err p w = Some (r, p', w') \<longrightarrow> fetch_effect host p p')
   \<and> (retry_from n e c host call a err p w = Some (r, p', w') \<longrightarrow> fetch_effect host p p')"
proof (induction n arbitrary: err p w a)
  case (Suc n)
  then have IH: "handleRateLimit n e c host call err p w = Some (r, p', w') \<Longrightarrow> fetch_effect host p p'"
      "retry_from n e c host call a err p w = Some (r, p', w') \<Longrightarrow> fetch_effect host p p'" for err p w a
    by blast+
  show ?case
  proof (intro conjI impI)
    assume "handleRateLimit (Suc n) e c host call err p w = Some (r, p', w')"
    then show "fetch_effect host p p'"
      by (auto simp: Let_def pass_simps split: if_splits prod.splits option.splits sum.splits dest: IH)
  next
    assume "retry_from (Suc n) e c host call a err p w = Some (r, p', w')"
    then show "fetch_effect host p p'"
      by (auto simp: Let_def pass_simps split: if_splits prod.splits option.splits sum.splits dest: IH)
  qed
qed simp

lemma retry_settled:
  assumes laws: "env_laws e"
  shows "(handleRateLimit n e c host call err p w = Some (Inl x, p', w') \<longrightarrow> settled x)
   \<and> (\<not> isRateLimit err \<longrightarrow> retry_from n e c host call a err p w = Some (Inl x, p', w') \<longrightarrow> settled x)"
proof (induction n arbitrary: err p w a)
  case (Suc n)
  then have IH: "handleRateLimit n e c host call err p w = Some (Inl x, p', w') \<Longrightarrow> settled x"
      "retry_from n e c host call a err p w = Some (Inl x, p', w') \<Longrightarrow> \<not> isRateLimit err \<Longrightarrow> settled x"
      for err p w a
    by blast+
  have sleep: "sleepContext e c d w = (Some y, w'') \<Longrightarrow> settled y" for d w w'' y
    using sleepContext_err [OF laws, of c d w y] by (auto simp: pass_simps)
  have kinds: "\<not> isRateLimit y \<Longrightarrow> \<not> isServerError y \<Longrightarrow> settled y" "permanent y \<Longrightarrow> settled y" for y
    by (simp_all add: settled_def)
  show ?case
  proof (intro conjI impI)
    assume "handleRateLimit (Suc n) e c host call err p w = Some (Inl x, p', w')"
    then show "settled x"
      by (auto simp: Let_def pass_simps kinds split: if_splits prod.splits option.splits sum.splits
          dest: IH sleep)
  next
    assume "\<not> isRateLimit err" "retry_from (Suc n) e c host call a err p w = Some (Inl x, p', w')"
    then show "settled x"
      by (auto simp: Let_def pass_simps kinds split: if_splits prod.splits option.splits sum.splits
          dest: IH sleep)
  qed
qed simp

lemma fetch_effect_fetch:
  "fetchWithRetry n e c host call p w = Some (r, p', w') \<Longrightarrow> fetch_effect host p p'"
  using retry_effect [of n e c host call _ _ _ r p' w']
  by (auto simp: fetchWithRetry_def retryServerError_def pass_simps split: if_splits prod.splits sum.splits)

lemma fetch_settled:
  assumes "env_laws e" and "fetchWithRetry n e c host call p w = Some (Inl x, p', w')"
  shows "settled x"
proof -
  note R = retry_settled [OF assms(1), of n c host call _ _ _ x p' w']
  show ?thesis
    using assms(2) R
    by (auto simp: fetchWithRetry_def retryServerError_def settled_def
        split: if_splits prod.splits sum.splits)
qed

section \<open>Requests of a pass as one interface\<close>

datatype question = TagsOf string string | DigestOf string string string

datatype answer = TagsAre "go_error + string list" | DigestIs "go_error + string"

fun q_host_of :: "question \<Rightarrow> string" where
  "q_host_of (TagsOf host repo) = host"
| "q_host_of (DigestOf host repo tag) = host"

fun pass_known :: "pass \<times> 'w \<Rightarrow> question \<Rightarrow> bool" where
  "pass_known (p, w) (TagsOf host repo) \<longleftrightarrow>
     isRateLimitedLocked host p \<or> map_of (ps_listTags p) (list_key host repo) \<noteq> None"
| "pass_known (p, w) (DigestOf host repo tag) \<longleftrightarrow>
     isRateLimitedLocked host p \<or> map_of (ps_tagDigests p) (digest_key host repo tag) \<noteq> None"

text \<open>\<open>regs\<close> gives the registry of a host, \<open>cf\<close> the context of a request made in a world.\<close>

fun pass_ask :: "nat \<Rightarrow> 'w env \<Rightarrow> ('w \<Rightarrow> ctx) \<Rightarrow> (string \<Rightarrow> 'w registry) \<Rightarrow> question \<Rightarrow> pass \<times> 'w
    \<Rightarrow> (answer \<times> pass \<times> 'w) option" where
  "pass_ask n e cf regs (TagsOf host repo) (p, w) =
     map_option (\<lambda>(a, p, w). (TagsAre a, p, w)) (ListTags n e (cf w) (regs host) host repo p w)"
| "pass_ask n e cf regs (DigestOf host repo tag) (p, w) =
     map_option (\<lambda>(a, p, w). (DigestIs a, p, w)) (TagDigest n e (cf w) (regs host) host repo tag p w)"

fun limited_answer :: "question \<Rightarrow> answer" where
  "limited_answer (TagsOf host repo) = TagsAre (Inl ErrRateLimited)"
| "limited_answer (DigestOf host repo tag) = DigestIs (Inl ErrRateLimited)"

text \<open>A pass only learns: no host is unmarked and no cached answer is dropped.\<close>

definition grows :: "pass \<Rightarrow> pass \<Rightarrow> bool" where
  "grows p p' \<longleftrightarrow>
     set (ps_rateLimited p) \<subseteq> set (ps_rateLimited p')
   \<and> dom (map_of (ps_listTags p)) \<subseteq> dom (map_of (ps_listTags p'))
   \<and> dom (map_of (ps_tagDigests p)) \<subseteq> dom (map_of (ps_tagDigests p'))"

lemma grows_refl: "grows p p"
  by (simp add: grows_def)

lemma grows_trans: "grows p q \<Longrightarrow> grows q r \<Longrightarrow> grows p r"
  unfolding grows_def by blast

lemma fetch_effect_grows: "fetch_effect h p p' \<Longrightarrow> grows p p'"
  unfolding fetch_effect_def grows_def by auto

lemma grows_simps [pass_simps]:
  "grows p (log_tags_hit h r p)" "grows p (log_digest_hit h r p)"
  "grows p (storeListTags key res p)" "grows p (storeTagDigest key res' p)"
  by (auto simp: grows_def storeListTags_def storeTagDigest_def pass_simps)

lemma grows_known: "grows p p' \<Longrightarrow> pass_known (p, w) k \<Longrightarrow> pass_known (p', w') k"
  by (cases k) (auto simp: grows_def isRateLimitedLocked_def dom_def subset_iff)

lemma ListTags_effect:
  assumes "ListTags n e c reg host repo p w = Some (r, p', w')"
  shows "grows p p' \<and> pass_known (p', w') (TagsOf host repo)"
proof (cases "cachedListTags (list_key host repo) host repo p")
  case None
  with assms obtain q where q: "fetchWithRetry n e c host (reg_ListTags reg c repo) p w = Some (r, q, w')"
    and p': "p' = storeListTags (list_key host repo) r q"
    by (auto simp: ListTags_def split: option.splits)
  have "grows p p'"
    unfolding p' by (rule grows_trans [OF fetch_effect_grows [OF fetch_effect_fetch [OF q]]])
      (simp add: pass_simps)
  then show ?thesis by (simp add: p' storeListTags_def)
next
  case (Some x)
  then obtain res q where x: "x = (res, q)" by (cases x)
  with Some assms have "p' = q" by (simp add: ListTags_def)
  with Some x have "pass_known (p, w) (TagsOf host repo)" "grows p p'"
    by (auto simp: cachedListTags_def pass_simps grows_refl split: if_splits option.splits)
  then show ?thesis using grows_known [of p p' w "TagsOf host repo" w'] by simp
qed

lemma TagDigest_effect:
  assumes "TagDigest n e c reg host repo tag p w = Some (r, p', w')"
  shows "grows p p' \<and> pass_known (p', w') (DigestOf host repo tag)"
proof (cases "cachedTagDigest (digest_key host repo tag) host p")
  case None
  with assms obtain q where q: "fetchWithRetry n e c host (reg_TagDigest reg c repo tag) p w = Some (r, q, w')"
    and p': "p' = storeTagDigest (digest_key host repo tag) r q"
    by (auto simp: TagDigest_def split: option.splits)
  have "grows p p'"
    unfolding p' by (rule grows_trans [OF fetch_effect_grows [OF fetch_effect_fetch [OF q]]])
      (simp add: pass_simps)
  then show ?thesis by (simp add: p' storeTagDigest_def)
next
  case (Some x)
  then obtain res q where x: "x = (res, q)" by (cases x)
  with Some assms have "p' = q" by (simp add: TagDigest_def)
  with Some x have "pass_known (p, w) (DigestOf host repo tag)" "grows p p'"
    by (auto simp: cachedTagDigest_def pass_simps grows_refl split: if_splits option.splits)
  then show ?thesis using grows_known [of p p' w "DigestOf host repo tag" w'] by simp
qed

lemma pass_ask_effect:
  assumes "pass_ask n e cf regs k (p, w) = Some (r, p', w')"
  shows "grows p p' \<and> pass_known (p', w') k"
proof (cases k)
  case (TagsOf host repo)
  with assms show ?thesis
    using ListTags_effect [of n e "cf w" "regs host" host repo p w _ p' w'] by auto
next
  case (DigestOf host repo tag)
  with assms show ?thesis
    using TagDigest_effect [of n e "cf w" "regs host" host repo tag p w _ p' w'] by auto
qed

interpretation pass_store: answer_store pass_known "pass_ask n e cf regs" for n e cf regs
proof (unfold_locales, goal_cases)
  case (1 k st r st')
  then show ?case
    using pass_ask_effect [of n e cf regs k "fst st" "snd st" r "fst st'" "snd st'"] by simp
next
  case (2 k st r st' j)
  then show ?case
    using pass_ask_effect [of n e cf regs k "fst st" "snd st" r "fst st'" "snd st'"]
      grows_known [of "fst st" "fst st'" "snd st" j "snd st'"] by simp
qed

lemma pass_ask_known:
  assumes "pass_known (p, w) k"
  shows "\<exists>a p'. pass_ask n e cf regs k (p, w) = Some (a, p', w)
    \<and> (isRateLimitedLocked (q_host_of k) p \<longrightarrow> a = limited_answer k \<and> p' = p)"
  using assms
  by (cases k) (auto simp: ListTags_def TagDigest_def Let_def cachedListTags_def cachedTagDigest_def)

section \<open>Termination under a deadline\<close>

definition call_mono :: "'w env \<Rightarrow> ('w, 'a) request \<Rightarrow> bool" where
  "call_mono e call \<longleftrightarrow> (\<forall>w. e_now e w \<le> e_now e (snd (call w)))"

lemma serverBackoff_first [simp]: "serverBackoff (Suc 0) = second"
  by (simp add: serverBackoff_def registry5xxBackoff_def)

lemma retry_from_second: "0 < n \<Longrightarrow> retry_from n e c host call 2 err p w \<noteq> None"
  by (cases n) (auto simp: registry5xxMaxAttempts_def)

text \<open>
  With at most \<open>b\<close> seconds to the deadline, \<open>2 * b + 3\<close> steps are enough: between two rounds lies a
  back-off of one second.
\<close>

definition in_budget :: "'w env \<Rightarrow> int \<Rightarrow> nat \<Rightarrow> 'w \<Rightarrow> bool" where
  "in_budget e t b w \<longleftrightarrow> t \<le> e_now e w + int b * second"

lemma in_budget_mono: "in_budget e t b w \<Longrightarrow> e_now e w \<le> e_now e w' \<Longrightarrow> in_budget e t b w'"
  by (simp add: in_budget_def)

lemma in_budget_slept:
  assumes "env_laws e" and "in_budget e t b w" and "sleepContext e (Some t) second w = (None, w')"
  shows "\<exists>b'. b = Suc b' \<and> in_budget e t b' w'"
  using sleepContext_fires [OF assms(1), of second t w] assms(2,3)
  by (cases b) (auto simp: in_budget_def algebra_simps)

lemma retry_from_first:
  assumes laws: "env_laws e" and mono: "call_mono e call" and b: "in_budget e t b w"
    and n: "2 * b + 2 \<le> n"
    and IH: "\<And>b' m err p w. b = Suc b' \<Longrightarrow> in_budget e t b' w \<Longrightarrow> 2 * b' + 3 \<le> m \<Longrightarrow>
      handleRateLimit m e (Some t) host call err p w \<noteq> None"
  shows "retry_from n e (Some t) host call (Suc 0) err p w \<noteq> None"
proof -
  obtain m where m: "n = Suc m" "0 < m" using n by (cases n) auto
  obtain s w1 where s: "sleepContext e (Some t) second w = (s, w1)" by (cases "sleepContext e (Some t) second w")
  obtain r w2 where r: "call w1 = (r, w2)" by (cases "call w1")
  have rl: "handleRateLimit m e (Some t) host call x q w2 \<noteq> None" if none: "s = None" for x q
  proof -
    obtain b' where b': "b = Suc b'" "in_budget e t b' w1"
      using in_budget_slept [OF laws b] s none by blast
    have "e_now e w1 \<le> e_now e w2"
      using mono [unfolded call_mono_def, rule_format, of w1] r by simp
    from IH [OF b'(1) in_budget_mono [OF b'(2) this]] n m b'(1) show ?thesis by simp
  qed
  show ?thesis
    using rl retry_from_second [OF m(2), of e "Some t" host call]
    by (auto simp: m(1) s r registry5xxMaxAttempts_def Let_def numeral_2_eq_2
        split: option.splits sum.splits)
qed

lemma handle_returns:
  assumes laws: "env_laws e" and mono: "call_mono e call"
  shows "in_budget e t b w \<Longrightarrow> 2 * b + 3 \<le> n \<Longrightarrow>
    handleRateLimit n e (Some t) host call err p w \<noteq> None"
proof (induction b arbitrary: w n err p rule: less_induct)
  case (less b)
  obtain m where m: "n = Suc m" "2 * b + 2 \<le> m" using less.prems(2) by (cases n) auto
  let ?d = "fst (RetryAfterFromError err)"
  obtain s w1 where s: "sleepContext e (Some t) ?d w = (s, w1)" by (cases "sleepContext e (Some t) ?d w")
  obtain r w2 where r: "call w1 = (r, w2)" by (cases "call w1")
  have "e_now e w \<le> e_now e w2"
    using sleepContext_mono [OF laws, of w "Some t" ?d] s
      mono [unfolded call_mono_def, rule_format, of w1] r by simp
  from in_budget_mono [OF less.prems(1) this]
  have "retry_from m e (Some t) host call (Suc 0) x q w2 \<noteq> None" for x q
    using retry_from_first [OF laws mono _ m(2)] less.IH by (metis lessI)
  then show ?case
    by (auto simp: m(1) s r Let_def split: option.splits sum.splits)
qed

lemma retry_first_returns:
  "env_laws e \<Longrightarrow> call_mono e call \<Longrightarrow> in_budget e t b w \<Longrightarrow> 2 * b + 2 \<le> n \<Longrightarrow>
     retry_from n e (Some t) host call (Suc 0) err p w \<noteq> None"
  using retry_from_first [of e call t b w n host err p] handle_returns [of e call t _ _ _ host] by blast

lemma fetch_terminates:
  assumes "env_laws e" and "call_mono e call" and "t \<le> e_now e w + int b * second"
    and "2 * b + 3 \<le> n"
  shows "\<exists>r p' w'. fetchWithRetry n e (Some t) host call p w = Some (r, p', w')"
proof -
  have b: "in_budget e t b (snd (call w))"
    using assms(2,3) by (auto simp: in_budget_def call_mono_def intro: order_trans)
  show ?thesis
  proof (cases "call w")
    case (Pair r w1)
    with b have b1: "in_budget e t b w1" by simp
    show ?thesis
      using handle_returns [OF assms(1,2) b1 assms(4), of host _ p]
        retry_first_returns [OF assms(1,2) b1, of n host _ p] assms(4) Pair
      by (auto simp: fetchWithRetry_def retryServerError_def split: sum.splits)
  qed
qed

section \<open>Properties\<close>

text \<open>
  C15. A request made under a deadline always finishes: whatever the registry answers, a request with
  at most b seconds left returns a value or an error after at most 2 b + 3 rounds of the retry
  functions, because every cycle through them sleeps at least one second of the budget.
\<close>
theorem fetch_returns:
  assumes "env_laws e" and "call_mono e call" and "t \<le> e_now e w + int b * second"
    and "2 * b + 3 \<le> n"
  shows "\<exists>r p' w'. fetchWithRetry n e (Some t) host call p w = Some (r, p', w')"
  by (rule fetch_terminates [OF assms])

definition down_call :: "('w, 'a) request" where
  "down_call w = (Inl (ErrTransport 503 0 []), w)"

theorem fetch_returns_witness:
  "\<exists>r p' w'. fetchWithRetry 7 clock_env (Some (2 * second)) ''ghcr.io'' (down_call :: (int, string) request) New 0
     = Some (r, p', w')"
  by (rule fetch_returns [OF clock_env_laws, where b = 2])
    (simp_all add: call_mono_def down_call_def clock_env_def)

text \<open>
  What a finished request leaves behind: its error is never one that still asks for a retry - a
  429 has become a rate-limited host or was resolved, a 5xx has become unavailable - the caches are
  untouched, and no host but the requested one is marked as rate limited.
\<close>
theorem fetch_outcome:
  assumes "env_laws e" and "fetchWithRetry n e c host call p w = Some (r, p', w')"
  shows "(\<forall>err. r = Inl err \<longrightarrow> permanent err \<or> (\<not> isRateLimit err \<and> \<not> isServerError err))
    \<and> ps_listTags p' = ps_listTags p \<and> ps_tagDigests p' = ps_tagDigests p
    \<and> set (ps_rateLimited p) \<subseteq> set (ps_rateLimited p')
    \<and> set (ps_rateLimited p') \<subseteq> insert host (set (ps_rateLimited p))"
  using fetch_settled [OF assms(1), of n c host call p w _ p' w'] fetch_effect_fetch [OF assms(2)] assms(2)
  by (auto simp: settled_def fetch_effect_def)

theorem fetch_outcome_witness:
  "fetchWithRetry 3 clock_env (Some 0) ''ghcr.io'' (\<lambda>w. (Inl (RateLimitError 0 ErrUnavailable), w)) New 0
     = Some (Inl ErrRateLimited :: go_error + string, markRateLimited ''ghcr.io'' New, 0)
   \<and> set (ps_rateLimited (markRateLimited ''ghcr.io'' New)) \<subseteq> {''ghcr.io''}"
proof -
  let ?call = "\<lambda>w. (Inl (RateLimitError 0 ErrUnavailable) :: go_error + string, w :: int)"
  have f: "fetchWithRetry 3 clock_env (Some 0) ''ghcr.io'' ?call New 0
      = Some (Inl ErrRateLimited, markRateLimited ''ghcr.io'' New, 0)"
    by (simp add: fetchWithRetry_def permanent_def err_is_def err_matches_def isRateLimit_def
        is_rate_limit_error_def RetryAfterFromError_def numeral_3_eq_3)
  with fetch_outcome [OF clock_env_laws f] show ?thesis by (simp add: New_def)
qed

text \<open>
  C16. Every repository is listed and every tag resolved at most once per pass: in any sequence of
  requests of a fresh pass, the questions that reach a registry are pairwise different; and a question
  that is answered from the pass does not touch the outside world.
\<close>
theorem pass_asks_once:
  "distinct (fetched pass_known (pass_ask n e cf regs) ks (New, w))
   \<and> (pass_known (p, w') k \<longrightarrow> (\<exists>a p'. pass_ask n e cf regs k (p, w') = Some (a, p', w')))"
  using pass_store.fetched_distinct [of n e cf regs ks "(New, w)"] pass_ask_known [of p w' k n e cf regs]
  by auto

definition ok_registry :: "string \<Rightarrow> 'w registry" where
  "ok_registry host =
     \<lparr>reg_host = host, reg_ListTags = (\<lambda>c repo w. (Inr [''1.0''], w)),
      reg_TagDigest = (\<lambda>c repo tag w. (Inr ''sha256:0'', w))\<rparr>"

theorem pass_asks_once_witness:
  "(let k = TagsOf ''ghcr.io'' ''a/b'' in
    distinct (fetched pass_known (pass_ask 1 clock_env (\<lambda>_. None) ok_registry) [k, k] (New, 0 :: int))
    \<and> (\<exists>a p'. pass_ask 1 clock_env (\<lambda>_. None) ok_registry k
          (storeListTags (list_key ''ghcr.io'' ''a/b'') (Inr []) New, 5) = Some (a, p', 5)))"
  unfolding Let_def
  using pass_asks_once [of 1 clock_env "\<lambda>_. None" ok_registry
      "[TagsOf ''ghcr.io'' ''a/b'', TagsOf ''ghcr.io'' ''a/b'']" 0
      "storeListTags (list_key ''ghcr.io'' ''a/b'') (Inr []) New" 5 "TagsOf ''ghcr.io'' ''a/b''"]
  by (simp add: storeListTags_def)

text \<open>
  A rate-limited host is left alone for the rest of the pass: every request to it is answered with
  the rate-limit error at once, without a call, and no later request of any kind lifts the mark.
\<close>
theorem pass_limited_host:
  assumes "q_host_of k \<in> set (ps_rateLimited p)"
  shows "pass_ask n e cf regs k (p, w) = Some (limited_answer k, p, w)
    \<and> (\<forall>j a p' w'. pass_ask n e cf regs j (p, w) = Some (a, p', w') \<longrightarrow>
         q_host_of k \<in> set (ps_rateLimited p'))"
proof -
  have "isRateLimitedLocked (q_host_of k) p"
    using assms by (simp add: isRateLimitedLocked_def)
  then have "pass_known (p, w) k" by (cases k) auto
  with pass_ask_known [OF this, of n e cf regs] \<open>isRateLimitedLocked (q_host_of k) p\<close>
  have "pass_ask n e cf regs k (p, w) = Some (limited_answer k, p, w)" by auto
  then show ?thesis
    using pass_ask_effect [of n e cf regs _ p w] assms by (fastforce simp: grows_def)
qed

theorem pass_limited_host_witness:
  "pass_ask 1 clock_env (\<lambda>_. None) ok_registry (TagsOf ''ghcr.io'' ''a/b'') (markRateLimited ''ghcr.io'' New, 0)
     = Some (TagsAre (Inl ErrRateLimited), markRateLimited ''ghcr.io'' New, 0)"
  using pass_limited_host [of "TagsOf ''ghcr.io'' ''a/b''" "markRateLimited ''ghcr.io'' New"
      1 clock_env "\<lambda>_. None" ok_registry 0]
  by (simp add: pass_simps)

text \<open>
  The deadline is needed. A registry whose answers alternate between 429 with a Retry-After of a
  second and 503 keeps the two retry functions calling each other.
\<close>

definition alternating :: "(int, 'a) request" where
  "alternating w =
     (Inl (if even (w div second) then RateLimitError second (ErrTransport 429 second [])
           else ErrTransport 503 0 []), w)"

definition tick :: "int \<Rightarrow> int" where "tick m = m * second"

lemma alternating_tick:
  "alternating (tick m) =
     (Inl (if even m then RateLimitError second (ErrTransport 429 second []) else ErrTransport 503 0 []),
      tick m)"
  by (simp add: alternating_def tick_def second_def)

lemma alternating_first: "alternating 0 = (Inl (RateLimitError second (ErrTransport 429 second [])), 0)"
  by (simp add: alternating_def)

lemma tick_sleep: "sleepContext clock_env None second (tick m) = (None, tick (m + 1))"
  by (simp add: sleepContext_def clock_env_def tick_def second_def)

lemma second_short: "0 < second" "second \<le> maxRegistryRetryAfter"
  by (simp_all add: second_def maxRegistryRetryAfter_def)

lemma error_kinds [pass_simps]:
  "isRateLimit (RateLimitError d x)" "fst (RetryAfterFromError (RateLimitError d x)) = d"
  "\<not> isRateLimit (ErrTransport st d m)" "isServerError (ErrTransport st d m) \<longleftrightarrow> 500 \<le> st \<and> st < 600"
  "\<not> permanent (RateLimitError d (ErrTransport st d' m))" "\<not> permanent (ErrTransport st d m)"
  by (simp_all add: isRateLimit_def is_rate_limit_error_def RetryAfterFromError_def isServerError_def
      is_transport_error_def permanent_def err_is_def err_matches_def)

lemma alternating_runs:
  "(even m \<longrightarrow> handleRateLimit n clock_env None host (alternating :: (int, 'a) request)
     (RateLimitError second (ErrTransport 429 second [])) p (tick m) = None)
   \<and> (odd m \<longrightarrow> retry_from n clock_env None host (alternating :: (int, 'a) request) (Suc 0)
     (ErrTransport 503 0 []) p (tick m) = None)"
proof (induction n arbitrary: m p)
  case (Suc n)
  show ?case
    using Suc.IH [of "m + 1"] second_short
    by (simp add: Let_def tick_sleep alternating_tick pass_simps registry5xxMaxAttempts_def)
qed simp

text \<open>The same registry, but after \<open>k\<close> seconds it answers.\<close>

definition alternating_until :: "nat \<Rightarrow> 'a \<Rightarrow> (int, 'a) request" where
  "alternating_until k v w = (if w div second < int k then alternating w else (Inr v, w))"

lemma alternating_until_tick:
  "alternating_until k v (tick m) = (if m < int k then alternating (tick m) else (Inr v, tick m))"
  by (simp add: alternating_until_def tick_def second_def)

lemma alternating_until_runs:
  assumes "0 < d" and "m + int d = int k"
  shows "(even m \<longrightarrow> (\<exists>p'. handleRateLimit d clock_env None host (alternating_until k v)
       (RateLimitError second (ErrTransport 429 second [])) p (tick m) = Some (Inr v, p', tick (int k))
       \<and> ps_rateLimited p' = ps_rateLimited p))
   \<and> (odd m \<longrightarrow> (\<exists>p'. retry_from d clock_env None host (alternating_until k v) (Suc 0)
       (ErrTransport 503 0 []) p (tick m) = Some (Inr v, p', tick (int k))
       \<and> ps_rateLimited p' = ps_rateLimited p))"
  using assms
proof (induction d arbitrary: m p)
  case (Suc d)
  show ?case
  proof (cases "d = 0")
    case True
    with Suc.prems have "m + 1 = int k" by simp
    then show ?thesis
      using second_short
      by (simp add: Let_def tick_sleep alternating_until_tick pass_simps registry5xxMaxAttempts_def)
  next
    case False
    with Suc.prems have later: "m + 1 < int k" "0 < d" "(m + 1) + int d = int k" by simp_all
    show ?thesis
    proof (intro conjI impI)
      assume even: "even m"
      obtain p' where "retry_from d clock_env None host (alternating_until k v) (Suc 0) (ErrTransport 503 0 [])
          (log_rate_retry host second p) (tick (m + 1)) = Some (Inr v, p', tick (int k))"
        and "ps_rateLimited p' = ps_rateLimited (log_rate_retry host second p)"
        using Suc.IH [OF later(2,3), of "log_rate_retry host second p"] even by auto
      then show "\<exists>p'. handleRateLimit (Suc d) clock_env None host (alternating_until k v)
          (RateLimitError second (ErrTransport 429 second [])) p (tick m) = Some (Inr v, p', tick (int k))
          \<and> ps_rateLimited p' = ps_rateLimited p"
        using later(1) even second_short
        by (simp add: Let_def tick_sleep alternating_until_tick alternating_tick pass_simps)
    next
      assume odd: "odd m"
      let ?q = "log_attempt_retry host (Suc 0) second (ErrTransport 503 0 []) p"
      obtain p' where "handleRateLimit d clock_env None host (alternating_until k v)
          (RateLimitError second (ErrTransport 429 second [])) ?q (tick (m + 1)) = Some (Inr v, p', tick (int k))"
        and "ps_rateLimited p' = ps_rateLimited ?q"
        using Suc.IH [OF later(2,3), of ?q] odd by auto
      then show "\<exists>p'. retry_from (Suc d) clock_env None host (alternating_until k v) (Suc 0)
          (ErrTransport 503 0 []) p (tick m) = Some (Inr v, p', tick (int k)) \<and> ps_rateLimited p' = ps_rateLimited p"
        using later(1) odd
        by (simp add: Let_def tick_sleep alternating_until_tick alternating_tick pass_simps registry5xxMaxAttempts_def)
    qed
  qed
qed simp

text \<open>
  C21. Without a deadline the retries of one request need not end: against a registry whose answers
  alternate between 429 with a short \<open>Retry-After\<close> and 503, no number of rounds completes the request. And
  the host is not marked as rate limited however often it answers 429: if it alternates for \<open>k\<close> seconds and
  then answers, the request succeeds with that answer after \<open>k\<close> seconds and the marked hosts are those
  from before. The number of \<open>Retry-After\<close> retries of a request is bounded by the deadline only.
\<close>
theorem alternating_never_returns:
  "fetchWithRetry n clock_env None host (alternating :: (int, 'a) request) p 0 = None
   \<and> (\<exists>p'. fetchWithRetry k clock_env None host (alternating_until k v) p 0 = Some (Inr v, p', int k * second)
        \<and> ps_rateLimited p' = ps_rateLimited p)"
proof
  have start: "tick 0 = 0" by (simp add: tick_def)
  show "fetchWithRetry n clock_env None host (alternating :: (int, 'a) request) p 0 = None"
    using alternating_runs [where n = n and host = host and p = p and m = 0 and 'a = 'a] start
    by (simp add: fetchWithRetry_def pass_simps alternating_first)
  have first: "alternating_until k v 0 = (if k = 0 then (Inr v, 0)
      else (Inl (RateLimitError second (ErrTransport 429 second [])), 0))"
    using alternating_until_tick [of k v 0] by (simp add: start alternating_first)
  show "\<exists>p'. fetchWithRetry k clock_env None host (alternating_until k v) p 0 = Some (Inr v, p', int k * second)
      \<and> ps_rateLimited p' = ps_rateLimited p"
  proof (cases "k = 0")
    case False
    then show ?thesis
      using alternating_until_runs [of k 0 k host v p] first start
      by (simp add: fetchWithRetry_def pass_simps tick_def)
  qed (use first in \<open>simp add: fetchWithRetry_def\<close>)
qed

end
