(* ===== verification/GoPath.thy ===== *)
theory GoPath
  imports GoStrings
begin

text \<open>
  The functions of Go's \<open>path/filepath\<close> (on Unix) that the program calls: \<open>Clean\<close>, \<open>Dir\<close> and
  \<open>Join\<close>. \<open>clean_step\<close> treats one path element; the elements kept so far are on a stack.
\<close>

definition slash :: char where "slash = CHR ''/''"
definition dot :: string where "dot = ''.''"
definition dotdot :: string where "dotdot = ''..''"

lemma dots [simp]: "dot \<noteq> []" "dotdot \<noteq> []" "dotdot \<noteq> dot" "dot \<noteq> dotdot"
  "slash \<notin> set dot" "slash \<notin> set dotdot"
  by (simp_all add: dot_def dotdot_def slash_def)

lemma split_on_dot [simp]: "split_on slash dot = [dot]"
  by (simp add: split_on_no_sep)

lemma hd_dot [simp]: "hd dot \<noteq> slash"
  by (simp add: dot_def slash_def)

definition clean_step :: "bool \<Rightarrow> string list \<Rightarrow> string \<Rightarrow> string list" where
  "clean_step rooted stack e =
     (if e = [] \<or> e = dot then stack
      else if e = dotdot then
        (case stack of
           [] \<Rightarrow> if rooted then [] else [dotdot]
         | x # xs \<Rightarrow> if x = dotdot then dotdot # stack else xs)
      else e # stack)"

definition is_rooted :: "string \<Rightarrow> bool" where
  "is_rooted p \<longleftrightarrow> p \<noteq> [] \<and> hd p = slash"

definition clean_elems :: "string \<Rightarrow> string list" where
  "clean_elems p = rev (foldl (clean_step (is_rooted p)) [] (split_on slash p))"

definition clean_path :: "string \<Rightarrow> string" where
  "clean_path p =
     (if p = [] then dot
      else if is_rooted p then slash # join [slash] (clean_elems p)
      else if clean_elems p = [] then dot
      else join [slash] (clean_elems p))"

definition dir_path :: "string \<Rightarrow> string" where
  "dir_path p =
     clean_path (case last_index p slash of None \<Rightarrow> [] | Some i \<Rightarrow> take (Suc i) p)"

definition join_path :: "string list \<Rightarrow> string" where
  "join_path es =
     (case dropWhile (\<lambda>e. e = []) es of [] \<Rightarrow> [] | es' \<Rightarrow> clean_path (join [slash] es'))"

text \<open>An element of a cleaned path is never empty or a dot, and holds no slash.\<close>

definition plain_elem :: "string \<Rightarrow> bool" where
  "plain_elem e \<longleftrightarrow> e \<noteq> [] \<and> e \<noteq> dot \<and> slash \<notin> set e"

lemma clean_step_plain:
  "\<forall>x\<in>set stack. plain_elem x \<Longrightarrow> slash \<notin> set e \<Longrightarrow> \<forall>x\<in>set (clean_step rooted stack e). plain_elem x"
  unfolding clean_step_def plain_elem_def by (cases stack) auto

lemma foldl_clean_plain:
  "\<forall>x\<in>set stack. plain_elem x \<Longrightarrow> \<forall>e\<in>set es. slash \<notin> set e \<Longrightarrow>
     \<forall>x\<in>set (foldl (clean_step rooted) stack es). plain_elem x"
proof (induction es arbitrary: stack)
  case (Cons e es)
  then show ?case using clean_step_plain [of stack e rooted] by simp
qed simp

lemma clean_elems_plain: "x \<in> set (clean_elems p) \<Longrightarrow> plain_elem x"
  using foldl_clean_plain [of "[]" "split_on slash p" "is_rooted p"] split_on_parts
  by (auto simp: clean_elems_def)

text \<open>
  A stack a cleaned path leaves: parent elements at its bottom only, none when rooted. Cleaning
  such a list of elements again changes nothing.
\<close>

definition clean_stack :: "bool \<Rightarrow> string list \<Rightarrow> bool" where
  "clean_stack rooted st \<longleftrightarrow>
     (\<forall>x\<in>set st. plain_elem x) \<and>
     (\<exists>up down. st = up @ down \<and> (\<forall>x\<in>set up. x \<noteq> dotdot) \<and> (\<forall>x\<in>set down. x = dotdot) \<and>
        (rooted \<longrightarrow> down = []))"

lemma clean_stack_step:
  assumes "clean_stack rooted st" and "slash \<notin> set e"
  shows "clean_stack rooted (clean_step rooted st e)"
proof -
  from assms(1) obtain up down where s: "st = up @ down" "\<forall>x\<in>set up. x \<noteq> dotdot"
      "\<forall>x\<in>set down. x = dotdot" "rooted \<longrightarrow> down = []" and plain: "\<forall>x\<in>set st. plain_elem x"
    by (auto simp: clean_stack_def)
  have plain': "\<forall>x\<in>set (clean_step rooted st e). plain_elem x"
    using clean_step_plain [OF plain assms(2)] .
  consider "e = [] \<or> e = dot" | "e = dotdot" | "e \<noteq> []" "e \<noteq> dot" "e \<noteq> dotdot" by blast
  then have "\<exists>up' down'. clean_step rooted st e = up' @ down' \<and> (\<forall>x\<in>set up'. x \<noteq> dotdot) \<and>
      (\<forall>x\<in>set down'. x = dotdot) \<and> (rooted \<longrightarrow> down' = [])"
  proof cases
    case 1
    then have "clean_step rooted st e = up @ down" using s(1) by (simp add: clean_step_def)
    then show ?thesis using s by blast
  next
    case 2
    show ?thesis
    proof (cases up)
      case Nil
      then have "\<forall>x\<in>set (clean_step rooted st e). x = dotdot" "rooted \<longrightarrow> clean_step rooted st e = []"
        using 2 s by (cases st; auto simp: clean_step_def)+
      then show ?thesis by (metis append_Nil empty_iff list.set(1))
    next
      case (Cons u us)
      with 2 s have "clean_step rooted st e = us @ down" by (simp add: clean_step_def)
      moreover have "\<forall>x\<in>set us. x \<noteq> dotdot" using Cons s by simp
      ultimately show ?thesis using s by blast
    qed
  next
    case 3
    then have "clean_step rooted st e = (e # up) @ down" using s(1) by (simp add: clean_step_def)
    moreover have "\<forall>x\<in>set (e # up). x \<noteq> dotdot" using 3 s by simp
    ultimately show ?thesis using s by blast
  qed
  with plain' show ?thesis unfolding clean_stack_def by blast
qed

lemma clean_stack_foldl:
  "clean_stack rooted st \<Longrightarrow> \<forall>e\<in>set es. slash \<notin> set e \<Longrightarrow>
     clean_stack rooted (foldl (clean_step rooted) st es)"
proof (induction es arbitrary: st)
  case (Cons e es)
  then show ?case using clean_stack_step by simp
qed simp

lemma clean_stack_elems: "clean_stack (is_rooted p) (rev (clean_elems p))"
proof -
  have "clean_stack (is_rooted p) []" by (auto simp: clean_stack_def)
  then show ?thesis
    using split_on_parts [of _ slash p] by (auto simp: clean_elems_def intro!: clean_stack_foldl)
qed

lemma clean_step_keeps:
  assumes "clean_stack rooted (e # st)"
  shows "clean_step rooted st e = e # st"
proof -
  from assms obtain up down where s: "e # st = up @ down" "\<forall>x\<in>set up. x \<noteq> dotdot"
      "\<forall>x\<in>set down. x = dotdot" "rooted \<longrightarrow> down = []" and p: "plain_elem e"
    by (auto simp: clean_stack_def)
  show ?thesis
  proof (cases "e = dotdot")
    case True
    with s have "up = []" by (cases up) auto
    with s True show ?thesis by (auto simp: clean_step_def split: list.splits)
  next
    case False
    with p show ?thesis by (simp add: clean_step_def plain_elem_def)
  qed
qed

lemma clean_stack_tail: "clean_stack rooted (e # st) \<Longrightarrow> clean_stack rooted st"
proof -
  assume a: "clean_stack rooted (e # st)"
  then obtain up down where s: "e # st = up @ down" "\<forall>x\<in>set up. x \<noteq> dotdot"
      "\<forall>x\<in>set down. x = dotdot" "rooted \<longrightarrow> down = []"
    by (auto simp: clean_stack_def)
  have "\<exists>u d. st = u @ d \<and> (\<forall>x\<in>set u. x \<noteq> dotdot) \<and> (\<forall>x\<in>set d. x = dotdot) \<and> (rooted \<longrightarrow> d = [])"
  proof (cases up)
    case Nil
    with s have "\<forall>x\<in>set st. x = dotdot" "\<not> rooted" by auto
    then show ?thesis by (metis append_Nil empty_iff list.set(1))
  next
    case (Cons u us)
    with s have "st = us @ down" "\<forall>x\<in>set us. x \<noteq> dotdot" by auto
    with s show ?thesis by blast
  qed
  with a show ?thesis by (auto simp: clean_stack_def)
qed

lemma foldl_clean_keeps:
  "clean_stack rooted (rev es) \<Longrightarrow> foldl (clean_step rooted) [] es = rev es"
proof (induction es rule: rev_induct)
  case (snoc e es)
  then have "clean_stack rooted (e # rev es)" by simp
  from snoc.IH [OF clean_stack_tail [OF this]] clean_step_keeps [OF this] show ?case by simp
qed simp

lemma clean_elems_slash_cons: "clean_elems (slash # join [slash] es) = es"
  if "clean_stack True (rev es)" "es \<noteq> []" for es
proof -
  have "\<forall>e\<in>set es. slash \<notin> set e"
    using that by (auto simp: clean_stack_def plain_elem_def)
  then have "split_on slash (slash # join [slash] es) = [] # es"
    using split_on_join [OF that(2)] by simp
  then show ?thesis
    using foldl_clean_keeps [OF that(1)]
    by (simp add: clean_elems_def is_rooted_def clean_step_def)
qed

lemma clean_path_idem: "clean_path (clean_path p) = clean_path p"
proof (cases "is_rooted p")
  case True
  then have r: "clean_path p = slash # join [slash] (clean_elems p)"
    by (auto simp: clean_path_def is_rooted_def)
  have st: "clean_stack True (rev (clean_elems p))"
    using clean_stack_elems [of p] True by simp
  show ?thesis
  proof (cases "clean_elems p = []")
    case True
    with r show ?thesis
      by (simp add: clean_path_def is_rooted_def clean_elems_def clean_step_def)
  next
    case False
    with r clean_elems_slash_cons [OF st] show ?thesis
      by (simp add: clean_path_def is_rooted_def)
  qed
next
  case False
  show ?thesis
  proof (cases "p = [] \<or> clean_elems p = []")
    case True
    with False have "clean_path p = dot" by (auto simp: clean_path_def)
    then show ?thesis
      by (simp add: clean_path_def is_rooted_def clean_elems_def clean_step_def)
  next
    case ne: False
    let ?es = "clean_elems p"
    from ne False have r: "clean_path p = join [slash] ?es" by (simp add: clean_path_def)
    have pl: "\<forall>e\<in>set ?es. plain_elem e" using clean_elems_plain by blast
    then have sp: "split_on slash (join [slash] ?es) = ?es"
      using ne split_on_join by (auto simp: plain_elem_def)
    obtain e es where es: "?es = e # es" using ne by (cases ?es) auto
    then have "hd (join [slash] ?es) = hd e \<and> join [slash] ?es \<noteq> []"
      using pl by (cases es) (auto simp: plain_elem_def)
    moreover have "hd e \<noteq> slash"
      using pl es hd_in_set [of e] by (auto simp: plain_elem_def simp del: hd_in_set)
    ultimately have nr: "\<not> is_rooted (join [slash] ?es)" and nn: "join [slash] ?es \<noteq> []"
      by (auto simp: is_rooted_def)
    have "clean_elems (join [slash] ?es) = ?es"
      using foldl_clean_keeps [OF clean_stack_elems [of p]] False nr sp
      by (simp add: clean_elems_def)
    with r nr nn ne show ?thesis by (simp add: clean_path_def)
  qed
qed

text \<open>A joined path ends with its last element, when that is a name.\<close>

lemma join_path_ends:
  assumes "plain_elem e" and "e \<noteq> dotdot"
  shows "\<exists>q. join_path [d, e] = q @ e"
proof -
  have e: "e \<noteq> []" "split_on slash e = [e]" "slash \<notin> set e"
    using assms(1) by (simp_all add: plain_elem_def split_on_no_sep)
  define p where "p = (if d = [] then e else d @ slash # e)"
  have j: "join_path [d, e] = clean_path p" using e(1) by (simp add: join_path_def p_def)
  have "\<exists>es. split_on slash p = es @ [e]" using e(2) by (simp add: p_def split_on_snoc)
  then obtain es where "split_on slash p = es @ [e]" by blast
  then obtain st where "clean_elems p = st @ [e]"
    using assms by (simp add: clean_elems_def clean_step_def plain_elem_def)
  moreover have "p \<noteq> []" using e(1) by (simp add: p_def)
  moreover obtain q where "join [slash] (st @ [e]) = q @ e" using join_snoc by blast
  ultimately have "clean_path p = q @ e \<or> clean_path p = (slash # q) @ e" by (auto simp: clean_path_def)
  with j show ?thesis by metis
qed

end
