(* ===== verification/StateStore.thy ===== *)
theory StateStore
  imports GoPath Model
begin

text \<open>
  The notification state (\<open>internal/state/state.go\<close>): which update was last announced for a container
  and image, kept in memory and in a JSON file that is replaced atomically. The JSON codec and the
  failures of the file system are parameters; the files themselves are part of the model. The store's
  contract is the locale \<open>update_memory\<close>: a finite map from keys to announced targets.
\<close>

section \<open>State\<close>

record entry_state =
  es_mode :: string
  es_value :: string
  es_notified_at :: int

record file_data =
  fd_version :: int
  fd_entries :: "(string \<times> entry_state) list"

record store =
  st_path :: string
  st_data :: file_data

definition fileVersion :: int where "fileVersion = 2"

definition emptyData :: file_data where
  "emptyData = \<lparr>fd_version = fileVersion, fd_entries = []\<rparr>"

section \<open>Keys and targets\<close>

definition shortContainerID :: "string \<Rightarrow> string" where
  "shortContainerID cid =
     (if cid = [] then ''unknown'' else if 12 < length cid then take 12 cid else cid)"

definition FormatEntryKey :: "string \<Rightarrow> string \<Rightarrow> string \<Rightarrow> string \<Rightarrow> string" where
  "FormatEntryKey name cid host repo =
     (let namePart = (if name = [] then shortContainerID cid else name)
      in namePart @ ''|'' @ host @ ''/'' @ repo)"

definition EntryKey :: "update_available \<Rightarrow> string" where
  "EntryKey u = FormatEntryKey (c_name (u_container u)) (c_id (u_container u)) (u_host u) (u_repo u)"

definition target_semver :: string where "target_semver = ''semver''"
definition target_digest :: string where "target_digest = ''digest''"

definition targetFor :: "update_available \<Rightarrow> string \<times> string" where
  "targetFor u =
     (if u_latest_tag u \<noteq> [] then (target_semver, u_latest_tag u)
      else (target_digest, normalizeDigest (u_remote_digest u)))"

section \<open>Operations in memory\<close>

definition EntryCount :: "store \<Rightarrow> nat" where
  "EntryCount s = card (set (map fst (fd_entries (st_data s))))"

definition isNew :: "store \<Rightarrow> update_available \<Rightarrow> bool" where
  "isNew s u =
     (case map_of (fd_entries (st_data s)) (EntryKey u) of
        None \<Rightarrow> True
      | Some stored \<Rightarrow>
          (case targetFor u of (mode, value) \<Rightarrow>
             if es_mode stored \<noteq> mode then True else es_value stored \<noteq> value))"

definition Filter :: "store \<Rightarrow> update_available list \<Rightarrow> update_available list \<times> update_available list" where
  "Filter s batch = (filter (isNew s) batch, filter (\<lambda>u. \<not> isNew s u) batch)"

definition on_entries :: "((string \<times> entry_state) list \<Rightarrow> (string \<times> entry_state) list) \<Rightarrow> store \<Rightarrow> store" where
  "on_entries f s = s\<lparr>st_data := (st_data s)\<lparr>fd_entries := f (fd_entries (st_data s))\<rparr>\<rparr>"

definition record_one :: "int \<Rightarrow> (string \<times> entry_state) list \<Rightarrow> update_available \<Rightarrow> (string \<times> entry_state) list" where
  "record_one now m u =
     (case targetFor u of (mode, value) \<Rightarrow>
        set_key (EntryKey u) \<lparr>es_mode = mode, es_value = value, es_notified_at = now\<rparr> m)"

definition Record :: "int \<Rightarrow> update_available list \<Rightarrow> store \<Rightarrow> store" where
  "Record now notified = on_entries (\<lambda>m. foldl (record_one now) m notified)"

definition Prune :: "string list \<Rightarrow> store \<Rightarrow> store" where
  "Prune activeKeys = on_entries (filter (\<lambda>(k, _). k \<in> set activeKeys))"

section \<open>The file\<close>

text \<open>
  The disk holds the files and every earlier content of the disk, so that what a crash between two
  steps leaves behind is visible. The record \<open>io\<close> decides which system call fails: a write may fail
  after some bytes have reached the file.
\<close>

record disk =
  dk_files :: "(string \<times> string) list"
  dk_past :: "(string \<times> string) list list"

record io =
  io_read :: "string \<Rightarrow> go_error option"
  io_mkdir :: "string \<Rightarrow> go_error option"
  io_open :: "string \<Rightarrow> go_error option"
  io_write :: "string \<Rightarrow> (go_error \<times> nat) option"
  io_rename :: "string \<Rightarrow> go_error option"
  io_remove :: "string \<Rightarrow> bool"

definition put_files :: "(string \<times> string) list \<Rightarrow> disk \<Rightarrow> disk" where
  "put_files fs dk = dk\<lparr>dk_files := fs, dk_past := dk_past dk @ [dk_files dk]\<rparr>"

definition put_file :: "string \<Rightarrow> string \<Rightarrow> disk \<Rightarrow> disk" where
  "put_file path raw dk = put_files (set_key path raw (dk_files dk)) dk"

definition drop_file :: "string \<Rightarrow> disk \<Rightarrow> disk" where
  "drop_file path dk = put_files (filter (\<lambda>(p, _). p \<noteq> path) (dk_files dk)) dk"

text \<open>\<open>os.WriteFile\<close>: create or truncate, then write. \<open>os.Rename\<close>: one step.\<close>

definition write_file :: "io \<Rightarrow> string \<Rightarrow> string \<Rightarrow> disk \<Rightarrow> go_error option \<times> disk" where
  "write_file io path raw dk =
     (case io_open io path of
        Some err \<Rightarrow> (Some err, dk)
      | None \<Rightarrow>
          (let dk = put_file path [] dk in
           case io_write io path of
             Some (err, n) \<Rightarrow> (Some err, put_file path (take n raw) dk)
           | None \<Rightarrow> (None, put_file path raw dk)))"

definition rename_file :: "io \<Rightarrow> string \<Rightarrow> string \<Rightarrow> disk \<Rightarrow> go_error option \<times> disk" where
  "rename_file io old new dk =
     (case io_rename io new of
        Some err \<Rightarrow> (Some err, dk)
      | None \<Rightarrow>
          (case map_of (dk_files dk) old of
             None \<Rightarrow> (Some (ErrText [Lit ''no such file or directory'']), dk)
           | Some raw \<Rightarrow>
               (None, put_files (set_key new raw (filter (\<lambda>(p, _). p \<noteq> old) (dk_files dk))) dk)))"

definition remove_file :: "io \<Rightarrow> string \<Rightarrow> disk \<Rightarrow> disk" where
  "remove_file io path dk = (if io_remove io path then drop_file path dk else dk)"

text \<open>The JSON codec: decoding may leave the entries absent (a nil map).\<close>

record codec =
  js_decode :: "string \<Rightarrow> go_error + (int \<times> (string \<times> entry_state) list option)"
  js_encode :: "file_data \<Rightarrow> go_error + string"

definition codec_laws :: "codec \<Rightarrow> bool" where
  "codec_laws js \<longleftrightarrow>
     (\<forall>d raw. js_encode js d = Inr raw \<longrightarrow>
        (\<exists>m. js_decode js (raw @ [CHR 0x0A]) = Inr (fd_version d, Some m)
           \<and> map_of m = map_of (fd_entries d)))"

definition LoadState :: "codec \<Rightarrow> io \<Rightarrow> string \<Rightarrow> disk \<Rightarrow> store" where
  "LoadState js io path dk =
     (let s = \<lparr>st_path = path, st_data = emptyData\<rparr> in
      case map_of (dk_files dk) path of
        None \<Rightarrow> s
      | Some raw \<Rightarrow>
     (case io_read io path of
        Some err \<Rightarrow> s
      | None \<Rightarrow>
     (case js_decode js raw of
        Inl err \<Rightarrow> s
      | Inr (version, entries) \<Rightarrow>
          if version < fileVersion then s
          else s\<lparr>st_data := \<lparr>fd_version = version,
                   fd_entries = (case entries of None \<Rightarrow> [] | Some m \<Rightarrow> m)\<rparr>\<rparr>)))"

definition MissingFile :: "string \<Rightarrow> disk \<Rightarrow> bool" where
  "MissingFile path dk \<longleftrightarrow> map_of (dk_files dk) path = None"

definition tmp_path :: "string \<Rightarrow> string" where "tmp_path path = path @ ''.tmp''"

definition Save :: "codec \<Rightarrow> io \<Rightarrow> store \<Rightarrow> disk \<Rightarrow> go_error option \<times> store \<times> disk" where
  "Save js io s dk =
     (if st_path s = [] then (Some (ErrText [Lit ''state path is empty'']), s, dk)
      else case io_mkdir io (dir_path (st_path s)) of
        Some err \<Rightarrow> (Some (ErrWrap [Lit ''create state directory: ''] err), s, dk)
      | None \<Rightarrow>
      (let s = s\<lparr>st_data := (st_data s)\<lparr>fd_version := fileVersion\<rparr>\<rparr> in
       case js_encode js (st_data s) of
         Inl err \<Rightarrow> (Some (ErrWrap [Lit ''marshal state: ''] err), s, dk)
       | Inr raw \<Rightarrow>
       (let tmp = tmp_path (st_path s) in
        case write_file io tmp (raw @ [CHR 0x0A]) dk of
          (Some err, dk) \<Rightarrow> (Some (ErrWrap [Lit ''write state temp file: ''] err), s, dk)
        | (None, dk) \<Rightarrow>
            (case rename_file io tmp (st_path s) dk of
               (Some err, dk) \<Rightarrow>
                 (Some (ErrWrap [Lit ''rename state file: ''] err), s, remove_file io tmp dk)
             | (None, dk) \<Rightarrow> (None, s, dk)))))"

definition AfterPass :: "codec \<Rightarrow> io \<Rightarrow> int \<Rightarrow> string list \<Rightarrow> update_available list \<Rightarrow> bool \<Rightarrow> store \<Rightarrow> disk
    \<Rightarrow> go_error option \<times> store \<times> disk" where
  "AfterPass js io now activeKeys notified canPrune s dk =
     (let s = (if notified \<noteq> [] then Record now notified s else s);
          s = (if canPrune then Prune activeKeys s else s)
      in Save js io s dk)"

section \<open>The contract\<close>

text \<open>
  What the store promises: \<open>memory\<close> is the map from keys to announced targets; recording overrides
  it batch by batch, the last update of a key winning, pruning restricts it, and an update is new
  unless exactly its target is remembered under its key.
\<close>

definition announce :: "('u \<Rightarrow> 'k) \<Rightarrow> ('u \<Rightarrow> 't) \<Rightarrow> 'u list \<Rightarrow> ('k \<rightharpoonup> 't) \<Rightarrow> ('k \<rightharpoonup> 't)" where
  "announce key target us m = foldl (\<lambda>m u. m(key u \<mapsto> target u)) m us"

lemma announce_snoc: "announce key target (us @ [v]) m = (announce key target us m)(key v \<mapsto> target v)"
  by (simp add: announce_def)

lemma announce_other: "k \<notin> key ` set us \<Longrightarrow> announce key target us m k = m k"
proof (induction us rule: rev_induct)
  case (snoc v us)
  from snoc.prems have k: "k \<noteq> key v" and ks: "k \<notin> key ` set us" by simp_all
  from snoc.IH [OF ks] k show ?case by (simp add: announce_snoc)
qed (simp add: announce_def)

lemma announce_last:
  "u \<in> set us \<Longrightarrow> (\<forall>v\<in>set us. key v = key u \<longrightarrow> target v = target u) \<Longrightarrow>
     announce key target us m (key u) = Some (target u)"
proof (induction us rule: rev_induct)
  case (snoc v us)
  show ?case
  proof (cases "key v = key u")
    case True
    with snoc.prems(2) have "target v = target u" by simp
    with True show ?thesis by (simp add: announce_snoc)
  next
    case False
    with snoc.prems(1) have u: "u \<in> set us" by auto
    have "\<forall>x\<in>set us. key x = key u \<longrightarrow> target x = target u" using snoc.prems(2) by simp
    from snoc.IH [OF u this] False show ?thesis by (simp add: announce_snoc)
  qed
qed simp

locale update_memory =
  fixes memory :: "'st \<Rightarrow> 'k \<rightharpoonup> 't"
    and key :: "'u \<Rightarrow> 'k"
    and target :: "'u \<Rightarrow> 't"
    and is_new :: "'st \<Rightarrow> 'u \<Rightarrow> bool"
    and remember :: "'u list \<Rightarrow> 'st \<Rightarrow> 'st"
    and forget :: "'k list \<Rightarrow> 'st \<Rightarrow> 'st"
  assumes new_iff: "is_new st u \<longleftrightarrow> memory st (key u) \<noteq> Some (target u)"
    and memory_remember: "memory (remember us st) = announce key target us (memory st)"
    and memory_forget: "memory (forget ks st) = memory st |` set ks"
begin

definition consistent :: "'u list \<Rightarrow> bool" where
  "consistent us \<longleftrightarrow> (\<forall>u\<in>set us. \<forall>v\<in>set us. key u = key v \<longrightarrow> target u = target v)"

text \<open>What was remembered and not forgotten is not new.\<close>

lemma remembered_not_new:
  assumes "consistent us" and "u \<in> set us" and "key u \<in> set ks"
  shows "\<not> is_new (forget ks (remember us st)) u"
proof -
  have "\<forall>v\<in>set us. key v = key u \<longrightarrow> target v = target u"
    using assms(1,2) unfolding consistent_def by metis
  from announce_last [OF assms(2) this, of "memory st"] assms(3) show ?thesis
    by (simp add: new_iff memory_remember memory_forget)
qed

text \<open>An update of another key is as new as before, as long as its key is kept.\<close>

lemma other_unchanged:
  "key u \<notin> key ` set us \<Longrightarrow> key u \<in> set ks \<Longrightarrow>
     is_new (forget ks (remember us st)) u \<longleftrightarrow> is_new st u"
  by (simp add: new_iff memory_remember memory_forget announce_other)

text \<open>What is no longer kept is new again.\<close>

lemma forgotten_new: "key u \<notin> set ks \<Longrightarrow> is_new (forget ks st) u"
  by (simp add: new_iff memory_forget)

text \<open>
  The second of two passes that find the same updates, all of them kept, has nothing to announce.
\<close>

lemma second_pass_silent:
  assumes "consistent us" and "key ` set us \<subseteq> set ks"
  shows "filter (is_new (forget ks (remember (filter (is_new st) us) st))) us = []"
proof -
  have "\<not> is_new (forget ks (remember (filter (is_new st) us) st)) u" if u: "u \<in> set us" for u
  proof (cases "is_new st u")
    case True
    have "consistent (filter (is_new st) us)"
      using assms(1) by (auto simp: consistent_def)
    from remembered_not_new [OF this, of u] True u assms(2) show ?thesis by auto
  next
    case False
    show ?thesis
    proof (cases "key u \<in> key ` set (filter (is_new st) us)")
      case True
      then obtain v where v: "v \<in> set us" "is_new st v" "key v = key u" by auto
      with assms(1) u have "target v = target u" unfolding consistent_def by metis
      with v False show ?thesis by (simp add: new_iff)
    next
      case other: False
      with False u assms(2) other_unchanged [OF other] show ?thesis by auto
    qed
  qed
  then show ?thesis by (simp add: filter_empty_conv)
qed

end

definition targets_of :: "(string \<times> entry_state) list \<Rightarrow> string \<rightharpoonup> string \<times> string" where
  "targets_of m k = map_option (\<lambda>e. (es_mode e, es_value e)) (map_of m k)"

definition remembered :: "store \<Rightarrow> string \<rightharpoonup> string \<times> string" where
  "remembered s = targets_of (fd_entries (st_data s))"

lemma isNew_remembered [store_simps]: "isNew s u \<longleftrightarrow> remembered s (EntryKey u) \<noteq> Some (targetFor u)"
  by (auto simp: isNew_def remembered_def targets_of_def split: option.splits prod.splits)

lemma targets_record_one: "targets_of (record_one now m u) = (targets_of m)(EntryKey u \<mapsto> targetFor u)"
  by (auto simp: record_one_def targets_of_def fun_eq_iff split: prod.splits)

lemma remembered_Record [store_simps]:
  "remembered (Record now us s) = announce EntryKey targetFor us (remembered s)"
proof -
  have "targets_of (foldl (record_one now) m us) = announce EntryKey targetFor us (targets_of m)" for m
  proof (induction us rule: rev_induct)
    case (snoc u us)
    then show ?case by (simp add: announce_snoc targets_record_one)
  qed (simp add: announce_def)
  then show ?thesis by (simp add: remembered_def Record_def on_entries_def)
qed

lemma remembered_Prune [store_simps]: "remembered (Prune ks s) = remembered s |` set ks"
  by (auto simp: remembered_def targets_of_def Prune_def on_entries_def map_of_filter_key
      restrict_map_def fun_eq_iff)

interpretation notification_memory:
  update_memory remembered EntryKey targetFor isNew "Record now" Prune for now
  by unfold_locales (simp_all add: store_simps)

section \<open>The file is replaced in one step\<close>

lemma tmp_path_neq [simp]: "tmp_path p \<noteq> p" "p \<noteq> tmp_path p"
  by (simp_all add: tmp_path_def)

definition contents :: "string \<Rightarrow> disk \<Rightarrow> string option" where
  "contents path dk = map_of (dk_files dk) path"

text \<open>Every content of a file from a point of the history on.\<close>

definition seen_since :: "disk \<Rightarrow> disk \<Rightarrow> string \<Rightarrow> string option set" where
  "seen_since dk dk' path =
     (\<lambda>fs. map_of fs path) ` set (drop (length (dk_past dk)) (dk_past dk') @ [dk_files dk'])"

lemma map_of_drop_file: "map_of (filter (\<lambda>(p, _). p \<noteq> q) fs) k = (if k = q then None else map_of fs k)"
  using map_of_filter_key [of "- {q}" fs] by (auto simp: restrict_map_def)

lemma seen_since_refl [simp]: "seen_since dk dk path = {contents path dk}"
  by (simp add: seen_since_def contents_def)

lemma contents_put [simp]:
  "contents path (put_file q raw dk) = (if path = q then Some raw else contents path dk)"
  by (simp add: contents_def put_file_def put_files_def)

lemma write_file_effect:
  assumes "write_file io tmp raw dk = (r, dk')"
  shows "path \<noteq> tmp \<Longrightarrow> seen_since dk dk' path = {contents path dk} \<and> contents path dk' = contents path dk"
    and "\<exists>ext. dk_past dk' = dk_past dk @ ext"
    and "r = None \<Longrightarrow> contents tmp dk' = Some raw"
  using assms
  by (auto simp: write_file_def Let_def put_file_def put_files_def seen_since_def contents_def
      split: option.splits prod.splits)

lemma rename_file_effect:
  assumes "rename_file io tmp path dk = (r, dk')" and "tmp \<noteq> path"
  shows "r \<noteq> None \<Longrightarrow> dk' = dk"
    and "r = None \<Longrightarrow> contents path dk' = contents tmp dk \<and> contents tmp dk' = None
           \<and> dk_past dk' = dk_past dk @ [dk_files dk] \<and> contents tmp dk \<noteq> None"
  using assms
  by (auto simp: rename_file_def put_files_def contents_def map_of_drop_file split: option.splits)

lemma remove_file_effect:
  assumes "path \<noteq> tmp"
  shows "contents path (remove_file io tmp dk) = contents path dk"
    and "seen_since dk0 dk path = {c} \<Longrightarrow> \<exists>ext. dk_past dk = dk_past dk0 @ ext \<Longrightarrow>
      seen_since dk0 (remove_file io tmp dk) path = {c}"
  using assms
  by (auto simp: remove_file_def drop_file_def put_files_def contents_def map_of_drop_file
      seen_since_def)

text \<open>The three ways a save ends, in terms of the state file only.\<close>

lemma Save_cases:
  assumes "Save js io s dk = (r, s', dk')"
  shows "(r \<noteq> None \<and> contents (st_path s) dk' = contents (st_path s) dk
       \<and> seen_since dk dk' (st_path s) = {contents (st_path s) dk})
    \<or> (r = None \<and> (\<exists>raw. js_encode js (st_data s') = Inr raw
         \<and> contents (st_path s) dk' = Some (raw @ [CHR 0x0A])
         \<and> contents (tmp_path (st_path s)) dk' = None
         \<and> seen_since dk dk' (st_path s) \<subseteq> {contents (st_path s) dk, Some (raw @ [CHR 0x0A])}))"
proof (cases "st_path s = [] \<or> io_mkdir io (dir_path (st_path s)) \<noteq> None")
  case True
  then have "r \<noteq> None \<and> dk' = dk"
    using assms by (cases "st_path s = []"; cases "io_mkdir io (dir_path (st_path s))")
      (simp_all add: Save_def, blast+)
  then show ?thesis by simp
next
  case False
  then have ne: "st_path s \<noteq> []" and mk: "io_mkdir io (dir_path (st_path s)) = None" by simp_all
  let ?p = "st_path s" and ?t = "tmp_path (st_path s)"
  let ?s = "s\<lparr>st_data := (st_data s)\<lparr>fd_version := fileVersion\<rparr>\<rparr>"
  show ?thesis
  proof (cases "js_encode js (st_data ?s)")
    case (Inl err)
    with ne mk assms have "r \<noteq> None \<and> dk' = dk" by (simp add: Save_def Let_def) blast
    then show ?thesis by simp
  next
    case (Inr raw)
    obtain wr dk1 where w: "write_file io ?t (raw @ [CHR 0x0A]) dk = (wr, dk1)"
      by (cases "write_file io ?t (raw @ [CHR 0x0A]) dk")
    note W = write_file_effect [OF w]
    show ?thesis
    proof (cases wr)
      case (Some err)
      with ne mk Inr w assms have "r \<noteq> None \<and> dk' = dk1" by (simp add: Save_def Let_def) blast
      with W(1) [of ?p] show ?thesis by simp
    next
      case None
      obtain rr dk2 where rn: "rename_file io ?t ?p dk1 = (rr, dk2)"
        by (cases "rename_file io ?t ?p dk1")
      note R = rename_file_effect [OF rn tmp_path_neq(1)]
      show ?thesis
      proof (cases rr)
        case (Some err)
        with R have "dk2 = dk1" by simp
        with Some None ne mk Inr w rn assms have "r \<noteq> None \<and> dk' = remove_file io ?t dk1"
          by (simp add: Save_def Let_def) blast
        with W(1) [of ?p] W(2) remove_file_effect [of ?p ?t] show ?thesis by simp
      next
        case rok: None
        with None ne mk Inr w rn assms have r: "r = None" "dk' = dk2" "s' = ?s"
          by (simp_all add: Save_def Let_def)
        have c: "contents ?p dk2 = Some (raw @ [CHR 0x0A])" "contents ?t dk2 = None"
          using R(2) [OF rok] W(3) [OF None] by simp_all
        have "set (drop (length (dk_past dk)) (dk_past dk2))
            = set (drop (length (dk_past dk)) (dk_past dk1) @ [dk_files dk1])"
          using R(2) [OF rok] W(2) by auto
        then have "seen_since dk dk2 ?p = insert (contents ?p dk2) (seen_since dk dk1 ?p)"
          by (auto simp: seen_since_def contents_def)
        with W(1) [of ?p] c have "seen_since dk dk2 ?p \<subseteq> {contents ?p dk, Some (raw @ [CHR 0x0A])}"
          by simp
        with r c Inr show ?thesis by simp
      qed
    qed
  qed
qed

lemma Save_store:
  assumes "Save js io s dk = (r, s', dk')"
  shows "remembered s' = remembered s" and "st_path s' = st_path s"
    and "r = None \<Longrightarrow> fd_version (st_data s') = fileVersion"
  using assms
  by (auto simp: Save_def Let_def remembered_def split: if_splits option.splits sum.splits prod.splits)

lemma AfterPass_memory:
  assumes "AfterPass js io now ks us canPrune s dk = (r, s', dk')"
  shows "remembered s' = (let m = announce EntryKey targetFor us (remembered s)
      in if canPrune then m |` set ks else m)"
  using Save_store(1) [OF assms [unfolded AfterPass_def Let_def]]
  by (auto simp: store_simps announce_def)

lemma AfterPass_known:
  assumes "AfterPass js io now ks (fst (Filter s us)) canPrune s dk = (r, s', dk')"
    and "\<forall>u\<in>set us. \<forall>v\<in>set us. EntryKey u = EntryKey v \<longrightarrow> targetFor u = targetFor v"
    and "EntryKey ` set us \<subseteq> set ks" and "u \<in> set us"
  shows "remembered s' (EntryKey u) = Some (targetFor u)"
proof -
  let ?m = "announce EntryKey targetFor (filter (isNew s) us) (remembered s)"
  have m: "remembered s' = (if canPrune then ?m |` set ks else ?m)"
    using AfterPass_memory [OF assms(1)] by (simp add: Filter_def)
  have "filter (isNew (Prune ks (Record now (filter (isNew s) us) s))) us = []"
    by (rule notification_memory.second_pass_silent [OF _ assms(3)])
      (unfold notification_memory.consistent_def, rule assms(2))
  then have "\<not> isNew (Prune ks (Record now (filter (isNew s) us) s)) u"
    using assms(4) by (simp add: filter_empty_conv)
  with assms(3,4) show ?thesis by (auto simp: store_simps m)
qed

lemma Save_reload:
  assumes "codec_laws js" and "Save js io s dk = (None, s', dk')" and "io_read io' (st_path s) = None"
  shows "remembered (LoadState js io' (st_path s) dk') = remembered s"
proof -
  from Save_cases [OF assms(2)] obtain raw where raw: "js_encode js (st_data s') = Inr raw"
      "map_of (dk_files dk') (st_path s) = Some (raw @ [CHR 0x0A])"
    by (auto simp: contents_def)
  from assms(1) raw(1) obtain m where m: "js_decode js (raw @ [CHR 0x0A]) = Inr (fd_version (st_data s'), Some m)"
      "map_of m = map_of (fd_entries (st_data s'))"
    unfolding codec_laws_def by blast
  have "fd_version (st_data s') = fileVersion"
    using Save_store(3) [OF assms(2)] by simp
  then have "remembered (LoadState js io' (st_path s) dk') = remembered s'"
    using raw(2) m assms(3)
    by (simp add: LoadState_def Let_def remembered_def targets_of_def [abs_def])
  then show ?thesis
    using Save_store(1) [OF assms(2)] by simp
qed

lemma AfterPass_reload:
  assumes "codec_laws js" and "AfterPass js io now ks us canPrune s dk = (None, s', dk')"
    and "io_read io' (st_path s) = None"
  shows "remembered (LoadState js io' (st_path s') dk') = remembered s' \<and> st_path s' = st_path s"
proof -
  let ?s = "if canPrune then Prune ks (if us \<noteq> [] then Record now us s else s)
      else (if us \<noteq> [] then Record now us s else s)"
  have p: "st_path ?s = st_path s"
    by (simp add: Prune_def Record_def on_entries_def)
  have sv: "Save js io ?s dk = (None, s', dk')"
    using assms(2) by (simp add: AfterPass_def Let_def)
  from Save_reload [OF assms(1) sv] Save_store(1,2) [OF sv] assms(3) p show ?thesis
    by simp
qed

text \<open>A store with one entry, a codec that writes just it, and a machine whose calls succeed.\<close>

definition demo_data :: file_data where
  "demo_data = \<lparr>fd_version = fileVersion,
     fd_entries = [(''web|ghcr.io/a/b'', \<lparr>es_mode = target_semver, es_value = ''1.2'', es_notified_at = 0\<rparr>)]\<rparr>"

definition demo_codec :: codec where
  "demo_codec =
     \<lparr>js_decode = (\<lambda>raw. if raw = ''{}'' @ [CHR 0x0A] then Inr (fileVersion, Some (fd_entries demo_data))
                       else Inl (ErrText [Lit ''bad json''])),
      js_encode = (\<lambda>d. if d = demo_data then Inr ''{}'' else Inl (ErrText [Lit ''no room'']))\<rparr>"

definition demo_io :: io where
  "demo_io = \<lparr>io_read = (\<lambda>_. None), io_mkdir = (\<lambda>_. None), io_open = (\<lambda>_. None),
     io_write = (\<lambda>_. None), io_rename = (\<lambda>_. None), io_remove = (\<lambda>_. True)\<rparr>"

definition demo_store :: store where
  "demo_store = \<lparr>st_path = ''s'', st_data = demo_data\<rparr>"

definition demo_update :: update_available where
  "demo_update =
     \<lparr>u_container = \<lparr>c_id = ''0'', c_name = ''web'', c_image_ref = ''ghcr.io/a/b:1.1'', c_labels = []\<rparr>,
      u_host = ''ghcr.io'', u_repo = ''a/b'', u_current_tag = ''1.1'', u_latest_tag = ''1.2'',
      u_bump = BumpMinor, u_local_digest = [], u_remote_digest = [], u_checked_at = 0\<rparr>"

definition demo_disk :: disk where "demo_disk = \<lparr>dk_files = [], dk_past = []\<rparr>"

lemma demo_codec_laws: "codec_laws demo_codec"
  by (simp add: codec_laws_def demo_codec_def demo_data_def)

lemma demo_saved:
  "Save demo_codec demo_io demo_store demo_disk =
     (None, demo_store, snd (snd (Save demo_codec demo_io demo_store demo_disk)))"
  by (simp add: Save_def Let_def demo_io_def demo_store_def demo_codec_def demo_data_def demo_disk_def
      write_file_def rename_file_def put_file_def put_files_def)

lemma demo_key: "EntryKey demo_update = ''web|ghcr.io/a/b''"
  by (simp add: EntryKey_def FormatEntryKey_def demo_update_def)

lemma demo_known: "\<not> isNew demo_store demo_update"
  by (simp add: isNew_def demo_key demo_store_def demo_data_def)
    (simp add: demo_update_def targetFor_def)

section \<open>Properties\<close>

text \<open>
  C6. The state file is replaced atomically. Whatever system call fails, and wherever a crash cuts the
  save off, the state file is seen either with its old content or with the complete new one; a save
  that reports an error leaves the old content, and one that reports success leaves the new content
  and no temporary file.
\<close>
theorem Save_atomic:
  assumes "Save js io s dk = (r, s', dk')"
  shows "\<exists>raw. seen_since dk dk' (st_path s) \<subseteq> {contents (st_path s) dk, Some raw}
    \<and> (r \<noteq> None \<longrightarrow> contents (st_path s) dk' = contents (st_path s) dk)
    \<and> (r = None \<longrightarrow> contents (st_path s) dk' = Some raw
         \<and> contents (tmp_path (st_path s)) dk' = None
         \<and> (\<exists>doc. js_encode js (st_data s') = Inr doc \<and> raw = doc @ [CHR 0x0A]))"
  using Save_cases [OF assms] by (cases r) auto

theorem Save_atomic_witness:
  "contents ''s'' (snd (snd (Save demo_codec demo_io demo_store demo_disk))) = Some (''{}'' @ [CHR 0x0A])"
  using Save_atomic [OF demo_saved] by (auto simp: demo_codec_def demo_store_def split: if_splits)

text \<open>
  What was saved is what a restarted process loads: after a successful save the store read back
  from the same path remembers exactly the announced targets the saved one did, so the same updates
  are new to both.
\<close>
theorem Save_Load:
  assumes "codec_laws js" and "Save js io s dk = (None, s', dk')" and "io_read io' (st_path s) = None"
  shows "remembered (LoadState js io' (st_path s) dk') = remembered s
    \<and> isNew (LoadState js io' (st_path s) dk') u = isNew s u"
  using Save_reload [OF assms] by (simp add: store_simps)

theorem Save_Load_witness:
  "\<not> isNew (LoadState demo_codec demo_io ''s'' (snd (snd (Save demo_codec demo_io demo_store demo_disk)))) demo_update"
proof -
  have "io_read demo_io (st_path demo_store) = None" by (simp add: demo_io_def)
  from Save_Load [OF demo_codec_laws demo_saved this, of demo_update] demo_known
  show ?thesis by (simp add: demo_store_def)
qed

text \<open>
  C5. An update is announced once: when the announced updates of a pass were recorded and their keys
  are still in the fleet, a next pass that finds the same updates has nothing new to announce - an
  update whose target changed, or whose container disappeared in between, is new again.
\<close>
theorem announce_once:
  assumes "AfterPass js io now ks (fst (Filter s us)) canPrune s dk = (r, s', dk')"
    and "\<forall>u\<in>set us. \<forall>v\<in>set us. EntryKey u = EntryKey v \<longrightarrow> targetFor u = targetFor v"
    and "EntryKey ` set us \<subseteq> set ks"
  shows "fst (Filter s' us) = []
    \<and> (\<forall>u\<in>set us. \<forall>v. EntryKey v = EntryKey u \<longrightarrow> (isNew s' v \<longleftrightarrow> targetFor v \<noteq> targetFor u))
    \<and> (\<forall>v. canPrune \<longrightarrow> EntryKey v \<notin> set ks \<longrightarrow> isNew s' v)"
proof -
  note known = AfterPass_known [OF assms]
  then have "fst (Filter s' us) = []"
    by (auto simp: Filter_def filter_empty_conv store_simps)
  moreover have "isNew s' v \<longleftrightarrow> targetFor v \<noteq> targetFor u"
      if "u \<in> set us" "EntryKey v = EntryKey u" for u v
    using known [OF that(1)] that(2) by (auto simp: store_simps)
  moreover have "isNew s' v" if "canPrune" "EntryKey v \<notin> set ks" for v
    using that by (simp add: store_simps AfterPass_memory [OF assms(1)] Let_def)
  ultimately show ?thesis by blast
qed

theorem announce_once_witness:
  "\<exists>r s' dk'. AfterPass demo_codec demo_io 7 [''web|ghcr.io/a/b''] (fst (Filter \<lparr>st_path = ''s'', st_data = emptyData\<rparr>
       [demo_update])) True \<lparr>st_path = ''s'', st_data = emptyData\<rparr> demo_disk = (r, s', dk')
     \<and> fst (Filter s' [demo_update]) = []"
proof -
  let ?s = "\<lparr>st_path = ''s'', st_data = emptyData\<rparr>"
  obtain r s' dk' where a: "AfterPass demo_codec demo_io 7 [''web|ghcr.io/a/b''] (fst (Filter ?s [demo_update]))
      True ?s demo_disk = (r, s', dk')"
    by (metis prod_cases3)
  from announce_once [OF a] show ?thesis using a by (simp add: demo_key)
qed

text \<open>
  Monitoring never blocks on a bad state file: a missing, unreadable, corrupt or older file gives
  an empty memory, in which every update is new.
\<close>
theorem Load_never_blocks:
  assumes "case map_of (dk_files dk) path of None \<Rightarrow> True
     | Some raw \<Rightarrow> io_read io path \<noteq> None
         \<or> (case js_decode js raw of Inl _ \<Rightarrow> True | Inr (v, _) \<Rightarrow> v < fileVersion)"
  shows "remembered (LoadState js io path dk) = Map.empty \<and> isNew (LoadState js io path dk) u
    \<and> EntryCount (LoadState js io path dk) = 0"
proof -
  have "LoadState js io path dk = \<lparr>st_path = path, st_data = emptyData\<rparr>"
    using assms
    by (cases "map_of (dk_files dk) path"; cases "io_read io path";
        cases "js_decode js (the (map_of (dk_files dk) path))") (auto simp: LoadState_def Let_def)
  then show ?thesis
    by (auto simp: remembered_def targets_of_def emptyData_def EntryCount_def store_simps)
qed

theorem Load_never_blocks_witness:
  "isNew (LoadState demo_codec demo_io ''s'' \<lparr>dk_files = [(''s'', ''garbage'')], dk_past = []\<rparr>) demo_update"
  using Load_never_blocks [where dk = "\<lparr>dk_files = [(''s'', ''garbage'')], dk_past = []\<rparr>" and path = "''s''"
      and io = demo_io and js = demo_codec and u = demo_update]
  by (simp add: demo_codec_def)

text \<open>
  Two containers share a state key only if they agree in name and image: for names without a bar
  and hosts without a slash the key determines the name (or what stands in for it), the host and the
  repository.
\<close>
theorem FormatEntryKey_inj:
  assumes "FormatEntryKey name cid host repo = FormatEntryKey name' cid' host' repo'"
    and "CHR ''|'' \<notin> set name \<union> set cid \<union> set name' \<union> set cid'"
    and "CHR ''/'' \<notin> set host \<union> set host'"
  shows "host = host' \<and> repo = repo'
    \<and> (if name = [] then shortContainerID cid else name)
       = (if name' = [] then shortContainerID cid' else name')
    \<and> (name \<noteq> [] \<and> name' \<noteq> [] \<longrightarrow> name = name')"
proof -
  have short: "CHR ''|'' \<notin> set (shortContainerID c)" if "CHR ''|'' \<notin> set c" for c
    using that by (auto simp: shortContainerID_def dest: in_set_takeD)
  have split: "c \<notin> set a \<Longrightarrow> c \<notin> set a' \<Longrightarrow> a @ c # b = a' @ c # b' \<Longrightarrow> a = a' \<and> b = b'"
    for a a' b b' :: string and c
  proof -
    assume c: "c \<notin> set a" "c \<notin> set a'" and eq: "a @ c # b = a' @ c # b'"
    have "a # split_on c b = a' # split_on c b'"
      using split_on_append [OF c(1), of b] split_on_append [OF c(2), of b'] eq by simp
    with eq show "a = a' \<and> b = b'" by simp
  qed
  have "(if name = [] then shortContainerID cid else name) = (if name' = [] then shortContainerID cid' else name')
      \<and> host @ CHR ''/'' # repo = host' @ CHR ''/'' # repo'"
    by (rule split [of "CHR ''|''"]) (use assms short in \<open>auto simp: FormatEntryKey_def Let_def\<close>)
  moreover from this have "host = host' \<and> repo = repo'"
    by (intro split [of "CHR ''/''"]) (use assms in auto)
  ultimately show ?thesis by auto
qed

theorem FormatEntryKey_inj_witness:
  "FormatEntryKey ''web'' ''1'' ''ghcr.io'' ''a/b'' \<noteq> FormatEntryKey ''web'' ''1'' ''ghcr.io'' ''a/c''"
  using FormatEntryKey_inj [of "''web''" "''1''" "''ghcr.io''" "''a/b''" "''web''" "''1''" "''ghcr.io''" "''a/c''"]
  by auto

end
