(* ===== verification/Engine.thy ===== *)
theory Engine
  imports Watch Tracking RegistryPass StateStore
begin

text \<open>
  One detection pass (\<open>internal/core/engine.go\<close>): list the running containers, keep the monitored
  ones, and check each against its registry through the layer of \<open>RegistryPass\<close>. The provider is a
  record of its three calls, the parser of image references and the semver library are fields of the
  engine. What changes during a pass is in \<open>engine_state\<close>: the diagnostics, the pass cache, the
  world. Fuel is what the retry functions need; \<open>None\<close> is a pass that has not finished.
\<close>

section \<open>Types\<close>

datatype reason = Reason msg | ReasonErr msg go_error

datatype checkStatus = statusUpToDate | statusUpdate | statusSkipped

record containerResult =
  cr_container :: container
  cr_status :: checkStatus
  cr_reason :: reason
  cr_current_tag :: string
  cr_latest_tag :: string
  cr_local_digest :: string
  cr_remote_digest :: string
  cr_image_ref :: string
  cr_update :: "update_available option"
  cr_quiet :: bool

record 'w provider =
  pv_ListRunning :: "ctx \<Rightarrow> 'w \<Rightarrow> (go_error + container list) \<times> 'w"
  pv_LocalDigest :: "ctx \<Rightarrow> container \<Rightarrow> string \<Rightarrow> 'w \<Rightarrow> (go_error + string) \<times> 'w"
  pv_Ping :: "ctx \<Rightarrow> 'w \<Rightarrow> go_error option \<times> 'w"

record ('v, 'w) engine =
  en_provider :: "'w provider"
  en_registries :: "'w registry list"
  en_timeouts :: timeouts
  en_rules :: "resolver option"
  en_rule_lines :: "rule_query \<Rightarrow> log_line list"
  en_exclude :: "string list option"
  en_semver :: "'v semver"
  en_parse :: ref_parser
  en_env :: "'w env"

text \<open>The libraries the engine is linked with (\<open>libs\<close>) stay; the keys of the warnings are empty at first.\<close>

definition NewEngine :: "('v, 'w) engine \<Rightarrow> 'w provider \<Rightarrow> 'w registry list \<Rightarrow> timeouts \<Rightarrow> resolver option
    \<Rightarrow> (rule_query \<Rightarrow> log_line list) \<Rightarrow> string list option \<Rightarrow> ('v, 'w) engine" where
  "NewEngine libs prov registries timeouts rules rule_lines exclude =
     libs\<lparr>en_provider := prov, en_registries := registries, en_timeouts := timeouts, en_rules := rules,
       en_rule_lines := rule_lines, en_exclude := exclude\<rparr>"

lemma NewEngine_simps [simp]:
  "en_provider (NewEngine libs p r t ru rl x) = p" "en_registries (NewEngine libs p r t ru rl x) = r"
  "en_timeouts (NewEngine libs p r t ru rl x) = t" "en_rules (NewEngine libs p r t ru rl x) = ru"
  "en_rule_lines (NewEngine libs p r t ru rl x) = rl" "en_exclude (NewEngine libs p r t ru rl x) = x"
  "en_semver (NewEngine libs p r t ru rl x) = en_semver libs" "en_parse (NewEngine libs p r t ru rl x) = en_parse libs"
  "en_env (NewEngine libs p r t ru rl x) = en_env libs"
  by (simp_all add: NewEngine_def)

record 'w engine_state =
  eg_diag :: diag
  eg_pass :: pass
  eg_world :: 'w

definition base_result :: "container \<Rightarrow> containerResult" where
  "base_result c =
     \<lparr>cr_container = c, cr_status = statusSkipped, cr_reason = Reason [], cr_current_tag = [],
      cr_latest_tag = [], cr_local_digest = [], cr_remote_digest = [], cr_image_ref = c_image_ref c,
      cr_update = None, cr_quiet = False\<rparr>"

definition skipped :: "containerResult \<Rightarrow> reason \<Rightarrow> containerResult" where
  "skipped base reason = base\<lparr>cr_status := statusSkipped, cr_reason := reason\<rparr>"

section \<open>Errors of registry requests\<close>

definition is_dns :: "go_error \<Rightarrow> bool" where
  "is_dns e = (case e of ErrDNS _ \<Rightarrow> True | _ \<Rightarrow> False)"

definition is_op :: "go_error \<Rightarrow> bool" where
  "is_op e = (case e of ErrOp _ \<Rightarrow> True | _ \<Rightarrow> False)"

definition isTransientRegistryError :: "go_error \<Rightarrow> bool" where
  "isTransientRegistryError err \<longleftrightarrow>
     err_is err ErrDeadline \<or> err_is err ErrCanceled
     \<or> err_is err ErrEOF \<or> err_is err ErrUnexpectedEOF
     \<or> err_as_net err \<or> list_ex is_dns (err_chain err) \<or> list_ex is_op (err_chain err)"

definition txt_not_found :: string where
  "txt_not_found = ''not found in registry / locally built''"
definition txt_rate_limited :: string where
  "txt_rate_limited = ''registry rate limited, will retry next pass''"
definition txt_unavailable :: string where
  "txt_unavailable = ''registry temporarily unavailable''"
definition txt_timeout :: string where
  "txt_timeout = '' timeout/network error, will retry next pass''"
definition txt_no_local :: string where
  "txt_no_local = ''no local digest (locally built or not pulled from registry)''"
definition txt_bare :: string where "txt_bare = ''bare digest reference''"
definition txt_digest_only :: string where "txt_digest_only = ''digest-only reference''"
definition txt_tag_mismatch :: string where
  "txt_tag_mismatch = ''current tag does not match include rule''"
definition txt_no_tags :: string where "txt_no_tags = ''no tags match include rule''"
definition txt_no_semver :: string where "txt_no_semver = ''no matching semver tags in registry''"
definition txt_no_numeric :: string where "txt_no_numeric = ''no matching numeric tags in registry''"

text \<open>\<open>ctx_err\<close> is the parent context's \<open>Err()\<close> when the request has failed.\<close>

definition mapRegistryRequestError :: "go_error option \<Rightarrow> containerResult \<Rightarrow> string \<Rightarrow> string \<Rightarrow> go_error
    \<Rightarrow> go_error + containerResult" where
  "mapRegistryRequestError ctx_err base op target err =
     (case ctx_err of
        Some e \<Rightarrow> Inl e
      | None \<Rightarrow>
          if err_is err ErrNotFound \<or> err_is err ErrUnauthorized then
            Inr (skipped base (Reason [Lit txt_not_found]))
          else if err_is err ErrRateLimited then Inr (skipped base (Reason [Lit txt_rate_limited]))
          else if err_is err ErrUnavailable then Inr (skipped base (Reason [Lit txt_unavailable]))
          else if isTransientRegistryError err then
            Inr (skipped base (Reason [Str op, Lit txt_timeout]))
          else Inl (ErrWrap [Str op, Lit '' for '', Str target, Lit '': ''] err))"

fun registryForHost :: "'w registry list \<Rightarrow> string \<Rightarrow> go_error + 'w registry" where
  "registryForHost [] host = Inl (ErrText [Lit ''no registry configured for host '', Str host])"
| "registryForHost (reg # regs) host =
     (if reg_host reg = host then Inr reg else registryForHost regs host)"

section \<open>Checking tags\<close>

definition tag_update :: "container \<Rightarrow> parsed \<Rightarrow> string \<Rightarrow> string \<Rightarrow> int \<Rightarrow> update_available" where
  "tag_update c parsed latestTag bump now =
     \<lparr>u_container = c, u_host = p_host parsed, u_repo = p_repo parsed, u_current_tag = p_tag parsed,
      u_latest_tag = latestTag, u_bump = bump, u_local_digest = [], u_remote_digest = [],
      u_checked_at = now\<rparr>"

definition tag_result :: "container \<Rightarrow> parsed \<Rightarrow> string \<Rightarrow> update_available option \<Rightarrow> containerResult" where
  "tag_result c parsed latestTag update =
     (base_result c)
       \<lparr>cr_status := (case update of None \<Rightarrow> statusUpToDate | Some _ \<Rightarrow> statusUpdate),
        cr_current_tag := p_tag parsed, cr_latest_tag := latestTag, cr_update := update\<rparr>"

definition checkNumeric :: "'v semver \<Rightarrow> container \<Rightarrow> parsed \<Rightarrow> string list \<Rightarrow> int \<Rightarrow> diag
    \<Rightarrow> containerResult \<times> diag" where
  "checkNumeric sv c parsed tags now d =
     (case parseNumericVersion (p_tag parsed) of
        None \<Rightarrow> (skipped (base_result c) (Reason [Lit ''parse numeric tag failed'']), d)
      | Some current \<Rightarrow>
     (case selectNumericTag current tags of
        None \<Rightarrow>
          (skipped (base_result c) (Reason [Lit txt_no_numeric]),
           logSkippedBareNumericCandidates sv (c_name c) (p_repo parsed) current no_numeric tags d)
      | Some (latestTag, latest) \<Rightarrow>
          (let d = logSkippedBareNumericCandidates sv (c_name c) (p_repo parsed) current latest tags d in
           if 0 < compareNumeric latest current then
             (tag_result c parsed latestTag
                (Some (tag_update c parsed latestTag (numericBump current latest) now)), d)
           else (tag_result c parsed latestTag None, d))))"

definition checkSemver :: "'v semver \<Rightarrow> bool \<Rightarrow> container \<Rightarrow> parsed \<Rightarrow> string list \<Rightarrow> int \<Rightarrow> diag
    \<Rightarrow> containerResult \<times> diag" where
  "checkSemver sv filtered c parsed tags now d =
     (case sv_NewVersion sv (p_tag parsed) of
        Inl err \<Rightarrow> (skipped (base_result c) (ReasonErr [Lit ''parse semver tag: ''] err), d)
      | Inr current \<Rightarrow>
     (case (if filtered then RuleTagSelector_Select sv current tags
            else DefaultTagSelector_Select sv current tags) of
        None \<Rightarrow>
          (skipped (base_result c) (Reason [Lit txt_no_semver]),
           logSkippedBareSemverCandidates sv (c_name c) (p_repo parsed) (Some current) None tags d)
      | Some (latestTag, latest) \<Rightarrow>
          (let d = logSkippedBareSemverCandidates sv (c_name c) (p_repo parsed) (Some current)
                     (Some latest) tags d in
           if sv_GreaterThan sv latest current then
             (tag_result c parsed latestTag
                (Some (tag_update c parsed latestTag (semverBump sv current latest) now)), d)
           else (tag_result c parsed latestTag None, d))))"

text \<open>What \<open>checkContainer\<close> does once it has the tags: the include rule, then the comparison.\<close>

definition rule_include :: "rule option \<Rightarrow> regex option" where
  "rule_include rule = (case rule of None \<Rightarrow> None | Some r \<Rightarrow> r_include r)"

definition check_tags :: "'v semver \<Rightarrow> container \<Rightarrow> parsed \<Rightarrow> string \<Rightarrow> rule option \<Rightarrow> string list \<Rightarrow> int
    \<Rightarrow> diag \<Rightarrow> containerResult \<times> diag" where
  "check_tags sv c parsed mode rule tags now d =
     (case rule_include rule of
        None \<Rightarrow>
          if mode = ModeNumeric then checkNumeric sv c parsed tags now d
          else checkSemver sv False c parsed tags now d
      | Some incl \<Rightarrow>
          if \<not> incl (p_tag parsed) then
            (skipped (base_result c) (Reason [Lit txt_tag_mismatch]), d)
          else
            let tags = filterTags tags incl in
            if tags = [] then (skipped (base_result c) (Reason [Lit txt_no_tags]), d)
            else if mode = ModeNumeric then checkNumeric sv c parsed tags now d
            else checkSemver sv True c parsed tags now d)"

section \<open>Checking digests\<close>

definition digest_update :: "container \<Rightarrow> parsed \<Rightarrow> string \<Rightarrow> string \<Rightarrow> int \<Rightarrow> update_available" where
  "digest_update c parsed localD remoteD now =
     \<lparr>u_container = c, u_host = p_host parsed, u_repo = p_repo parsed, u_current_tag = p_tag parsed,
      u_latest_tag = [], u_bump = [], u_local_digest = localD, u_remote_digest = remoteD,
      u_checked_at = now\<rparr>"

definition digest_result :: "container \<Rightarrow> parsed \<Rightarrow> string \<Rightarrow> string \<Rightarrow> update_available option
    \<Rightarrow> containerResult" where
  "digest_result c parsed localD remoteD update =
     (base_result c)
       \<lparr>cr_status := (case update of None \<Rightarrow> statusUpToDate | Some _ \<Rightarrow> statusUpdate),
        cr_current_tag := p_tag parsed, cr_local_digest := localD, cr_remote_digest := remoteD,
        cr_update := update\<rparr>"

definition checkDigest :: "nat \<Rightarrow> ('v, 'w) engine \<Rightarrow> ctx \<Rightarrow> container \<Rightarrow> parsed \<Rightarrow> 'w registry
    \<Rightarrow> 'w engine_state \<Rightarrow> ((go_error + containerResult) \<times> 'w engine_state) option" where
  "checkDigest n en c ctr parsed reg st =
     (let e = en_env en;
          base = (base_result ctr)\<lparr>cr_current_tag := p_tag parsed\<rparr>;
          localCtx = with_timeout e c (t_provider (en_timeouts en)) (eg_world st)
      in case pv_LocalDigest (en_provider en) localCtx ctr (p_repo parsed) (eg_world st) of (res, w) \<Rightarrow>
      let st = st\<lparr>eg_world := w\<rparr>;
          localD = (case res of Inl _ \<Rightarrow> [] | Inr d \<Rightarrow> d)
      in if localD = [] then Some (Inr (skipped base (Reason [Lit txt_no_local])), st)
      else
        let remoteCtx = with_timeout e c (t_registry (en_timeouts en)) w in
        case TagDigest n e remoteCtx reg (p_host parsed) (p_repo parsed) (p_tag parsed)
               (eg_pass st) w of
          None \<Rightarrow> None
        | Some (res, p, w) \<Rightarrow>
            let st = st\<lparr>eg_pass := p, eg_world := w\<rparr> in
            (case res of
               Inl err \<Rightarrow>
                 Some (mapRegistryRequestError (e_err e c w) base ''resolve remote digest''
                         (p_repo parsed @ '':'' @ p_tag parsed) err, st)
             | Inr remoteD \<Rightarrow>
                 if remoteD = [] then Some (Inr (skipped base (Reason [Lit txt_not_found])), st)
                 else if normalizeDigest localD = normalizeDigest remoteD then
                   Some (Inr (digest_result ctr parsed localD remoteD None), st)
                 else
                   Some (Inr (digest_result ctr parsed localD remoteD
                           (Some (digest_update ctr parsed localD remoteD (e_now e w)))), st)))"

section \<open>Checking a container\<close>

definition checkContainer :: "nat \<Rightarrow> ('v, 'w) engine \<Rightarrow> ctx \<Rightarrow> container \<Rightarrow> 'w engine_state
    \<Rightarrow> ((go_error + containerResult) \<times> 'w engine_state) option" where
  "checkContainer n en c ctr st =
     (let base = base_result ctr; e = en_env en in
      case parse (en_parse en) (c_image_ref ctr) of
        Inl err \<Rightarrow> Some (Inr (skipped base (ReasonErr [Lit ''parse image ref: ''] err)), st)
      | Inr parsed \<Rightarrow>
        if p_tag parsed = [] then
          (if p_repo parsed = [] then
             Some (Inr ((skipped base (Reason [Lit txt_bare]))\<lparr>cr_quiet := True\<rparr>), st)
           else Some (Inr (skipped base (Reason [Lit txt_digest_only])), st))
        else
     (case registryForHost (en_registries en) (p_host parsed) of
        Inl err \<Rightarrow> Some (Inr (skipped base (ReasonErr [] err)), st)
      | Inr reg \<Rightarrow>
     (case resolveTrackingMode (en_semver en) (en_rules en) (p_host parsed) (p_repo parsed)
             (p_tag parsed) (c_name ctr) (c_labels ctr) of (mode, rule, cause) \<Rightarrow>
      let d = log_lines (tracking_lines (en_rule_lines en) (p_host parsed) (p_repo parsed) (c_name ctr)
                           (c_labels ctr)) (eg_diag st);
          st = st\<lparr>eg_diag := logTrackingDiagnostics (c_name ctr) (p_repo parsed) (p_tag parsed)
                              mode cause rule d\<rparr>
      in if mode = ModeDigest then checkDigest n en c ctr parsed reg st
      else
        let listCtx = with_timeout e c (t_registry (en_timeouts en)) (eg_world st) in
        case ListTags n e listCtx reg (p_host parsed) (p_repo parsed) (eg_pass st) (eg_world st) of
          None \<Rightarrow> None
        | Some (res, p, w) \<Rightarrow>
            let st = st\<lparr>eg_pass := p, eg_world := w\<rparr> in
            (case res of
               Inl err \<Rightarrow>
                 Some (mapRegistryRequestError (e_err e c w) base ''list tags'' (p_repo parsed) err, st)
             | Inr tags \<Rightarrow>
                 (case check_tags (en_semver en) ctr parsed mode rule tags (e_now e w) (eg_diag st) of
                    (r, d) \<Rightarrow> Some (Inr r, st\<lparr>eg_diag := d\<rparr>))))))"

section \<open>The pass\<close>

definition shortDigest :: "string \<Rightarrow> string" where
  "shortDigest d = ''sha256:'' @ shortHex d @ ellipsis"

definition reason_attrs :: "reason \<Rightarrow> (string \<times> attr) list" where
  "reason_attrs r = (case r of
       Reason m \<Rightarrow> [(''reason'', AttrStr (concat (map (\<lambda>p. case p of
           Lit t \<Rightarrow> t | Str t \<Rightarrow> t | Quoted t \<Rightarrow> t | Num n \<Rightarrow> itoa n) m)))]
     | ReasonErr m e \<Rightarrow> [(''reason'', AttrErr (ErrWrap m e))])"

definition status_text :: "checkStatus \<Rightarrow> string" where
  "status_text s = (case s of statusUpToDate \<Rightarrow> ''up-to-date'' | statusUpdate \<Rightarrow> ''update''
     | statusSkipped \<Rightarrow> ''skipped'')"

definition logContainerResult :: "containerResult \<Rightarrow> diag \<Rightarrow> diag" where
  "logContainerResult r d =
     (let attrs = [(''container'', AttrStr (c_name (cr_container r))), (''image'', AttrStr (cr_image_ref r)),
                   (''status'', AttrStr (status_text (cr_status r)))]
      in case cr_status r of
           statusUpdate \<Rightarrow>
             log_to LevelInfo ''container checked''
               (attrs @ (if cr_latest_tag r \<noteq> [] then
                  [(''current'', AttrStr (cr_current_tag r)), (''latest'', AttrStr (cr_latest_tag r))]
                else
                  [(''tag'', AttrStr (cr_current_tag r)),
                   (''local'', AttrStr (shortDigest (cr_local_digest r))),
                   (''remote'', AttrStr (shortDigest (cr_remote_digest r)))])) d
         | statusUpToDate \<Rightarrow>
             log_to LevelDebug ''container checked'' (attrs @ [(''tag'', AttrStr (cr_current_tag r))]) d
         | statusSkipped \<Rightarrow>
             if cr_quiet r then
               log_to LevelDebug ''container runs from bare digest, no image ref to track''
                 (attrs @ reason_attrs (cr_reason r)) d
             else log_to LevelWarn ''container skipped'' (attrs @ reason_attrs (cr_reason r)) d)"

definition entryKey :: "ref_parser \<Rightarrow> container \<Rightarrow> string option" where
  "entryKey parse_ref c =
     (case parse parse_ref (c_image_ref c) of
        Inl _ \<Rightarrow> None
      | Inr parsed \<Rightarrow>
          if p_repo parsed = [] then None
          else Some (FormatEntryKey (c_name c) (c_id c) (p_host parsed) (p_repo parsed)))"

text \<open>What the loop over the containers accumulates.\<close>

record tally =
  ta_found :: "update_available list"
  ta_keys :: "string list"
  ta_checked :: nat
  ta_up_to_date :: nat
  ta_updates :: nat
  ta_skipped :: nat

definition add_key :: "string option \<Rightarrow> tally \<Rightarrow> tally" where
  "add_key key t =
     (case key of
        None \<Rightarrow> t
      | Some k \<Rightarrow> if k \<in> set (ta_keys t) then t else t\<lparr>ta_keys := ta_keys t @ [k]\<rparr>)"

definition count_result :: "containerResult \<Rightarrow> tally \<Rightarrow> tally" where
  "count_result r t =
     (let t = t\<lparr>ta_checked := Suc (ta_checked t)\<rparr> in
      case cr_status r of
        statusUpToDate \<Rightarrow> t\<lparr>ta_up_to_date := Suc (ta_up_to_date t)\<rparr>
      | statusUpdate \<Rightarrow>
          t\<lparr>ta_updates := Suc (ta_updates t),
            ta_found := ta_found t @ (case cr_update r of None \<Rightarrow> [] | Some u \<Rightarrow> [u])\<rparr>
      | statusSkipped \<Rightarrow> t\<lparr>ta_skipped := Suc (ta_skipped t)\<rparr>)"

definition log_failed :: "container \<Rightarrow> go_error \<Rightarrow> diag \<Rightarrow> diag" where
  "log_failed c err =
     log_to LevelWarn ''container check failed, skipping''
       [(''container'', AttrStr (c_name c)), (''image'', AttrStr (c_image_ref c)), (''error'', AttrErr err)]"

fun check_loop :: "nat \<Rightarrow> ('v, 'w) engine \<Rightarrow> ctx \<Rightarrow> container list \<Rightarrow> tally \<Rightarrow> 'w engine_state
    \<Rightarrow> ((go_error + tally) \<times> 'w engine_state) option" where
  "check_loop n en c [] t st = Some (Inr t, st)"
| "check_loop n en c (ctr # ctrs) t st =
     (let t = add_key (entryKey (en_parse en) ctr) t in
      case checkContainer n en c ctr st of
        None \<Rightarrow> None
      | Some (Inr r, st) \<Rightarrow>
          check_loop n en c ctrs (count_result r t) (st\<lparr>eg_diag := logContainerResult r (eg_diag st)\<rparr>)
      | Some (Inl err, st) \<Rightarrow>
          (case e_err (en_env en) c (eg_world st) of
             Some e \<Rightarrow> Some (Inl e, st)
           | None \<Rightarrow>
               let r = skipped (base_result ctr) (ReasonErr [] err) in
               check_loop n en c ctrs (count_result r t)
                 (st\<lparr>eg_diag := logContainerResult r (log_failed ctr err (eg_diag st))\<rparr>)))"

definition empty_tally :: tally where
  "empty_tally = \<lparr>ta_found = [], ta_keys = [], ta_checked = 0, ta_up_to_date = 0, ta_updates = 0,
     ta_skipped = 0\<rparr>"

definition log_listed :: "('v, 'w) engine \<Rightarrow> container list \<Rightarrow> diag \<Rightarrow> diag" where
  "log_listed en ctrs d =
     (let d = (if ctrs = [] then log_to LevelWarn ''empty container list, state prune skipped'' [] d else d);
          d = foldl (\<lambda>d name. log_to LevelWarn ''exclude_containers name not found among running containers''
                [(''name'', AttrStr name)] d) d (warnMissingExcludeContainers ctrs (en_exclude en));
          d = log_lines (watch_lines (en_exclude en) ctrs) d;
          (monitored, excluded) = filterByWatch ctrs (en_exclude en)
      in log_to LevelInfo ''listed running containers''
           [(''count'', AttrNum (int (length ctrs))), (''monitored'', AttrNum (int (length monitored))),
            (''excluded'', AttrNum (int excluded))] d)"

definition log_complete :: "tally \<Rightarrow> nat \<Rightarrow> diag \<Rightarrow> diag" where
  "log_complete t excluded =
     log_to LevelInfo ''check complete''
       [(''checked'', AttrNum (int (ta_checked t))), (''up-to-date'', AttrNum (int (ta_up_to_date t))),
        (''updates'', AttrNum (int (ta_updates t))), (''skipped'', AttrNum (int (ta_skipped t))),
        (''excluded'', AttrNum (int excluded))]"

definition RunOnce :: "nat \<Rightarrow> ('v, 'w) engine \<Rightarrow> ctx \<Rightarrow> diag \<Rightarrow> 'w
    \<Rightarrow> ((go_error + update_available list \<times> string list \<times> bool) \<times> diag \<times> 'w) option" where
  "RunOnce n en c d w =
     (let e = en_env en; listCtx = with_timeout e c (t_provider (en_timeouts en)) w in
      case pv_ListRunning (en_provider en) listCtx w of
        (Inl err, w) \<Rightarrow> Some (Inl (ErrWrap [Lit ''list containers: ''] err), d, w)
      | (Inr ctrs, w) \<Rightarrow>
          (let (monitored, excluded) = filterByWatch ctrs (en_exclude en);
               st = \<lparr>eg_diag = log_listed en ctrs d, eg_pass = New, eg_world = w\<rparr>
           in case check_loop n en c monitored empty_tally st of
                None \<Rightarrow> None
              | Some (Inl err, st) \<Rightarrow> Some (Inl err, eg_diag st, eg_world st)
              | Some (Inr t, st) \<Rightarrow>
                  Some (Inr (ta_found t, ta_keys t, ctrs \<noteq> []),
                        log_complete t excluded (eg_diag st), eg_world st)))"

section \<open>The shape of a result\<close>

text \<open>
  Every result is about its container, and it carries an update exactly when its status says so; the
  update names the container, the host and the repository of the parsed reference.
\<close>

definition shaped :: "container \<Rightarrow> parsed option \<Rightarrow> containerResult \<Rightarrow> bool" where
  "shaped ctr parsed r \<longleftrightarrow>
     cr_container r = ctr \<and> (cr_status r = statusUpdate \<longleftrightarrow> cr_update r \<noteq> None)
   \<and> (\<forall>u. cr_update r = Some u \<longrightarrow>
        (\<exists>p. parsed = Some p \<and> u_container u = ctr \<and> u_host u = p_host p \<and> u_repo u = p_repo p
           \<and> u_current_tag u = p_tag p))"

lemma shaped_skipped [intro, simp]:
  "shaped ctr parsed (skipped (base_result ctr) reason)"
  "shaped ctr parsed (skipped ((base_result ctr)\<lparr>cr_current_tag := t\<rparr>) reason)"
  "shaped ctr parsed ((skipped (base_result ctr) reason)\<lparr>cr_quiet := b\<rparr>)"
  by (simp_all add: shaped_def skipped_def base_result_def)

lemma shaped_tag_result [intro, simp]:
  "shaped ctr (Some p) (tag_result ctr p latest None)"
  "shaped ctr (Some p) (tag_result ctr p latest (Some (tag_update ctr p latest bump now)))"
  by (simp_all add: shaped_def tag_result_def tag_update_def base_result_def)

lemma shaped_digest_result [intro, simp]:
  "shaped ctr (Some p) (digest_result ctr p l r None)"
  "shaped ctr (Some p) (digest_result ctr p l r (Some (digest_update ctr p l r now)))"
  by (simp_all add: shaped_def digest_result_def digest_update_def base_result_def)

lemma shaped_numeric: "shaped ctr (Some p) (fst (checkNumeric sv ctr p tags now d))"
  by (simp add: checkNumeric_def Let_def split: option.splits prod.splits)

lemma shaped_semver: "shaped ctr (Some p) (fst (checkSemver sv filtered ctr p tags now d))"
  by (simp add: checkSemver_def Let_def split: option.splits prod.splits sum.splits)

lemma shaped_tags: "shaped ctr (Some p) (fst (check_tags sv ctr p mode rule tags now d))"
  by (simp add: check_tags_def Let_def shaped_numeric shaped_semver split: option.splits)

lemma map_error_Inr:
  "mapRegistryRequestError ce base op target err = Inr r \<Longrightarrow> \<exists>reason. r = skipped base reason"
  by (auto simp: mapRegistryRequestError_def split: option.splits if_splits)

lemma map_error_Inl:
  "mapRegistryRequestError ce base op target err = Inl x \<Longrightarrow> ce = Some x \<or> (\<exists>m. x = ErrWrap m err)"
  by (auto simp: mapRegistryRequestError_def split: option.splits if_splits)

lemma checkDigest_shaped:
  assumes "checkDigest n en c ctr p reg st = Some (Inr r, st')"
  shows "shaped ctr (Some p) r"
  using assms
  by (auto simp: checkDigest_def Let_def split: if_splits option.splits prod.splits sum.splits
      dest: map_error_Inr)

definition parsed_of :: "ref_parser \<Rightarrow> container \<Rightarrow> parsed option" where
  "parsed_of pr ctr = (case parse pr (c_image_ref ctr) of Inl _ \<Rightarrow> None | Inr p \<Rightarrow> Some p)"

lemma checkContainer_shaped:
  assumes "checkContainer n en c ctr st = Some (Inr r, st')"
  shows "shaped ctr (parsed_of (en_parse en) ctr) r"
proof (cases "parse (en_parse en) (c_image_ref ctr)")
  case (Inl err)
  with assms show ?thesis by (auto simp: checkContainer_def Let_def)
next
  case (Inr p)
  have tags: "shaped ctr (Some p) x"
    if "check_tags (en_semver en) ctr p mode rule tags now d = (x, d')" for mode rule tags now d x d'
    using shaped_tags [of ctr p "en_semver en" mode rule tags now d] that by simp
  show ?thesis
    using assms Inr
    by (auto simp: checkContainer_def Let_def parsed_of_def split: if_splits option.splits prod.splits sum.splits
        dest: map_error_Inr checkDigest_shaped tags)
qed

lemma checkContainer_tagged:
  assumes "checkContainer n en c ctr st = Some (Inr r, st')" and "cr_update r = Some u"
  shows "u_current_tag u \<noteq> []"
proof -
  obtain p where p: "parse (en_parse en) (c_image_ref ctr) = Inr p" "u_current_tag u = p_tag p"
    using checkContainer_shaped [OF assms(1)] assms(2)
    by (auto simp: shaped_def parsed_of_def split: sum.splits)
  have "p_tag p \<noteq> []"
  proof
    assume "p_tag p = []"
    with assms p(1) show False
      by (auto simp: checkContainer_def Let_def skipped_def base_result_def split: if_splits)
  qed
  with p(2) show ?thesis by simp
qed

section \<open>The keys of a pass\<close>

text \<open>The reference parser never yields an empty repository.\<close>

definition named_repos :: "ref_parser \<Rightarrow> bool" where
  "named_repos pr \<longleftrightarrow> (\<forall>raw ref. pr raw = Inr ref \<longrightarrow> nr_repository ref \<noteq> [])"

lemma tagged_has_repo:
  assumes "named_repos pr" and "parse pr raw = Inr p" and "p_tag p \<noteq> []"
  shows "p_repo p \<noteq> []"
  using assms
  by (auto simp: parse_def Let_def named_repos_def split: if_splits option.splits sum.splits ref_kind.splits)

lemma update_key:
  assumes "named_repos (en_parse en)" and "checkContainer n en c ctr st = Some (Inr r, st')"
    and "cr_update r = Some u"
  shows "entryKey (en_parse en) ctr = Some (EntryKey u) \<and> u_container u = ctr"
proof -
  obtain p where p: "parse (en_parse en) (c_image_ref ctr) = Inr p" "u_current_tag u = p_tag p"
      "u_container u = ctr" "u_host u = p_host p" "u_repo u = p_repo p"
    using checkContainer_shaped [OF assms(2)] assms(3)
    by (auto simp: shaped_def parsed_of_def split: sum.splits)
  with checkContainer_tagged [OF assms(2,3)] tagged_has_repo [OF assms(1) p(1)]
  show ?thesis by (simp add: entryKey_def EntryKey_def)
qed

definition tally_inv :: "ref_parser \<Rightarrow> container set \<Rightarrow> tally \<Rightarrow> bool" where
  "tally_inv pr S t \<longleftrightarrow>
     distinct (ta_keys t) \<and> set (ta_keys t) = {k. \<exists>ctr\<in>S. entryKey pr ctr = Some k}
   \<and> (\<forall>u\<in>set (ta_found t). u_container u \<in> S \<and> entryKey pr (u_container u) = Some (EntryKey u))
   \<and> ta_checked t = ta_up_to_date t + ta_updates t + ta_skipped t
   \<and> length (ta_found t) = ta_updates t"

lemma tally_inv_key:
  "tally_inv pr S t \<Longrightarrow> distinct (ta_keys (add_key (entryKey pr ctr) t))
     \<and> set (ta_keys (add_key (entryKey pr ctr) t)) = {k. \<exists>x\<in>insert ctr S. entryKey pr x = Some k}
     \<and> ta_found (add_key (entryKey pr ctr) t) = ta_found t
     \<and> ta_checked (add_key (entryKey pr ctr) t) = ta_checked t
     \<and> ta_up_to_date (add_key (entryKey pr ctr) t) = ta_up_to_date t
     \<and> ta_updates (add_key (entryKey pr ctr) t) = ta_updates t
     \<and> ta_skipped (add_key (entryKey pr ctr) t) = ta_skipped t"
  by (cases "entryKey pr ctr") (auto simp: tally_inv_def add_key_def)

lemma tally_inv_step:
  assumes "tally_inv pr S t" and "cr_status r = statusUpdate \<longleftrightarrow> cr_update r \<noteq> None"
    and "\<And>u. cr_update r = Some u \<Longrightarrow> entryKey pr ctr = Some (EntryKey u) \<and> u_container u = ctr"
  shows "tally_inv pr (insert ctr S) (count_result r (add_key (entryKey pr ctr) t))
    \<and> ta_checked (count_result r (add_key (entryKey pr ctr) t)) = Suc (ta_checked t)"
proof -
  let ?t = "add_key (entryKey pr ctr) t"
  have cnt: "ta_keys (count_result r ?t) = ta_keys ?t
     \<and> ta_found (count_result r ?t) = ta_found ?t @ (case cr_update r of None \<Rightarrow> [] | Some u \<Rightarrow> [u])
     \<and> ta_checked (count_result r ?t) = Suc (ta_checked ?t)
     \<and> Suc (ta_up_to_date ?t + ta_updates ?t + ta_skipped ?t)
         = ta_up_to_date (count_result r ?t) + ta_updates (count_result r ?t) + ta_skipped (count_result r ?t)
     \<and> ta_updates (count_result r ?t) = ta_updates ?t + (case cr_update r of None \<Rightarrow> 0 | Some _ \<Rightarrow> 1)"
    using assms(2) by (cases "cr_status r"; cases "cr_update r") (simp_all add: count_result_def Let_def)
  note key = tally_inv_key [OF assms(1), of ctr]
  have found: "u_container u \<in> insert ctr S \<and> entryKey pr (u_container u) = Some (EntryKey u)"
    if "u \<in> set (ta_found (count_result r ?t))" for u
  proof -
    have "u \<in> set (ta_found t) \<or> cr_update r = Some u"
      using that cnt key by (auto split: option.splits)
    then show ?thesis
    proof
      assume "u \<in> set (ta_found t)"
      with assms(1) show ?thesis unfolding tally_inv_def by blast
    next
      assume "cr_update r = Some u"
      from assms(3) [OF this] show ?thesis by simp
    qed
  qed
  have "length (ta_found (count_result r ?t)) = ta_updates (count_result r ?t)"
    and "ta_checked (count_result r ?t) = ta_up_to_date (count_result r ?t)
        + ta_updates (count_result r ?t) + ta_skipped (count_result r ?t)"
    using cnt key assms(1) by (cases "cr_update r"; simp add: tally_inv_def)+
  with found cnt key show ?thesis by (simp add: tally_inv_def)
qed

lemma skipped_shape:
  "(cr_status (skipped (base_result ctr) reason) = statusUpdate \<longleftrightarrow>
      cr_update (skipped (base_result ctr) reason) \<noteq> None)
   \<and> cr_update (skipped (base_result ctr) reason) = None"
  by (simp add: skipped_def base_result_def)

lemma check_loop_inv:
  assumes repos: "named_repos (en_parse en)"
  shows "check_loop n en c ctrs t st = Some (Inr t', st') \<Longrightarrow> tally_inv (en_parse en) S t \<Longrightarrow>
    tally_inv (en_parse en) (S \<union> set ctrs) t' \<and> ta_checked t' = ta_checked t + length ctrs"
proof (induction ctrs arbitrary: t st S)
  case (Cons ctr ctrs)
  obtain res st1 where cc: "checkContainer n en c ctr st = Some (res, st1)"
    using Cons.prems(1) by (auto simp: Let_def split: option.splits)
  obtain r st2 where step: "check_loop n en c ctrs (count_result r (add_key (entryKey (en_parse en) ctr) t)) st2
        = Some (Inr t', st')"
    and r: "cr_status r = statusUpdate \<longleftrightarrow> cr_update r \<noteq> None"
    and u: "\<And>u. cr_update r = Some u \<Longrightarrow> entryKey (en_parse en) ctr = Some (EntryKey u) \<and> u_container u = ctr"
  proof (cases res)
    case (Inl err)
    with Cons.prems(1) cc obtain st2 where "check_loop n en c ctrs
        (count_result (skipped (base_result ctr) (ReasonErr [] err)) (add_key (entryKey (en_parse en) ctr) t)) st2
        = Some (Inr t', st')"
      by (auto simp: Let_def split: option.splits)
    then show ?thesis
      by (rule that) (use skipped_shape [of ctr "ReasonErr [] err"] in simp_all)
  next
    case (Inr r)
    with Cons.prems(1) cc obtain st2 where "check_loop n en c ctrs
        (count_result r (add_key (entryKey (en_parse en) ctr) t)) st2 = Some (Inr t', st')"
      by (auto simp: Let_def)
    then show ?thesis
    proof (rule that)
      show "cr_status r = statusUpdate \<longleftrightarrow> cr_update r \<noteq> None"
        using checkContainer_shaped [OF cc [unfolded Inr]] unfolding shaped_def by blast
    qed (rule update_key [OF repos cc [unfolded Inr]])
  qed
  from Cons.IH [OF step conjunct1 [OF tally_inv_step [OF Cons.prems(2) r u]]]
    tally_inv_step [OF Cons.prems(2) r u]
  show ?case by simp
qed simp

lemma RunOnce_Inr:
  assumes "RunOnce n en c d w = Some (Inr (found, keys, canPrune), d', w')"
  obtains ctrs w1 t st where
    "pv_ListRunning (en_provider en) (with_timeout (en_env en) c (t_provider (en_timeouts en)) w) w = (Inr ctrs, w1)"
    "check_loop n en c (fst (filterByWatch ctrs (en_exclude en))) empty_tally
       \<lparr>eg_diag = log_listed en ctrs d, eg_pass = New, eg_world = w1\<rparr> = Some (Inr t, st)"
    "found = ta_found t" "keys = ta_keys t" "canPrune \<longleftrightarrow> ctrs \<noteq> []"
  using assms
  by (auto simp: RunOnce_def Let_def split: prod.splits sum.splits option.splits)

section \<open>Errors and termination of a pass\<close>

lemma check_loop_Inl:
  "check_loop n en c ctrs t st = Some (Inl err, st') \<Longrightarrow> e_err (en_env en) c (eg_world st') = Some err"
proof (induction ctrs arbitrary: t st)
  case (Cons ctr ctrs)
  then show ?case
    by (auto simp: Let_def split: option.splits prod.splits sum.splits)
qed simp

lemma RunOnce_Inl:
  assumes "RunOnce n en c d w = Some (Inl err, d', w')"
  shows "(\<exists>e w1. pv_ListRunning (en_provider en) (with_timeout (en_env en) c (t_provider (en_timeouts en)) w) w
        = (Inl e, w1) \<and> err = ErrWrap [Lit ''list containers: ''] e)
    \<or> e_err (en_env en) c w' = Some err"
  using assms
  by (auto simp: RunOnce_def Let_def split: prod.splits sum.splits option.splits dest: check_loop_Inl)

text \<open>Time passes in a registry's requests like everywhere else.\<close>

definition registry_mono :: "'w env \<Rightarrow> 'w registry \<Rightarrow> bool" where
  "registry_mono e reg \<longleftrightarrow>
     (\<forall>c repo. call_mono e (reg_ListTags reg c repo))
   \<and> (\<forall>c repo tag. call_mono e (reg_TagDigest reg c repo tag))"

lemma registryForHost_in: "registryForHost regs host = Inr reg \<Longrightarrow> reg \<in> set regs \<and> reg_host reg = host"
  by (induction regs) (auto split: if_splits)

lemma with_timeout_budget:
  assumes "d \<le> int b * second"
  shows "\<exists>t. with_timeout e c d w = Some t \<and> t \<le> e_now e w + int b * second"
  using assms by (auto simp: with_timeout_def split: option.splits)

lemma ListTags_returns:
  assumes "env_laws e" and "registry_mono e reg" and "d \<le> int b * second" and "2 * b + 3 \<le> n"
  shows "ListTags n e (with_timeout e c d w) reg host repo p w \<noteq> None"
proof -
  obtain t where t: "with_timeout e c d w = Some t" "t \<le> e_now e w + int b * second"
    using with_timeout_budget [OF assms(3), of e c w] by blast
  have "call_mono e (reg_ListTags reg (Some t) repo)"
    using assms(2) by (simp add: registry_mono_def)
  from fetch_terminates [OF assms(1) this t(2) assms(4), of host p] t(1) show ?thesis
    by (auto simp: ListTags_def Let_def split: option.splits)
qed

lemma TagDigest_returns:
  assumes "env_laws e" and "registry_mono e reg" and "d \<le> int b * second" and "2 * b + 3 \<le> n"
  shows "TagDigest n e (with_timeout e c d w) reg host repo tag p w \<noteq> None"
proof -
  obtain t where t: "with_timeout e c d w = Some t" "t \<le> e_now e w + int b * second"
    using with_timeout_budget [OF assms(3), of e c w] by blast
  have "call_mono e (reg_TagDigest reg (Some t) repo tag)"
    using assms(2) by (simp add: registry_mono_def)
  from fetch_terminates [OF assms(1) this t(2) assms(4), of host p] t(1) show ?thesis
    by (auto simp: TagDigest_def Let_def split: option.splits)
qed

definition pass_fuel :: "('v, 'w) engine \<Rightarrow> nat \<Rightarrow> bool" where
  "pass_fuel en n \<longleftrightarrow> (\<exists>b. t_registry (en_timeouts en) \<le> int b * second \<and> 2 * b + 3 \<le> n)"

lemma checkContainer_returns:
  assumes "env_laws (en_env en)" and "\<forall>reg\<in>set (en_registries en). registry_mono (en_env en) reg"
    and "pass_fuel en n"
  shows "checkContainer n en c ctr st \<noteq> None"
proof -
  obtain b where b: "t_registry (en_timeouts en) \<le> int b * second" "2 * b + 3 \<le> n"
    using assms(3) by (auto simp: pass_fuel_def)
  have L: "ListTags n (en_env en) (with_timeout (en_env en) c (t_registry (en_timeouts en)) w) reg host repo p w \<noteq> None"
    and T: "TagDigest n (en_env en) (with_timeout (en_env en) c (t_registry (en_timeouts en)) w) reg host repo tag p w \<noteq> None"
    if "registryForHost (en_registries en) host = Inr reg" for w reg host repo tag p
    using ListTags_returns [OF assms(1) _ b] TagDigest_returns [OF assms(1) _ b] assms(2)
      registryForHost_in [OF that] by blast+
  have D: "checkDigest n en c ctr p reg st' \<noteq> None"
    if "registryForHost (en_registries en) (p_host p) = Inr reg" for p reg st'
    using notE [OF T [OF that]]
    by (fastforce simp: checkDigest_def Let_def split: prod.splits option.splits sum.splits)
  show ?thesis
  proof
    assume "checkContainer n en c ctr st = None"
    then show False
      using notE [OF L] notE [OF D]
      by (fastforce simp: checkContainer_def Let_def split: sum.splits prod.splits option.splits if_splits)
  qed
qed

lemma check_loop_returns:
  assumes "env_laws (en_env en)" and "\<forall>reg\<in>set (en_registries en). registry_mono (en_env en) reg"
    and "pass_fuel en n"
  shows "check_loop n en c ctrs t st \<noteq> None"
proof (induction ctrs arbitrary: t st)
  case (Cons ctr ctrs)
  obtain res st1 where "checkContainer n en c ctr st = Some (res, st1)"
    using checkContainer_returns [OF assms, of c ctr st] by auto
  with Cons.IH show ?case
    by (auto simp: Let_def split: sum.splits option.splits)
qed simp

text \<open>What a pass leaves in the tally, and where it comes from.\<close>

lemma RunOnce_tally:
  assumes "named_repos (en_parse en)"
    and "RunOnce n en c d w = Some (Inr (found, keys, canPrune), d', w')"
  obtains ctrs w1 t where
    "pv_ListRunning (en_provider en) (with_timeout (en_env en) c (t_provider (en_timeouts en)) w) w = (Inr ctrs, w1)"
    "found = ta_found t" "keys = ta_keys t" "canPrune \<longleftrightarrow> ctrs \<noteq> []"
    "tally_inv (en_parse en) (set (fst (filterByWatch ctrs (en_exclude en)))) t"
    "ta_checked t = length (fst (filterByWatch ctrs (en_exclude en)))"
proof -
  obtain ctrs w1 t st where l: "pv_ListRunning (en_provider en)
        (with_timeout (en_env en) c (t_provider (en_timeouts en)) w) w = (Inr ctrs, w1)"
    and loop: "check_loop n en c (fst (filterByWatch ctrs (en_exclude en))) empty_tally
       \<lparr>eg_diag = log_listed en ctrs d, eg_pass = New, eg_world = w1\<rparr> = Some (Inr t, st)"
    and r: "found = ta_found t" "keys = ta_keys t" "canPrune \<longleftrightarrow> ctrs \<noteq> []"
    using RunOnce_Inr [OF assms(2)] by metis
  have "tally_inv (en_parse en) {} empty_tally" by (simp add: tally_inv_def empty_tally_def)
  from check_loop_inv [OF assms(1) loop this] l r that show ?thesis
    by (simp add: empty_tally_def)
qed

lemma RunOnce_found_keys:
  assumes "named_repos (en_parse en)"
    and "RunOnce n en c d w = Some (Inr (found, keys, canPrune), d', w')"
  shows "EntryKey ` set found \<subseteq> set keys"
proof -
  obtain ctrs t where "found = ta_found t" "keys = ta_keys t"
    and inv: "tally_inv (en_parse en) (set (fst (filterByWatch ctrs (en_exclude en)))) t"
    using RunOnce_tally [OF assms] by metis
  with inv [unfolded tally_inv_def] show ?thesis by blast
qed

lemma RunOnce_total:
  assumes "env_laws (en_env en)" and "\<forall>reg\<in>set (en_registries en). registry_mono (en_env en) reg"
    and "t_registry (en_timeouts en) \<le> int b * second" and "2 * b + 3 \<le> n"
  shows "\<exists>x. RunOnce n en c d w = Some x"
proof -
  have "pass_fuel en n" using assms(3,4) by (auto simp: pass_fuel_def)
  note loop = check_loop_returns [OF assms(1,2) this, of c]
  have "RunOnce n en c d w \<noteq> None"
    using notE [OF loop] by (fastforce simp: RunOnce_def Let_def split: prod.splits sum.splits option.splits)
  then show ?thesis by auto
qed

section \<open>What is compared\<close>

definition allowed_tags :: "rule option \<Rightarrow> string list \<Rightarrow> string list" where
  "allowed_tags rule tags = (case rule_include rule of None \<Rightarrow> tags | Some incl \<Rightarrow> filter incl tags)"

definition tag_allowed :: "rule option \<Rightarrow> string \<Rightarrow> bool" where
  "tag_allowed rule tag = (case rule_include rule of None \<Rightarrow> True | Some incl \<Rightarrow> incl tag)"

lemma allowed_in: "t \<in> set (allowed_tags rule tags) \<longleftrightarrow> t \<in> set tags \<and> tag_allowed rule t"
  by (auto simp: allowed_tags_def tag_allowed_def split: option.splits)

lemma allowed_bex: "(\<exists>t\<in>set (allowed_tags rule tags). P t) \<longleftrightarrow> (\<exists>t\<in>set tags. tag_allowed rule t \<and> P t)"
  and allowed_ball: "(\<forall>t\<in>set (allowed_tags rule tags). P t) \<longleftrightarrow> (\<forall>t\<in>set tags. tag_allowed rule t \<longrightarrow> P t)"
  by (auto simp: allowed_in)

lemma check_tags_eq:
  "check_tags sv ctr p mode rule tags now d =
     (if \<not> tag_allowed rule (p_tag p) then (skipped (base_result ctr) (Reason [Lit txt_tag_mismatch]), d)
      else if rule_include rule \<noteq> None \<and> allowed_tags rule tags = [] then
        (skipped (base_result ctr) (Reason [Lit txt_no_tags]), d)
      else if mode = ModeNumeric then checkNumeric sv ctr p (allowed_tags rule tags) now d
      else checkSemver sv (rule_include rule \<noteq> None) ctr p (allowed_tags rule tags) now d)"
  by (simp add: check_tags_def tag_allowed_def allowed_tags_def filterTags_def Let_def split: option.splits)

lemma selected_newest:
  assumes laws: "semver_laws sv" and sel: "selectSemverTag sv cur tags skip = Some (t, v)"
  shows "(\<exists>t'\<in>set tags. \<exists>v'. semver_cand sv skip t' = Some v' \<and> sv_GreaterThan sv v' cur) \<longleftrightarrow>
      sv_GreaterThan sv v cur"
    and "t \<in> set tags" "semver_cand sv skip t = Some v"
    and "\<forall>t'\<in>set tags. \<forall>v'. semver_cand sv skip t' = Some v' \<longrightarrow> \<not> sv_GreaterThan sv v' v"
proof -
  note bp = semver_best_pick [OF laws, of skip "sv_Original sv cur"]
  have best: "best_pick.is_best (semver_cand sv skip) (semver_beats sv (sv_Original sv cur)) (set tags) (t, v)"
    using sel best_pick.pick_best_Some [OF bp] by (simp add: selectSemverTag_def)
  then show t: "t \<in> set tags" "semver_cand sv skip t = Some v"
    by (simp_all add: best_pick.is_best_def [OF bp])
  show le: "\<forall>t'\<in>set tags. \<forall>v'. semver_cand sv skip t' = Some v' \<longrightarrow> \<not> sv_GreaterThan sv v' v"
    using best by (auto simp: best_pick.is_best_def [OF bp] semver_beats_def)
  have "sv_GreaterThan sv v cur" if gt: "sv_GreaterThan sv v' cur" and nv: "\<not> sv_GreaterThan sv v' v" for v'
    using semver_lawsD(2,3) [OF laws] semver_gt_eq [OF laws] gt nv by metis
  then show "(\<exists>t'\<in>set tags. \<exists>v'. semver_cand sv skip t' = Some v' \<and> sv_GreaterThan sv v' cur) \<longleftrightarrow>
      sv_GreaterThan sv v cur"
    using t le by blast
qed

text \<open>The same for the numeric selection; its laws need no hypothesis.\<close>

lemma numeric_selected:
  assumes sel: "selectNumericTag cur tags = Some (t, v)"
  shows "(\<exists>t'\<in>set tags. \<exists>v'. numeric_cand t' = Some v' \<and> 0 < compareNumeric v' cur) \<longleftrightarrow>
      0 < compareNumeric v cur"
    and "t \<in> set tags" "numeric_cand t = Some v"
    and "\<forall>t'\<in>set tags. \<forall>v'. numeric_cand t' = Some v' \<longrightarrow> \<not> 0 < compareNumeric v' v"
proof -
  have best: "numeric_pick.is_best (nv_original cur) (set tags) (t, v)"
    using sel numeric_pick.pick_best_Some by (simp add: selectNumericTag_def)
  then show t: "t \<in> set tags" "numeric_cand t = Some v"
    by (simp_all add: numeric_pick.is_best_def)
  show le: "\<forall>t'\<in>set tags. \<forall>v'. numeric_cand t' = Some v' \<longrightarrow> \<not> 0 < compareNumeric v' v"
    using best by (auto simp: numeric_pick.is_best_def numeric_beats_def Let_def)
  have "0 < compareNumeric v cur" if "0 < compareNumeric v' cur" "\<not> 0 < compareNumeric v' v" for v'
    using that semver_lawsD(2,3) [OF numeric_semver_laws] semver_gt_eq [OF numeric_semver_laws]
    unfolding numeric_semver_def semver.simps by metis
  then show "(\<exists>t'\<in>set tags. \<exists>v'. numeric_cand t' = Some v' \<and> 0 < compareNumeric v' cur) \<longleftrightarrow>
      0 < compareNumeric v cur"
    using t le by blast
qed

lemma result_fields [simp]:
  "cr_status (skipped base reason) = statusSkipped"
  "cr_update (tag_result ctr p t u) = u" "cr_latest_tag (tag_result ctr p t u) = t"
  "cr_status (tag_result ctr p t u) = (case u of None \<Rightarrow> statusUpToDate | Some _ \<Rightarrow> statusUpdate)"
  "cr_update (digest_result ctr p l r u) = u" "cr_local_digest (digest_result ctr p l r u) = l"
  "cr_remote_digest (digest_result ctr p l r u) = r"
  "cr_status (digest_result ctr p l r u) = (case u of None \<Rightarrow> statusUpToDate | Some _ \<Rightarrow> statusUpdate)"
  "u_latest_tag (tag_update ctr p t b now) = t" "u_bump (tag_update ctr p t b now) = b"
  by (simp_all add: skipped_def tag_result_def digest_result_def base_result_def tag_update_def)

lemma checkSemver_status:
  assumes laws: "semver_laws sv" and r: "checkSemver sv filtered ctr p tags now d = (r, d')"
  shows "(cr_status r = statusUpdate \<longleftrightarrow> (\<exists>cur. sv_NewVersion sv (p_tag p) = Inr cur \<and>
        (\<exists>t\<in>set tags. \<exists>v. semver_cand sv (\<not> filtered) t = Some v \<and> sv_GreaterThan sv v cur)))
    \<and> (\<forall>u. cr_update r = Some u \<longrightarrow> (\<exists>cur v. sv_NewVersion sv (p_tag p) = Inr cur
        \<and> u_latest_tag u \<in> set tags \<and> semver_cand sv (\<not> filtered) (u_latest_tag u) = Some v
        \<and> sv_GreaterThan sv v cur \<and> u_bump u = semverBump sv cur v
        \<and> (\<forall>t\<in>set tags. \<forall>v'. semver_cand sv (\<not> filtered) t = Some v' \<longrightarrow> \<not> sv_GreaterThan sv v' v)))"
proof (cases "sv_NewVersion sv (p_tag p)")
  case (Inl err)
  with r show ?thesis by (auto simp: checkSemver_def skipped_def base_result_def)
next
  case (Inr cur)
  have sel: "(if filtered then RuleTagSelector_Select sv cur tags else DefaultTagSelector_Select sv cur tags)
      = selectSemverTag sv cur tags (\<not> filtered)"
    by (simp add: RuleTagSelector_Select_def DefaultTagSelector_Select_def)
  show ?thesis
  proof (cases "selectSemverTag sv cur tags (\<not> filtered)")
    case None
    then have none: "\<forall>t\<in>set tags. semver_cand sv (\<not> filtered) t = None"
      using best_pick.pick_best_None [OF semver_best_pick [OF laws]] by (simp add: selectSemverTag_def)
    from None Inr r have "cr_status r = statusSkipped \<and> cr_update r = None"
      by (auto simp: checkSemver_def sel) (simp add: skipped_def base_result_def)
    with none Inr show ?thesis by auto
  next
    case (Some b)
    obtain t v where b: "b = (t, v)" by (cases b)
    note S = selected_newest [OF laws Some [unfolded b]]
    have "if sv_GreaterThan sv v cur
        then r = tag_result ctr p t (Some (tag_update ctr p t (semverBump sv cur v) now))
        else r = tag_result ctr p t None"
      using r Inr Some b sel by (simp add: checkSemver_def Let_def del: if_split) (auto split: if_splits)
    with S Inr show ?thesis by (auto split: if_splits)
  qed
qed

lemma checkNumeric_status:
  assumes r: "checkNumeric sv ctr p tags now d = (r, d')"
  shows "(cr_status r = statusUpdate \<longleftrightarrow> (\<exists>cur. parseNumericVersion (p_tag p) = Some cur \<and>
        (\<exists>t\<in>set tags. \<exists>v. numeric_cand t = Some v \<and> 0 < compareNumeric v cur)))
    \<and> (\<forall>u. cr_update r = Some u \<longrightarrow> (\<exists>cur v. parseNumericVersion (p_tag p) = Some cur
        \<and> u_latest_tag u \<in> set tags \<and> numeric_cand (u_latest_tag u) = Some v
        \<and> 0 < compareNumeric v cur \<and> u_bump u = numericBump cur v
        \<and> (\<forall>t\<in>set tags. \<forall>v'. numeric_cand t = Some v' \<longrightarrow> \<not> 0 < compareNumeric v' v)))"
proof (cases "parseNumericVersion (p_tag p)")
  case None
  with r show ?thesis by (auto simp: checkNumeric_def skipped_def base_result_def)
next
  case cur: (Some cur)
  show ?thesis
  proof (cases "selectNumericTag cur tags")
    case None
    then have none: "\<forall>t\<in>set tags. numeric_cand t = None"
      using numeric_pick.pick_best_None by (simp add: selectNumericTag_def)
    from None cur r have "cr_status r = statusSkipped \<and> cr_update r = None"
      by (auto simp: checkNumeric_def) (simp add: skipped_def base_result_def)
    with none cur show ?thesis by auto
  next
    case (Some b)
    obtain t v where b: "b = (t, v)" by (cases b)
    note S = numeric_selected [OF Some [unfolded b]]
    have "if 0 < compareNumeric v cur
        then r = tag_result ctr p t (Some (tag_update ctr p t (numericBump cur v) now))
        else r = tag_result ctr p t None"
      using r cur Some b by (simp add: checkNumeric_def Let_def del: if_split) (auto split: if_splits)
    with S cur show ?thesis by (auto split: if_splits)
  qed
qed

lemma check_tags_semver:
  assumes "semver_laws sv" and "check_tags sv ctr p ModeSemver rule tags now d = (r, d')"
  shows "(cr_status r = statusUpdate \<longleftrightarrow> tag_allowed rule (p_tag p) \<and>
      (\<exists>cur. sv_NewVersion sv (p_tag p) = Inr cur \<and>
        (\<exists>t\<in>set tags. tag_allowed rule t \<and>
          (\<exists>v. semver_cand sv (rule_include rule = None) t = Some v \<and> sv_GreaterThan sv v cur))))
    \<and> (\<forall>u. cr_update r = Some u \<longrightarrow> (\<exists>cur v. sv_NewVersion sv (p_tag p) = Inr cur
        \<and> u_latest_tag u \<in> set tags \<and> tag_allowed rule (u_latest_tag u)
        \<and> semver_cand sv (rule_include rule = None) (u_latest_tag u) = Some v
        \<and> sv_GreaterThan sv v cur \<and> u_bump u = semverBump sv cur v
        \<and> (\<forall>t\<in>set tags. tag_allowed rule t \<longrightarrow>
             (\<forall>v'. semver_cand sv (rule_include rule = None) t = Some v' \<longrightarrow> \<not> sv_GreaterThan sv v' v))))"
proof (cases "tag_allowed rule (p_tag p) \<and> \<not> (rule_include rule \<noteq> None \<and> allowed_tags rule tags = [])")
  case False
  then have "r = skipped (base_result ctr) (Reason [Lit txt_tag_mismatch])
        \<or> r = skipped (base_result ctr) (Reason [Lit txt_no_tags])"
    using assms(2) unfolding check_tags_eq by (auto split: if_splits)
  then have "cr_status r = statusSkipped \<and> cr_update r = None"
    by (auto simp: base_result_def skipped_def)
  moreover have "\<not> (tag_allowed rule (p_tag p) \<and> (\<exists>t\<in>set tags. tag_allowed rule t))"
    using False allowed_in [of _ rule tags] by (metis empty_iff list.set(1))
  ultimately show ?thesis by auto
next
  case True
  then have c: "checkSemver sv (rule_include rule \<noteq> None) ctr p (allowed_tags rule tags) now d = (r, d')"
    using assms(2) unfolding check_tags_eq by (auto split: if_splits)
  show ?thesis
    using checkSemver_status [OF assms(1) c] True
    by (simp add: allowed_bex allowed_ball allowed_in conj_assoc)
qed

section \<open>A small engine\<close>

text \<open>
  One container, whose reference is pinned by digest, one registry, and a clock: the engine of the
  concrete examples.
\<close>

definition demo_container :: container where
  "demo_container = \<lparr>c_id = ''0'', c_name = ''web'', c_image_ref = ''ghcr.io/a/b@d'', c_labels = []\<rparr>"

definition demo_provider :: "int provider" where
  "demo_provider =
     \<lparr>pv_ListRunning = (\<lambda>c w. (Inr [demo_container], w)),
      pv_LocalDigest = (\<lambda>c ctr repo w. (Inr ''sha256:1'', w)),
      pv_Ping = (\<lambda>c w. (None, w))\<rparr>"

definition demo_engine :: "(numericVersion, int) engine" where
  "demo_engine =
     \<lparr>en_provider = demo_provider, en_registries = [ok_registry ''ghcr.io''],
      en_timeouts = \<lparr>t_provider = 10 * second, t_registry = 30 * second\<rparr>, en_rules = None, en_rule_lines = (\<lambda>_. []),
      en_exclude = None, en_semver = numeric_semver,
      en_parse = (\<lambda>_. Inr \<lparr>nr_registry = ''ghcr.io'', nr_repository = ''a/b'', nr_kind = DigestRef ''d''\<rparr>),
      en_env = clock_env\<rparr>"

definition demo_diag :: diag where "demo_diag = \<lparr>d_keys = [], d_log = [], d_debug = False\<rparr>"

lemma demo_fields [simp]:
  "en_env demo_engine = clock_env" "en_registries demo_engine = [ok_registry ''ghcr.io'']"
  "t_registry (en_timeouts demo_engine) = 30 * second" "en_exclude demo_engine = None"
  "pv_ListRunning (en_provider demo_engine) c w = (Inr [demo_container], w)"
  by (simp_all add: demo_engine_def demo_provider_def)

lemma demo_repos: "named_repos (en_parse demo_engine)"
  by (simp add: named_repos_def demo_engine_def)

lemma demo_registry_mono: "registry_mono clock_env (ok_registry host)"
  by (simp add: registry_mono_def call_mono_def ok_registry_def)

lemma demo_parsed: "parse (en_parse demo_engine) (c_image_ref demo_container) =
    Inr \<lparr>p_host = ''ghcr.io'', p_repo = ''a/b'', p_tag = [], p_digest = ''d''\<rparr>"
proof -
  have "trim_space ''ghcr.io/a/b@d'' = ''ghcr.io/a/b@d''"
    by (rule trim_space_id) (simp_all add: graphic_def)
  then show ?thesis
    by (simp add: parse_def bareDigestRef_def sha256_prefix_def demo_engine_def demo_container_def)
qed

lemma demo_pass:
  "\<exists>d' w'. RunOnce 1 demo_engine None demo_diag 0 = Some (Inr ([], [''web|ghcr.io/a/b''], True), d', w')"
proof -
  have check: "checkContainer 1 demo_engine None demo_container st =
      Some (Inr (skipped (base_result demo_container) (Reason [Lit txt_digest_only])), st)" for st
    by (simp add: checkContainer_def Let_def demo_parsed)
  have key: "entryKey (en_parse demo_engine) demo_container = Some ''web|ghcr.io/a/b''"
    unfolding entryKey_def demo_parsed by (simp add: FormatEntryKey_def demo_container_def)
  have mon: "filterByWatch [demo_container] None = ([demo_container], 0)"
    by (simp add: filterByWatch_eq ShouldMonitor_def shouldMonitorLabel_def demo_container_def)
  show ?thesis
    by (simp add: RunOnce_def Let_def mon check [unfolded One_nat_def] key count_result_def add_key_def
        empty_tally_def)
qed

section \<open>Properties\<close>

text \<open>
  C1. The keys a pass hands to the pruning step are safe: they are exactly the keys of the monitored
  containers, each once; every update found belongs to a monitored container and its key is among
  them; and pruning is allowed exactly when the fleet that was listed is not empty.
\<close>
theorem RunOnce_keys:
  assumes "named_repos (en_parse en)"
    and "RunOnce n en c d w = Some (Inr (found, keys, canPrune), d', w')"
  shows "\<exists>ctrs w1. pv_ListRunning (en_provider en) (with_timeout (en_env en) c (t_provider (en_timeouts en)) w) w
        = (Inr ctrs, w1)
    \<and> (canPrune \<longleftrightarrow> ctrs \<noteq> [])
    \<and> distinct keys
    \<and> (\<forall>k. k \<in> set keys \<longleftrightarrow>
          (\<exists>ctr\<in>set ctrs. ShouldMonitor ctr (en_exclude en) \<and> entryKey (en_parse en) ctr = Some k))
    \<and> (\<forall>u\<in>set found. EntryKey u \<in> set keys \<and> u_container u \<in> set ctrs
          \<and> ShouldMonitor (u_container u) (en_exclude en))
    \<and> length found \<le> length ctrs"
proof -
  obtain ctrs w1 t where l: "pv_ListRunning (en_provider en)
        (with_timeout (en_env en) c (t_provider (en_timeouts en)) w) w = (Inr ctrs, w1)"
    and r: "found = ta_found t" "keys = ta_keys t" "canPrune \<longleftrightarrow> ctrs \<noteq> []"
    and inv: "tally_inv (en_parse en) (set (fst (filterByWatch ctrs (en_exclude en)))) t"
      "ta_checked t = length (fst (filterByWatch ctrs (en_exclude en)))"
    using RunOnce_tally [OF assms] .
  let ?mon = "fst (filterByWatch ctrs (en_exclude en))"
  have mon: "set ?mon = {x \<in> set ctrs. ShouldMonitor x (en_exclude en)}"
    and len: "length ?mon \<le> length ctrs"
    by (auto simp: filterByWatch_eq)
  from inv have "length found \<le> length ctrs"
    using len r by (auto simp: tally_inv_def)
  moreover have "distinct keys" "\<And>k. k \<in> set keys \<longleftrightarrow> (\<exists>ctr\<in>set ?mon. entryKey (en_parse en) ctr = Some k)"
    and "\<And>u. u \<in> set found \<Longrightarrow> u_container u \<in> set ?mon \<and> entryKey (en_parse en) (u_container u) = Some (EntryKey u)"
    using inv(1) r by (auto simp: tally_inv_def)
  ultimately show ?thesis
    using l r(3) mon by (intro exI [of _ ctrs] exI [of _ w1]) auto
qed

theorem RunOnce_keys_witness:
  "\<exists>d' w'. RunOnce 1 demo_engine None demo_diag 0 = Some (Inr ([], [''web|ghcr.io/a/b''], True), d', w')
     \<and> ShouldMonitor demo_container None"
proof -
  obtain d' w' where run: "RunOnce 1 demo_engine None demo_diag 0 = Some (Inr ([], [''web|ghcr.io/a/b''], True), d', w')"
    using demo_pass by blast
  from RunOnce_keys [OF demo_repos run] run show ?thesis by auto
qed

text \<open>
  C2. A failing container never aborts the pass: a pass ends in an error only when the fleet could not
  be listed or when the context of the pass itself has ended, and then the error is the context's.
\<close>
theorem RunOnce_errors:
  assumes "RunOnce n en c d w = Some (Inl err, d', w')"
  shows "(\<exists>e w1. pv_ListRunning (en_provider en) (with_timeout (en_env en) c (t_provider (en_timeouts en)) w) w
        = (Inl e, w1) \<and> err = ErrWrap [Lit ''list containers: ''] e)
    \<or> e_err (en_env en) c w' = Some err"
  by (rule RunOnce_Inl [OF assms])

theorem RunOnce_errors_witness:
  "\<exists>w1. pv_ListRunning (demo_provider\<lparr>pv_ListRunning := \<lambda>c w. (Inl ErrEOF, w)\<rparr>) (Some (10 * second)) 0
     = (Inl ErrEOF, w1)"
proof -
  let ?en = "demo_engine\<lparr>en_provider := demo_provider\<lparr>pv_ListRunning := \<lambda>c w. (Inl ErrEOF, w)\<rparr>\<rparr>"
  have "RunOnce 1 ?en None demo_diag 0 = Some (Inl (ErrWrap [Lit ''list containers: ''] ErrEOF), demo_diag, 0)"
    by (simp add: RunOnce_def Let_def)
  from RunOnce_errors [OF this] show ?thesis by (simp add: clock_env_def)
qed

text \<open>
  C3. Every pass finishes: with a registry timeout of at most b seconds, 2 b + 3 rounds of the retry
  functions per request are enough for any fleet, whatever the registries and the provider answer.
\<close>
theorem RunOnce_returns:
  assumes "env_laws (en_env en)" and "\<forall>reg\<in>set (en_registries en). registry_mono (en_env en) reg"
    and "t_registry (en_timeouts en) \<le> int b * second" and "2 * b + 3 \<le> n"
  shows "\<exists>r d' w'. RunOnce n en c d w = Some (r, d', w')"
proof -
  obtain x where "RunOnce n en c d w = Some x" using RunOnce_total [OF assms] by blast
  then show ?thesis by (cases x) auto
qed

theorem RunOnce_returns_witness:
  "\<exists>r d' w'. RunOnce 63 demo_engine (Some 5) demo_diag 0 = Some (r, d', w')"
  by (rule RunOnce_returns [where b = 30]) (simp_all add: clock_env_laws demo_registry_mono)

text \<open>
  C4. A semver check reports an update exactly when there is one: the current tag passes the include
  rule, it parses, and some tag of the registry that passes the rule is an admissible candidate newer
  than it. The reported tag is one of these, no candidate is newer, and the bump compares the two.
\<close>
theorem semver_check_correct:
  assumes "semver_laws sv" and "check_tags sv ctr p ModeSemver rule tags now d = (r, d')"
  shows "(cr_status r = statusUpdate \<longleftrightarrow> tag_allowed rule (p_tag p) \<and>
      (\<exists>cur. sv_NewVersion sv (p_tag p) = Inr cur \<and>
        (\<exists>t\<in>set tags. tag_allowed rule t \<and>
          (\<exists>v. semver_cand sv (rule_include rule = None) t = Some v \<and> sv_GreaterThan sv v cur))))
    \<and> (\<forall>u. cr_update r = Some u \<longrightarrow> (\<exists>cur v. sv_NewVersion sv (p_tag p) = Inr cur
        \<and> u_latest_tag u \<in> set tags \<and> tag_allowed rule (u_latest_tag u)
        \<and> semver_cand sv (rule_include rule = None) (u_latest_tag u) = Some v
        \<and> sv_GreaterThan sv v cur \<and> u_bump u = semverBump sv cur v
        \<and> (\<forall>t\<in>set tags. tag_allowed rule t \<longrightarrow>
             (\<forall>v'. semver_cand sv (rule_include rule = None) t = Some v' \<longrightarrow> \<not> sv_GreaterThan sv v' v))))"
  by (rule check_tags_semver [OF assms])

theorem semver_check_correct_witness:
  "cr_status (fst (check_tags numeric_semver demo_container
      \<lparr>p_host = ''ghcr.io'', p_repo = ''a/b'', p_tag = ''1.1'', p_digest = []\<rparr> ModeSemver None [''7'', ''x''] 0
      demo_diag)) \<noteq> statusUpdate"
proof -
  let ?p = "\<lparr>p_host = ''ghcr.io'', p_repo = ''a/b'', p_tag = ''1.1'', p_digest = []\<rparr>"
  obtain r d' where run: "check_tags numeric_semver demo_container ?p ModeSemver None [''7'', ''x''] 0 demo_diag = (r, d')"
    by fastforce
  have "trim_space ''7'' = ''7''" "trim_space ''x'' = ''x''"
    by (rule trim_space_id; simp add: graphic_def)+
  then have "semver_cand numeric_semver True ''7'' = None" "semver_cand numeric_semver True ''x'' = None"
    by (simp_all add: semver_cand_def isBareIntegerTag_def bareIntegerTagRE_def strip_v_def is_digit_def
        byte_def numeric_semver_def parseNumericVersion_def numericTagRE_def)
  with semver_check_correct [OF numeric_semver_laws run] run show ?thesis
    by (simp add: rule_include_def)
qed

text \<open>
  C19. The numeric check likewise: an update is reported exactly when some tag that passes the include
  rule is a dotted numeric version greater than the current tag's, and the reported one is the
  greatest.
\<close>
theorem numeric_check_correct:
  assumes "check_tags sv ctr p ModeNumeric rule tags now d = (r, d')"
  shows "(cr_status r = statusUpdate \<longleftrightarrow> tag_allowed rule (p_tag p) \<and>
      (\<exists>cur. parseNumericVersion (p_tag p) = Some cur \<and>
        (\<exists>t\<in>set tags. tag_allowed rule t \<and>
          (\<exists>v. numeric_cand t = Some v \<and> 0 < compareNumeric v cur))))
    \<and> (\<forall>u. cr_update r = Some u \<longrightarrow> (\<exists>cur v. parseNumericVersion (p_tag p) = Some cur
        \<and> u_latest_tag u \<in> set tags \<and> tag_allowed rule (u_latest_tag u)
        \<and> numeric_cand (u_latest_tag u) = Some v
        \<and> 0 < compareNumeric v cur \<and> u_bump u = numericBump cur v
        \<and> (\<forall>t\<in>set tags. tag_allowed rule t \<longrightarrow>
             (\<forall>v'. numeric_cand t = Some v' \<longrightarrow> \<not> 0 < compareNumeric v' v))))"
proof (cases "tag_allowed rule (p_tag p) \<and> \<not> (rule_include rule \<noteq> None \<and> allowed_tags rule tags = [])")
  case False
  then have "r = skipped (base_result ctr) (Reason [Lit txt_tag_mismatch])
        \<or> r = skipped (base_result ctr) (Reason [Lit txt_no_tags])"
    using assms unfolding check_tags_eq by (auto split: if_splits)
  then have "cr_status r = statusSkipped \<and> cr_update r = None"
    by (auto simp: base_result_def skipped_def)
  moreover have "\<not> (tag_allowed rule (p_tag p) \<and> (\<exists>t\<in>set tags. tag_allowed rule t))"
    using False allowed_in [of _ rule tags] by (metis empty_iff list.set(1))
  ultimately show ?thesis by auto
next
  case True
  then have c: "checkNumeric sv ctr p (allowed_tags rule tags) now d = (r, d')"
    using assms unfolding check_tags_eq by (auto split: if_splits)
  show ?thesis
    using checkNumeric_status [OF c] True
    by (simp add: allowed_bex allowed_ball allowed_in conj_assoc)
qed

theorem numeric_check_correct_witness:
  "cr_status (fst (check_tags numeric_semver demo_container
      \<lparr>p_host = ''ghcr.io'', p_repo = ''a/b'', p_tag = ''1.1.1.1'', p_digest = []\<rparr> ModeNumeric None [] 0
      demo_diag)) \<noteq> statusUpdate"
  using numeric_check_correct [OF surjective_pairing, of numeric_semver demo_container
      "\<lparr>p_host = ''ghcr.io'', p_repo = ''a/b'', p_tag = ''1.1.1.1'', p_digest = []\<rparr>" None "[]" 0 demo_diag]
  by simp

text \<open>
  The two digests a digest check compares: the one the runtime gives for the running container and the
  one the registry serves for the tag, both there and not empty.
\<close>

definition compared_digests :: "nat \<Rightarrow> ('v, 'w) engine \<Rightarrow> ctx \<Rightarrow> container \<Rightarrow> parsed \<Rightarrow> 'w registry
    \<Rightarrow> 'w engine_state \<Rightarrow> string \<Rightarrow> string \<Rightarrow> bool" where
  "compared_digests n en c ctr p reg st l d \<longleftrightarrow>
     (\<exists>w q w'.
        pv_LocalDigest (en_provider en) (with_timeout (en_env en) c (t_provider (en_timeouts en)) (eg_world st))
          ctr (p_repo p) (eg_world st) = (Inr l, w)
        \<and> TagDigest n (en_env en) (with_timeout (en_env en) c (t_registry (en_timeouts en)) w) reg
            (p_host p) (p_repo p) (p_tag p) (eg_pass st) w = Some (Inr d, q, w')
        \<and> l \<noteq> [] \<and> d \<noteq> [])"

lemma compared_digests_unique:
  "compared_digests n en c ctr p reg st l d \<Longrightarrow> compared_digests n en c ctr p reg st l' d' \<Longrightarrow> l' = l \<and> d' = d"
  by (auto simp: compared_digests_def)

lemma compared_digests_nonempty: "compared_digests n en c ctr p reg st l d \<Longrightarrow> l \<noteq> [] \<and> d \<noteq> []"
  by (auto simp: compared_digests_def)

lemma checkDigest_cases:
  assumes "checkDigest n en c ctr p reg st = Some (Inr r, st')"
  shows "(\<exists>l d. compared_digests n en c ctr p reg st l d \<and> normalizeDigest l = normalizeDigest d
        \<and> r = digest_result ctr p l d None)
    \<or> (\<exists>l d t. compared_digests n en c ctr p reg st l d \<and> normalizeDigest l \<noteq> normalizeDigest d
        \<and> r = digest_result ctr p l d (Some (digest_update ctr p l d t)))
    \<or> ((\<nexists>l d. compared_digests n en c ctr p reg st l d)
        \<and> (\<exists>x. r = skipped ((base_result ctr)\<lparr>cr_current_tag := p_tag p\<rparr>) x))"
proof -
  obtain lres w where l: "pv_LocalDigest (en_provider en)
      (with_timeout (en_env en) c (t_provider (en_timeouts en)) (eg_world st)) ctr (p_repo p) (eg_world st) = (lres, w)"
    by fastforce
  show ?thesis
  proof (cases "lres = Inr (projr lres) \<and> projr lres \<noteq> []")
    case False
    with assms l show ?thesis
      by (auto simp: checkDigest_def compared_digests_def split: sum.splits if_splits)
  next
    case True
    with assms l obtain ans q w' where t: "TagDigest n (en_env en)
        (with_timeout (en_env en) c (t_registry (en_timeouts en)) w) reg (p_host p) (p_repo p) (p_tag p)
        (eg_pass st) w = Some (ans, q, w')"
      by (auto simp: checkDigest_def Let_def split: sum.splits option.splits)
    show ?thesis
      using assms True l t
      by (cases ans) (auto simp: checkDigest_def compared_digests_def Let_def split: sum.splits if_splits
          dest: map_error_Inr)
  qed
qed

text \<open>
  C20. The digest check compares what runs with what the registry serves: the result is an update exactly
  when the runtime gives a non-empty digest, the registry a non-empty one for the tag, and the two differ
  after normalisation; it is up to date exactly when they are equal; otherwise it is skipped. An update
  carries the two digests that were compared and no tag or bump, and its target is the registry's.
\<close>
theorem digest_check_correct:
  assumes "checkDigest n en c ctr p reg st = Some (Inr r, st')"
  shows "(case cr_update r of
      Some u \<Rightarrow> cr_status r = statusUpdate \<and> u_local_digest u \<noteq> [] \<and> u_remote_digest u \<noteq> []
        \<and> normalizeDigest (u_local_digest u) \<noteq> normalizeDigest (u_remote_digest u)
        \<and> u_latest_tag u = [] \<and> u_bump u = []
        \<and> targetFor u = (target_digest, normalizeDigest (u_remote_digest u))
        \<and> compared_digests n en c ctr p reg st (u_local_digest u) (u_remote_digest u)
    | None \<Rightarrow> cr_status r = statusSkipped
        \<or> (cr_status r = statusUpToDate \<and> cr_local_digest r \<noteq> [] \<and> cr_remote_digest r \<noteq> []
            \<and> normalizeDigest (cr_local_digest r) = normalizeDigest (cr_remote_digest r)))
    \<and> (cr_status r = statusUpdate
        \<longleftrightarrow> (\<exists>l d. compared_digests n en c ctr p reg st l d \<and> normalizeDigest l \<noteq> normalizeDigest d))
    \<and> (cr_status r = statusUpToDate
        \<longleftrightarrow> (\<exists>l d. compared_digests n en c ctr p reg st l d \<and> normalizeDigest l = normalizeDigest d))"
  using checkDigest_cases [OF assms]
proof (elim disjE exE conjE)
  fix l d assume c: "compared_digests n en c ctr p reg st l d" "normalizeDigest l = normalizeDigest d"
    "r = digest_result ctr p l d None"
  have u: "compared_digests n en c ctr p reg st l' d' \<longleftrightarrow> l' = l \<and> d' = d" for l' d'
    using compared_digests_unique [OF c(1)] c(1) by blast
  show ?thesis
    using c(2) compared_digests_nonempty [OF c(1)] by (simp add: u c(3) digest_result_def base_result_def)
next
  fix l d t assume c: "compared_digests n en c ctr p reg st l d" "normalizeDigest l \<noteq> normalizeDigest d"
    "r = digest_result ctr p l d (Some (digest_update ctr p l d t))"
  have u: "compared_digests n en c ctr p reg st l' d' \<longleftrightarrow> l' = l \<and> d' = d" for l' d'
    using compared_digests_unique [OF c(1)] c(1) by blast
  show ?thesis
    using c(2) compared_digests_nonempty [OF c(1)]
    by (simp add: u c(3) digest_result_def digest_update_def targetFor_def)
qed (auto simp: skipped_def base_result_def)

theorem digest_check_correct_witness:
  "\<exists>r st' u. checkDigest 1 demo_engine None demo_container
       \<lparr>p_host = ''ghcr.io'', p_repo = ''a/b'', p_tag = ''latest'', p_digest = []\<rparr> (ok_registry ''ghcr.io'')
       \<lparr>eg_diag = demo_diag, eg_pass = New, eg_world = 0\<rparr> = Some (Inr r, st')
     \<and> cr_update r = Some u \<and> targetFor u = (target_digest, ''0'')"
proof -
  let ?p = "\<lparr>p_host = ''ghcr.io'', p_repo = ''a/b'', p_tag = ''latest'', p_digest = []\<rparr>"
  let ?st = "\<lparr>eg_diag = demo_diag, eg_pass = New, eg_world = 0 :: int\<rparr>"
  have "\<exists>st'. checkDigest 1 demo_engine None demo_container ?p (ok_registry ''ghcr.io'') ?st
      = Some (Inr (digest_result demo_container ?p ''sha256:1'' ''sha256:0''
           (Some (digest_update demo_container ?p ''sha256:1'' ''sha256:0'' 0))), st')"
    by (simp add: checkDigest_def Let_def TagDigest_def cachedTagDigest_def New_def isRateLimitedLocked_def
        fetchWithRetry_def ok_registry_def demo_engine_def demo_provider_def clock_env_def
        normalizeDigest_def trim_prefix_def has_prefix_def)
  then obtain st' where run: "checkDigest 1 demo_engine None demo_container ?p (ok_registry ''ghcr.io'') ?st
      = Some (Inr (digest_result demo_container ?p ''sha256:1'' ''sha256:0''
           (Some (digest_update demo_container ?p ''sha256:1'' ''sha256:0'' 0))), st')" by blast
  from digest_check_correct [OF run] run show ?thesis
    by (simp add: digest_update_def normalizeDigest_def trim_prefix_def has_prefix_def)
qed

end
