(* ===== verification/ConfigLoad.thy ===== *)
theory ConfigLoad
  imports Config GoPath
begin

text \<open>
  Loading the configuration: the environment overrides of \<open>internal/config/env.go\<close>, \<open>Load\<close> and the
  derived paths of \<open>config.go\<close>, and the instance name of \<open>instance.go\<close>.
\<close>

section \<open>Environment overrides\<close>

definition env :: "sys \<Rightarrow> string \<Rightarrow> string" where
  "env sys k = trim_space (sys_getenv sys k)"

text \<open>The body \<open>if v != "" { config[key] = v }\<close>.\<close>

definition put_str :: "string \<Rightarrow> string \<Rightarrow> cfg_map \<Rightarrow> cfg_map" where
  "put_str key v m = (if v \<noteq> [] then set_key key (AStr v) m else m)"

text \<open>The loops over the plugins of one type.\<close>

definition on_type :: "string \<Rightarrow> (cfg_map \<Rightarrow> cfg_map) \<Rightarrow> plugin_config list \<Rightarrow> plugin_config list" where
  "on_type typ f ps =
     map (\<lambda>p. if pc_type p \<noteq> typ then p else p\<lparr>pc_config := f (pc_config p)\<rparr>) ps"

definition applyInstanceNameEnv :: "sys \<Rightarrow> config \<Rightarrow> config" where
  "applyInstanceNameEnv sys cfg =
     (let name = env sys ''VERSENTRY_INSTANCE_NAME'' in
      if name \<noteq> [] then cfg\<lparr>cfg_instance_name := name\<rparr> else cfg)"

definition applyStateFileEnv :: "sys \<Rightarrow> config \<Rightarrow> config" where
  "applyStateFileEnv sys cfg =
     (let path = env sys ''VERSENTRY_STATE_FILE'' in
      if path \<noteq> [] then cfg\<lparr>cfg_state_file := path\<rparr> else cfg)"

definition applyRegistryProxyEnv :: "sys \<Rightarrow> config \<Rightarrow> config" where
  "applyRegistryProxyEnv sys cfg =
     (let proxy = env sys ''VERSENTRY_REGISTRY_PROXY'' in
      if proxy \<noteq> [] then cfg\<lparr>cfg_registry_proxy := proxy\<rparr> else cfg)"

definition applyRegistryCredEnv :: "sys \<Rightarrow> config \<Rightarrow> config" where
  "applyRegistryCredEnv sys cfg =
     (let username = env sys ''VERSENTRY_REGISTRY_USERNAME'';
          token = env sys ''VERSENTRY_REGISTRY_TOKEN''
      in if username = [] \<and> token = [] then cfg
      else cfg\<lparr>cfg_registries :=
        on_type ''oci'' (put_str ''token'' token \<circ> put_str ''username'' username)
          (cfg_registries cfg)\<rparr>)"

definition applyTelegramEnv :: "sys \<Rightarrow> config \<Rightarrow> config" where
  "applyTelegramEnv sys cfg =
     (let token = env sys ''VERSENTRY_TELEGRAM_TOKEN'';
          chatID = env sys ''VERSENTRY_TELEGRAM_CHAT_ID'';
          proxy = env sys ''VERSENTRY_TELEGRAM_PROXY''
      in if token = [] \<and> chatID = [] \<and> proxy = [] then cfg
      else cfg\<lparr>cfg_notifiers :=
        on_type ''telegram''
          (put_str ''proxy'' proxy \<circ> put_str ''chat_id'' chatID \<circ> put_str ''token'' token)
          (cfg_notifiers cfg)\<rparr>)"

definition applyDiscordEnv :: "sys \<Rightarrow> config \<Rightarrow> config" where
  "applyDiscordEnv sys cfg =
     (let url = env sys ''VERSENTRY_DISCORD_WEBHOOK_URL'' in
      if url = [] then cfg
      else cfg\<lparr>cfg_notifiers := on_type ''discord'' (set_key ''url'' (AStr url)) (cfg_notifiers cfg)\<rparr>)"

definition put_auth_header :: "string \<Rightarrow> cfg_map \<Rightarrow> cfg_map" where
  "put_auth_header auth m =
     (if auth \<noteq> [] then
        let headers = (case map_of m ''headers'' of Some (AMap h) \<Rightarrow> h | _ \<Rightarrow> [])
        in set_key ''headers'' (AMap (set_key ''Authorization'' (AStr auth) headers)) m
      else m)"

definition applyWebhookEnv :: "sys \<Rightarrow> config \<Rightarrow> config" where
  "applyWebhookEnv sys cfg =
     (let url = env sys ''VERSENTRY_WEBHOOK_URL'';
          auth = env sys ''VERSENTRY_WEBHOOK_AUTHORIZATION'';
          proxy = env sys ''VERSENTRY_WEBHOOK_PROXY''
      in if url = [] \<and> auth = [] \<and> proxy = [] then cfg
      else cfg\<lparr>cfg_notifiers :=
        on_type ''webhook'' (put_auth_header auth \<circ> put_str ''proxy'' proxy \<circ> put_str ''url'' url)
          (cfg_notifiers cfg)\<rparr>)"

definition applyGotifyEnv :: "sys \<Rightarrow> config \<Rightarrow> config" where
  "applyGotifyEnv sys cfg =
     (let url = env sys ''VERSENTRY_GOTIFY_URL'';
          token = env sys ''VERSENTRY_GOTIFY_TOKEN'';
          proxy = env sys ''VERSENTRY_GOTIFY_PROXY''
      in if url = [] \<and> token = [] \<and> proxy = [] then cfg
      else cfg\<lparr>cfg_notifiers :=
        on_type ''gotify'' (put_str ''proxy'' proxy \<circ> put_str ''token'' token \<circ> put_str ''url'' url)
          (cfg_notifiers cfg)\<rparr>)"

definition applyNtfyEnv :: "sys \<Rightarrow> config \<Rightarrow> config" where
  "applyNtfyEnv sys cfg =
     (let url = env sys ''VERSENTRY_NTFY_URL'';
          topic = env sys ''VERSENTRY_NTFY_TOPIC'';
          token = env sys ''VERSENTRY_NTFY_TOKEN'';
          proxy = env sys ''VERSENTRY_NTFY_PROXY''
      in if url = [] \<and> topic = [] \<and> token = [] \<and> proxy = [] then cfg
      else cfg\<lparr>cfg_notifiers :=
        on_type ''ntfy''
          (put_str ''proxy'' proxy \<circ> put_str ''token'' token \<circ> put_str ''topic'' topic
             \<circ> put_str ''url'' url)
          (cfg_notifiers cfg)\<rparr>)"

definition ApplyEnvOverrides :: "sys \<Rightarrow> config \<Rightarrow> config" where
  "ApplyEnvOverrides sys cfg =
     (let cfg = applyInstanceNameEnv sys cfg;
          cfg = applyStateFileEnv sys cfg;
          cfg = applyRegistryProxyEnv sys cfg;
          cfg = applyRegistryCredEnv sys cfg;
          cfg = applyTelegramEnv sys cfg;
          cfg = applyDiscordEnv sys cfg;
          cfg = applyWebhookEnv sys cfg;
          cfg = applyGotifyEnv sys cfg;
          cfg = applyNtfyEnv sys cfg
      in cfg)"

text \<open>
  What one override does to the list of plugins: an idempotent map on the configurations of one
  type. Overrides of different types commute, so the whole sequence is idempotent.
\<close>

lemma set_key_present: "map_of m k = Some v \<Longrightarrow> set_key k v m = m"
  by (induction m) (auto split: if_splits)

lemma put_str_present: "v = [] \<or> map_of m k = Some (AStr v) \<Longrightarrow> put_str k v m = m"
  by (auto simp: put_str_def set_key_present)

lemma map_of_put_str:
  "map_of (put_str k v m) k' = (if k = k' \<and> v \<noteq> [] then Some (AStr v) else map_of m k')"
  by (simp add: put_str_def)

lemma on_type_on_type: "on_type t f (on_type t g ps) = on_type t (f \<circ> g) ps"
  by (simp add: on_type_def)

lemma on_type_commute:
  "t \<noteq> t' \<Longrightarrow> on_type t f (on_type t' g ps) = on_type t' g (on_type t f ps)"
  by (simp add: on_type_def)

lemma on_type_types: "map pc_type (on_type t f ps) = map pc_type ps"
  by (simp add: on_type_def)

lemma put_auth_header_present:
  assumes "auth \<noteq> []" and "map_of m ''headers'' = Some (AMap h)"
    and "map_of h ''Authorization'' = Some (AStr auth)"
  shows "put_auth_header auth m = m"
  using assms by (simp add: put_auth_header_def set_key_present)

lemma map_of_put_auth_header:
  "k \<noteq> ''headers'' \<Longrightarrow> map_of (put_auth_header auth m) k = map_of m k"
  by (simp add: put_auth_header_def Let_def)

lemma put_auth_header_idem: "put_auth_header auth (put_auth_header auth m) = put_auth_header auth m"
proof (cases "auth = []")
  case False
  then show ?thesis
    by (intro put_auth_header_present) (auto simp: put_auth_header_def Let_def)
qed (simp add: put_auth_header_def)

section \<open>Time zone and Load\<close>

datatype location_error = ScheduleNeedsTimezone | InvalidTimezone string go_error

definition ScheduleLocation :: "sys \<Rightarrow> config \<Rightarrow> location_error + location" where
  "ScheduleLocation sys cfg =
     (let name = trim_space (cfg_timezone cfg);
          name = (if name = [] then env sys ''TZ'' else name)
      in if name = [] then
           (if cfg_schedule cfg \<noteq> [] then Inl ScheduleNeedsTimezone else Inr LocLocal)
         else case sys_load_location sys name of
           Some err \<Rightarrow> Inl (InvalidTimezone name err)
         | None \<Rightarrow> Inr (LocNamed name))"

datatype load_error =
    ReadConfig go_error
  | ParseConfig go_error
  | ProviderTypeRequired
  | NotifierRequired
  | BadRules rule_error
  | BadExclude exclude_error
  | InvalidSchedule string go_error
  | BadLocation location_error

definition default_config :: config where
  "default_config =
     \<lparr>cfg_provider = \<lparr>pc_type = [], pc_config = []\<rparr>, cfg_registries = [], cfg_notifiers = [],
      cfg_timeouts = \<lparr>t_provider = 10 * second, t_registry = 30 * second\<rparr>,
      cfg_interval = hour, cfg_schedule = [], cfg_state_file = [], cfg_log_level = ''info'',
      cfg_rules = [], cfg_exclude_containers = [], cfg_instance_name = [], cfg_timezone = [],
      cfg_registry_proxy = [], cfg_health_max_age = 0\<rparr>"

text \<open>The check of the schedule: \<open>None\<close> when there is nothing to refuse.\<close>

definition check_schedule :: "sys \<Rightarrow> config \<Rightarrow> load_error option" where
  "check_schedule sys cfg =
     (if cfg_schedule cfg = [] then None
      else case sys_cron_parse sys (cfg_schedule cfg) of
        Some err \<Rightarrow> Some (InvalidSchedule (cfg_schedule cfg) err)
      | None \<Rightarrow>
          (case ScheduleLocation sys cfg of
             Inl err \<Rightarrow> Some (BadLocation err)
           | Inr _ \<Rightarrow> None))"

definition Load :: "sys \<Rightarrow> string \<Rightarrow> load_error + config" where
  "Load sys path =
     (case sys_read_file sys path of
        Inl err \<Rightarrow> Inl (ReadConfig err)
      | Inr data \<Rightarrow>
     (case sys_yaml sys default_config data of
        Inl err \<Rightarrow> Inl (ParseConfig err)
      | Inr cfg \<Rightarrow>
        if pc_type (cfg_provider cfg) = [] then Inl ProviderTypeRequired
        else if cfg_notifiers cfg = [] then Inl NotifierRequired
        else case validateRules sys (cfg_rules cfg) of
          Some err \<Rightarrow> Inl (BadRules err)
        | None \<Rightarrow>
        (case ExcludeContainerSet (cfg_exclude_containers cfg) of
           Inl err \<Rightarrow> Inl (BadExclude err)
         | Inr _ \<Rightarrow>
           (case check_schedule sys cfg of
              Some err \<Rightarrow> Inl err
            | None \<Rightarrow> Inr (ApplyEnvOverrides sys cfg)))))"

lemmas apply_env_defs = ApplyEnvOverrides_def Let_def applyInstanceNameEnv_def applyStateFileEnv_def
  applyRegistryProxyEnv_def applyRegistryCredEnv_def applyTelegramEnv_def applyDiscordEnv_def
  applyWebhookEnv_def applyGotifyEnv_def applyNtfyEnv_def

text \<open>
  The overrides as one record update: three scalar fields and two lists of plugins, everything else
  untouched.
\<close>

definition env_registries :: "sys \<Rightarrow> plugin_config list \<Rightarrow> plugin_config list" where
  "env_registries sys =
     on_type ''oci'' (put_str ''token'' (env sys ''VERSENTRY_REGISTRY_TOKEN'')
       \<circ> put_str ''username'' (env sys ''VERSENTRY_REGISTRY_USERNAME''))"

definition env_notifier :: "sys \<Rightarrow> string \<Rightarrow> cfg_map \<Rightarrow> cfg_map" where
  "env_notifier sys typ =
     (if typ = ''telegram'' then
        put_str ''proxy'' (env sys ''VERSENTRY_TELEGRAM_PROXY'')
          \<circ> put_str ''chat_id'' (env sys ''VERSENTRY_TELEGRAM_CHAT_ID'')
          \<circ> put_str ''token'' (env sys ''VERSENTRY_TELEGRAM_TOKEN'')
      else if typ = ''discord'' then put_str ''url'' (env sys ''VERSENTRY_DISCORD_WEBHOOK_URL'')
      else if typ = ''webhook'' then
        put_auth_header (env sys ''VERSENTRY_WEBHOOK_AUTHORIZATION'')
          \<circ> put_str ''proxy'' (env sys ''VERSENTRY_WEBHOOK_PROXY'')
          \<circ> put_str ''url'' (env sys ''VERSENTRY_WEBHOOK_URL'')
      else if typ = ''gotify'' then
        put_str ''proxy'' (env sys ''VERSENTRY_GOTIFY_PROXY'')
          \<circ> put_str ''token'' (env sys ''VERSENTRY_GOTIFY_TOKEN'')
          \<circ> put_str ''url'' (env sys ''VERSENTRY_GOTIFY_URL'')
      else if typ = ''ntfy'' then
        put_str ''proxy'' (env sys ''VERSENTRY_NTFY_PROXY'')
          \<circ> put_str ''token'' (env sys ''VERSENTRY_NTFY_TOKEN'')
          \<circ> put_str ''topic'' (env sys ''VERSENTRY_NTFY_TOPIC'')
          \<circ> put_str ''url'' (env sys ''VERSENTRY_NTFY_URL'')
      else id)"

definition env_notifiers :: "sys \<Rightarrow> plugin_config list \<Rightarrow> plugin_config list" where
  "env_notifiers sys ps = map (\<lambda>p. p\<lparr>pc_config := env_notifier sys (pc_type p) (pc_config p)\<rparr>) ps"

definition env_scalar :: "sys \<Rightarrow> string \<Rightarrow> string \<Rightarrow> string" where
  "env_scalar sys k old = (let v = env sys k in if v \<noteq> [] then v else old)"

lemma on_type_id: "(\<And>m. f m = m) \<Longrightarrow> on_type t f ps = ps"
  by (induction ps) (auto simp: on_type_def)

lemma put_str_Nil [simp]: "put_str k [] m = m"
  by (simp add: put_str_def)

lemma put_auth_header_Nil [simp]: "put_auth_header [] m = m"
  by (simp add: put_auth_header_def)

lemma config_same_update:
  "cfg\<lparr>cfg_instance_name := cfg_instance_name cfg\<rparr> = cfg"
  "cfg\<lparr>cfg_state_file := cfg_state_file cfg\<rparr> = cfg"
  "cfg\<lparr>cfg_registry_proxy := cfg_registry_proxy cfg\<rparr> = cfg"
  "cfg\<lparr>cfg_registries := cfg_registries cfg\<rparr> = cfg"
  "cfg\<lparr>cfg_notifiers := cfg_notifiers cfg\<rparr> = cfg"
  by simp_all

lemma put_str_set: "v \<noteq> [] \<Longrightarrow> put_str k v = set_key k (AStr v)"
  by (simp add: put_str_def fun_eq_iff)

lemma env_notifier_eqs:
  "env_notifier sys ''telegram'' =
     put_str ''proxy'' (env sys ''VERSENTRY_TELEGRAM_PROXY'')
       \<circ> put_str ''chat_id'' (env sys ''VERSENTRY_TELEGRAM_CHAT_ID'')
       \<circ> put_str ''token'' (env sys ''VERSENTRY_TELEGRAM_TOKEN'')"
  "env_notifier sys ''discord'' = put_str ''url'' (env sys ''VERSENTRY_DISCORD_WEBHOOK_URL'')"
  "env_notifier sys ''webhook'' =
     put_auth_header (env sys ''VERSENTRY_WEBHOOK_AUTHORIZATION'')
       \<circ> put_str ''proxy'' (env sys ''VERSENTRY_WEBHOOK_PROXY'')
       \<circ> put_str ''url'' (env sys ''VERSENTRY_WEBHOOK_URL'')"
  "env_notifier sys ''gotify'' =
     put_str ''proxy'' (env sys ''VERSENTRY_GOTIFY_PROXY'')
       \<circ> put_str ''token'' (env sys ''VERSENTRY_GOTIFY_TOKEN'')
       \<circ> put_str ''url'' (env sys ''VERSENTRY_GOTIFY_URL'')"
  "env_notifier sys ''ntfy'' =
     put_str ''proxy'' (env sys ''VERSENTRY_NTFY_PROXY'')
       \<circ> put_str ''token'' (env sys ''VERSENTRY_NTFY_TOKEN'')
       \<circ> put_str ''topic'' (env sys ''VERSENTRY_NTFY_TOPIC'')
       \<circ> put_str ''url'' (env sys ''VERSENTRY_NTFY_URL'')"
  by (simp_all add: env_notifier_def)

lemma notifier_steps:
  "applyTelegramEnv sys cfg =
     cfg\<lparr>cfg_notifiers := on_type ''telegram'' (env_notifier sys ''telegram'') (cfg_notifiers cfg)\<rparr>"
  "applyDiscordEnv sys cfg =
     cfg\<lparr>cfg_notifiers := on_type ''discord'' (env_notifier sys ''discord'') (cfg_notifiers cfg)\<rparr>"
  "applyWebhookEnv sys cfg =
     cfg\<lparr>cfg_notifiers := on_type ''webhook'' (env_notifier sys ''webhook'') (cfg_notifiers cfg)\<rparr>"
  "applyGotifyEnv sys cfg =
     cfg\<lparr>cfg_notifiers := on_type ''gotify'' (env_notifier sys ''gotify'') (cfg_notifiers cfg)\<rparr>"
  "applyNtfyEnv sys cfg =
     cfg\<lparr>cfg_notifiers := on_type ''ntfy'' (env_notifier sys ''ntfy'') (cfg_notifiers cfg)\<rparr>"
  unfolding applyTelegramEnv_def applyDiscordEnv_def applyWebhookEnv_def applyGotifyEnv_def
    applyNtfyEnv_def Let_def env_notifier_eqs
  by (simp_all add: on_type_id put_str_set)

lemma registry_step:
  "applyRegistryCredEnv sys cfg = cfg\<lparr>cfg_registries := env_registries sys (cfg_registries cfg)\<rparr>"
  by (simp add: applyRegistryCredEnv_def Let_def env_registries_def on_type_id)

lemma scalar_steps:
  "applyInstanceNameEnv sys cfg =
     cfg\<lparr>cfg_instance_name := env_scalar sys ''VERSENTRY_INSTANCE_NAME'' (cfg_instance_name cfg)\<rparr>"
  "applyStateFileEnv sys cfg =
     cfg\<lparr>cfg_state_file := env_scalar sys ''VERSENTRY_STATE_FILE'' (cfg_state_file cfg)\<rparr>"
  "applyRegistryProxyEnv sys cfg =
     cfg\<lparr>cfg_registry_proxy := env_scalar sys ''VERSENTRY_REGISTRY_PROXY'' (cfg_registry_proxy cfg)\<rparr>"
  by (simp_all add: applyInstanceNameEnv_def applyStateFileEnv_def applyRegistryProxyEnv_def
      Let_def env_scalar_def)

lemma on_type_notifiers:
  assumes "\<And>p. p \<in> set ps \<Longrightarrow> pc_type p \<noteq> t \<Longrightarrow> g p = f p"
    and "\<And>p. p \<in> set ps \<Longrightarrow> pc_type p = t \<Longrightarrow>
      g p = (f p)\<lparr>pc_config := h (pc_config (f p))\<rparr>"
    and "\<And>p. pc_type (f p) = pc_type p"
  shows "on_type t h (map f ps) = map g ps"
  using assms by (simp add: on_type_def)

definition env_step :: "sys \<Rightarrow> string list \<Rightarrow> plugin_config \<Rightarrow> plugin_config" where
  "env_step sys ts p =
     (if pc_type p \<in> set ts then p\<lparr>pc_config := env_notifier sys (pc_type p) (pc_config p)\<rparr> else p)"

lemma on_type_env_step:
  "t \<notin> set ts \<Longrightarrow> on_type t (env_notifier sys t) (map (env_step sys ts) ps) = map (env_step sys (t # ts)) ps"
  by (rule on_type_notifiers) (auto simp: env_step_def)

lemma env_notifier_other:
  "t \<notin> set [''ntfy'', ''gotify'', ''webhook'', ''discord'', ''telegram''] \<Longrightarrow> env_notifier sys t m = m"
  by (simp add: env_notifier_def)

lemma env_notifiers_step_all:
  "env_notifiers sys ps =
     map (env_step sys [''ntfy'', ''gotify'', ''webhook'', ''discord'', ''telegram'']) ps"
  unfolding env_notifiers_def env_step_def using env_notifier_other by (intro map_cong refl) auto

lemma env_notifiers_steps:
  "on_type ''ntfy'' (env_notifier sys ''ntfy'') (on_type ''gotify'' (env_notifier sys ''gotify'')
     (on_type ''webhook'' (env_notifier sys ''webhook'') (on_type ''discord'' (env_notifier sys ''discord'')
       (on_type ''telegram'' (env_notifier sys ''telegram'') ps)))) = env_notifiers sys ps"
proof -
  have "map (env_step sys []) ps = ps"
    by (simp add: env_step_def map_idI)
  then have "on_type ''telegram'' (env_notifier sys ''telegram'') ps = map (env_step sys [''telegram'']) ps"
    using on_type_env_step [of "''telegram''" "[]" sys ps] by simp
  then show ?thesis
    by (simp add: on_type_env_step env_notifiers_step_all)
qed

lemma ApplyEnvOverrides_eq:
  "ApplyEnvOverrides sys cfg = cfg
     \<lparr>cfg_instance_name := env_scalar sys ''VERSENTRY_INSTANCE_NAME'' (cfg_instance_name cfg),
      cfg_state_file := env_scalar sys ''VERSENTRY_STATE_FILE'' (cfg_state_file cfg),
      cfg_registry_proxy := env_scalar sys ''VERSENTRY_REGISTRY_PROXY'' (cfg_registry_proxy cfg),
      cfg_registries := env_registries sys (cfg_registries cfg),
      cfg_notifiers := env_notifiers sys (cfg_notifiers cfg)\<rparr>"
  by (simp add: ApplyEnvOverrides_def Let_def notifier_steps registry_step scalar_steps
      env_notifiers_steps)

lemma env_scalar_idem [simp]: "env_scalar sys k (env_scalar sys k old) = env_scalar sys k old"
  by (simp add: env_scalar_def Let_def)

lemma env_registries_idem: "env_registries sys (env_registries sys ps) = env_registries sys ps"
proof (induction ps)
  case (Cons p ps)
  then show ?case
    by (auto simp: env_registries_def on_type_def put_str_present map_of_put_str)
qed (simp add: env_registries_def on_type_def)

lemma env_notifier_idem: "env_notifier sys t (env_notifier sys t m) = env_notifier sys t m"
  by (auto simp: env_notifier_def put_str_present map_of_put_str map_of_put_auth_header
      put_auth_header_idem)

lemma env_notifiers_idem: "env_notifiers sys (env_notifiers sys ps) = env_notifiers sys ps"
  by (simp add: env_notifiers_def env_notifier_idem)

lemma ApplyEnvOverrides_frame:
  "cfg_rules (ApplyEnvOverrides sys cfg) = cfg_rules cfg"
  "cfg_exclude_containers (ApplyEnvOverrides sys cfg) = cfg_exclude_containers cfg"
  "cfg_schedule (ApplyEnvOverrides sys cfg) = cfg_schedule cfg"
  "cfg_timezone (ApplyEnvOverrides sys cfg) = cfg_timezone cfg"
  "cfg_provider (ApplyEnvOverrides sys cfg) = cfg_provider cfg"
  "cfg_interval (ApplyEnvOverrides sys cfg) = cfg_interval cfg"
  "map pc_type (cfg_notifiers (ApplyEnvOverrides sys cfg)) = map pc_type (cfg_notifiers cfg)"
  by (simp_all add: ApplyEnvOverrides_eq env_notifiers_def)

lemma Load_Inr:
  assumes "Load sys path = Inr cfg'"
  obtains cfg where "cfg' = ApplyEnvOverrides sys cfg" "pc_type (cfg_provider cfg) \<noteq> []"
    "cfg_notifiers cfg \<noteq> []" "validateRules sys (cfg_rules cfg) = None"
    "\<exists>r. ExcludeContainerSet (cfg_exclude_containers cfg) = Inr r"
    "check_schedule sys cfg = None"
  using assms by (auto simp: Load_def split: sum.splits if_splits option.splits)

lemma check_schedule_env:
  "check_schedule sys (ApplyEnvOverrides sys cfg) = check_schedule sys cfg"
proof -
  have "ScheduleLocation sys (ApplyEnvOverrides sys cfg) = ScheduleLocation sys cfg"
    unfolding ScheduleLocation_def ApplyEnvOverrides_frame ..
  then show ?thesis
    unfolding check_schedule_def ApplyEnvOverrides_frame by (rule arg_cong)
qed

section \<open>Derived paths and names\<close>

definition ResolveStatePath :: "string \<Rightarrow> string \<Rightarrow> string" where
  "ResolveStatePath configPath stateFile =
     (if stateFile \<noteq> [] then stateFile
      else let dir = dir_path configPath; dir = (if dir = [] then ''.'' else dir)
           in join_path [dir, ''state.json''])"

definition looksLikeContainerID :: "string \<Rightarrow> bool" where
  "looksLikeContainerID s \<longleftrightarrow> length s = 12 \<and> list_all is_hex s"

definition hostNameFile :: string where "hostNameFile = ''/etc/versentry/hostname''"

definition readHostnameFile :: "sys \<Rightarrow> string \<Rightarrow> string" where
  "readHostnameFile sys path =
     (case sys_read_file sys path of Inl _ \<Rightarrow> [] | Inr raw \<Rightarrow> trim_space raw)"

definition ResolveInstanceName :: "sys \<Rightarrow> string \<Rightarrow> string" where
  "ResolveInstanceName sys configured =
     (let name = trim_space configured in
      if name \<noteq> [] then name
      else let name = readHostnameFile sys hostNameFile in
      if name \<noteq> [] \<and> \<not> looksLikeContainerID name then name
      else let host = (case sys_hostname sys of Inl _ \<Rightarrow> [] | Inr h \<Rightarrow> trim_space h) in
      if host \<noteq> [] \<and> \<not> looksLikeContainerID host then host
      else ''versentry'')"

lemma clean_path_nonempty: "clean_path p \<noteq> []"
proof (cases "is_rooted p \<or> p = [] \<or> clean_elems p = []")
  case False
  then obtain e es where es: "clean_elems p = e # es" by (cases "clean_elems p") auto
  then have "plain_elem e" using clean_elems_plain [of e p] by simp
  with es False show ?thesis by (cases es) (auto simp: clean_path_def plain_elem_def)
qed (auto simp: clean_path_def)

lemma dir_path_nonempty: "dir_path p \<noteq> []"
  by (simp add: dir_path_def clean_path_nonempty)

lemma ResolveInstanceName_nonempty: "ResolveInstanceName sys name \<noteq> []"
  by (simp add: ResolveInstanceName_def Let_def)

lemma ResolveInstanceName_not_id:
  "trim_space name = [] \<Longrightarrow> \<not> looksLikeContainerID (ResolveInstanceName sys name)"
  by (auto simp: ResolveInstanceName_def Let_def looksLikeContainerID_def)

end
