(* ===== verification/HttpRetry.thy ===== *)
theory HttpRetry
  imports World
begin

text \<open>
  HTTP delivery with retries (\<open>internal/notifier/httpretry\<close>), which all network notifiers share: the
  classification of one attempt and the loop over attempts. The attempt itself, its outcome
  classifier and an alternative sleep are arguments; \<open>http.ParseTime\<close> is a parameter. A duration in
  a message is kept as its number.
\<close>

section \<open>Classifying one attempt\<close>

record outcome =
  oc_err :: "go_error option"
  oc_retryable :: bool
  oc_retry_after :: duration

record attempt_result =
  ar_status :: int
  ar_body :: string
  ar_retry_after :: string
  ar_err :: "go_error option"

definition DefaultRetries :: int where "DefaultRetries = 3"
definition DefaultRetryDelay :: duration where "DefaultRetryDelay = second"
definition DefaultMaxRetryAfter :: duration where "DefaultMaxRetryAfter = 60 * second"
definition DefaultBackoffMultiplier :: int where "DefaultBackoffMultiplier = 2"

definition success :: outcome where
  "success = \<lparr>oc_err = None, oc_retryable = False, oc_retry_after = 0\<rparr>"

definition failure :: "bool \<Rightarrow> go_error \<Rightarrow> outcome" where
  "failure retryable err = \<lparr>oc_err = Some err, oc_retryable = retryable, oc_retry_after = 0\<rparr>"

text \<open>\<open>time.Until\<close> saturates at the ends of the 64-bit range.\<close>

definition saturate :: "int \<Rightarrow> duration" where
  "saturate d = max (- (2 ^ 63)) (min (2 ^ 63 - 1) d)"

definition parseRetryAfter :: "(string \<Rightarrow> int option) \<Rightarrow> int \<Rightarrow> string \<Rightarrow> duration" where
  "parseRetryAfter http_time now raw =
     (let raw = trim_space raw;
          date = (case http_time raw of
                    Some t \<Rightarrow> if 0 < saturate (t - now) then saturate (t - now) else 0
                  | None \<Rightarrow> 0)
      in if raw = [] then 0
         else case atoi raw of
           Some seconds \<Rightarrow> if 0 < seconds then dur_mul seconds second else date
         | None \<Rightarrow> date)"

definition rateLimitOutcome :: "(string \<Rightarrow> int option) \<Rightarrow> int \<Rightarrow> string \<Rightarrow> duration \<Rightarrow> string \<Rightarrow> outcome" where
  "rateLimitOutcome http_time now header maxRetryAfter kind =
     (let retryAfter = parseRetryAfter http_time now header in
      if retryAfter > maxRetryAfter then
        failure False (ErrText [Str kind, Lit '' for '', Num retryAfter, Lit '' (exceeds '',
          Num maxRetryAfter, Lit '' cap)''])
      else
        \<lparr>oc_err = Some (ErrText [Str kind]), oc_retryable = True,
         oc_retry_after = (if retryAfter \<le> 0 then DefaultRetryDelay else retryAfter)\<rparr>)"

definition clientOutcome :: "int \<Rightarrow> string \<Rightarrow> string \<Rightarrow> outcome" where
  "clientOutcome status body kind =
     (let text = trim_space body; text = (if text = [] then kind else text)
      in failure False (ErrText [Lit ''HTTP '', Num status, Lit '': '', Str text]))"

definition DefaultClassifier :: "(string \<Rightarrow> int option) \<Rightarrow> int \<Rightarrow> attempt_result \<Rightarrow> outcome" where
  "DefaultClassifier http_time now res =
     (let status = ar_status res; body = ar_body res in
      case ar_err res of
        Some err \<Rightarrow>
          failure (\<not> (err_is err ErrCanceled \<or> err_is err ErrDeadline)) (ErrWrap [Lit ''request: ''] err)
      | None \<Rightarrow>
          if 200 \<le> status \<and> status < 300 then success
          else if status = 429 then
            rateLimitOutcome http_time now (ar_retry_after res) DefaultMaxRetryAfter ''rate limited (HTTP 429)''
          else if status = 400 then clientOutcome status body ''bad request''
          else if status = 401 then clientOutcome status body ''unauthorized''
          else if status = 403 then clientOutcome status body ''forbidden''
          else if status = 404 then clientOutcome status body ''not found''
          else if 500 \<le> status \<and> status < 600 then
            failure True (ErrText [Lit ''HTTP '', Num status, Lit '': server error''])
          else if 400 \<le> status \<and> status < 500 then clientOutcome status body ''client error''
          else if status = 0 then failure False (ErrText [Lit ''empty HTTP response''])
          else failure False (ErrText [Lit ''HTTP '', Num status]))"

section \<open>The loop\<close>

type_synonym 'w sleeper = "ctx \<Rightarrow> duration \<Rightarrow> 'w \<Rightarrow> go_error option \<times> 'w"

record 'w retry_config =
  hc_max_attempts :: int
  hc_retry_delay :: duration
  hc_max_retry_after :: duration
  hc_multiplier :: int
  hc_sleep :: "'w sleeper option"
  hc_component :: string
  hc_fields :: "(string \<times> attr) list"

definition withDefaults :: "'w env \<Rightarrow> 'w retry_config \<Rightarrow> 'w retry_config" where
  "withDefaults e cfg =
     \<lparr>hc_max_attempts = (if hc_max_attempts cfg \<le> 0 then DefaultRetries else hc_max_attempts cfg),
      hc_retry_delay = (if hc_retry_delay cfg \<le> 0 then DefaultRetryDelay else hc_retry_delay cfg),
      hc_max_retry_after =
        (if hc_max_retry_after cfg \<le> 0 then DefaultMaxRetryAfter else hc_max_retry_after cfg),
      hc_multiplier = (if hc_multiplier cfg \<le> 0 then DefaultBackoffMultiplier else hc_multiplier cfg),
      hc_sleep = (case hc_sleep cfg of None \<Rightarrow> Some (sleepContext e) | Some s \<Rightarrow> Some s),
      hc_component = (if hc_component cfg = [] then ''http'' else hc_component cfg),
      hc_fields = hc_fields cfg\<rparr>"

text \<open>The loop multiplies the delay once for every attempt but the first, wrapping at 64 bits.\<close>

definition delayForAttempt :: "'w retry_config \<Rightarrow> nat \<Rightarrow> duration \<Rightarrow> duration" where
  "delayForAttempt cfg attempt retryAfter =
     (if 0 < retryAfter then retryAfter
      else ((\<lambda>delay. dur_mul (hc_multiplier cfg) delay) ^^ (attempt - 1)) (hc_retry_delay cfg))"

text \<open>
  One warning per retry: the attempt, the delay before the next one and the error. The loop keeps its
  warnings beside the lines it logs, so that statements can speak about them.
\<close>

datatype retry_note = RetryNote nat duration go_error

fun retry_line :: "'w retry_config \<Rightarrow> retry_note \<Rightarrow> log_line" where
  "retry_line cfg (RetryNote try delay err) =
     LogLine LevelWarn (hc_component cfg @ '' attempt failed, retrying'')
       ([(''component'', AttrStr (hc_component cfg)), (''attempt'', AttrNum (int try)),
         (''max_attempts'', AttrNum (hc_max_attempts cfg)), (''delay'', AttrNum delay),
         (''error'', AttrErr err)] @ hc_fields cfg)"

fun do_from :: "'w env \<Rightarrow> ctx \<Rightarrow> 'w retry_config \<Rightarrow> (int \<Rightarrow> attempt_result \<Rightarrow> outcome)
    \<Rightarrow> (ctx \<Rightarrow> 'w \<Rightarrow> attempt_result \<times> 'w) \<Rightarrow> nat \<Rightarrow> nat \<Rightarrow> go_error option \<Rightarrow> retry_note list \<Rightarrow> 'w
    \<Rightarrow> go_error option \<times> retry_note list \<times> 'w" where
  "do_from e c cfg classify attempt try 0 lastErr warned w = (lastErr, warned, w)"
| "do_from e c cfg classify attempt try (Suc left) lastErr warned w =
     (case e_err e c w of
        Some err \<Rightarrow> (Some err, warned, w)
      | None \<Rightarrow>
     (case attempt c w of (res, w) \<Rightarrow>
      let out = classify (e_now e w) res in
      case oc_err out of
        None \<Rightarrow> (None, warned, w)
      | Some err \<Rightarrow>
          if \<not> oc_retryable out \<or> left = 0 then (Some err, warned, w)
          else
            let delay = delayForAttempt cfg try (oc_retry_after out);
                note = RetryNote try delay err;
                warned = warned @ [note];
                w = e_log e (retry_line cfg note) w
            in case (case hc_sleep cfg of None \<Rightarrow> sleepContext e | Some s \<Rightarrow> s) c delay w of
                 (Some err, w) \<Rightarrow> (Some err, warned, w)
               | (None, w) \<Rightarrow> do_from e c cfg classify attempt (Suc try) left (Some err) warned w))"

definition Do :: "'w env \<Rightarrow> ctx \<Rightarrow> 'w retry_config \<Rightarrow> (int \<Rightarrow> attempt_result \<Rightarrow> outcome)
    \<Rightarrow> (ctx \<Rightarrow> 'w \<Rightarrow> attempt_result \<times> 'w) \<Rightarrow> 'w \<Rightarrow> go_error option \<times> retry_note list \<times> 'w" where
  "Do e c cfg classify attempt w =
     (let cfg = withDefaults e cfg in
      do_from e c cfg classify attempt 1 (nat (hc_max_attempts cfg)) None [] w)"

section \<open>Facts of the loop\<close>

text \<open>One attempt that failed with \<open>err\<close>: its outcome.\<close>

definition failed_attempt :: "'w env \<Rightarrow> ctx \<Rightarrow> (int \<Rightarrow> attempt_result \<Rightarrow> outcome)
    \<Rightarrow> (ctx \<Rightarrow> 'w \<Rightarrow> attempt_result \<times> 'w) \<Rightarrow> outcome \<Rightarrow> go_error \<Rightarrow> bool" where
  "failed_attempt e c classify attempt out err \<longleftrightarrow>
     (\<exists>w res w'. attempt c w = (res, w') \<and> out = classify (e_now e w') res \<and> oc_err out = Some err)"

definition good_note :: "'w env \<Rightarrow> ctx \<Rightarrow> 'w retry_config \<Rightarrow> (int \<Rightarrow> attempt_result \<Rightarrow> outcome)
    \<Rightarrow> (ctx \<Rightarrow> 'w \<Rightarrow> attempt_result \<times> 'w) \<Rightarrow> nat \<Rightarrow> retry_note \<Rightarrow> bool" where
  "good_note e c cfg classify attempt i note \<longleftrightarrow>
     (\<exists>out err. failed_attempt e c classify attempt out err \<and> oc_retryable out
        \<and> note = RetryNote (Suc i) (delayForAttempt cfg (Suc i) (oc_retry_after out)) err)"

text \<open>
  A delivery from \<open>w\<close> that is still on after some attempts: one after the other, each attempt was made in
  the world the one before it (and the warning and the wait after that) left, with the context alive, it
  failed with a retryable outcome, and it was followed by its warning and a wait that ended normally. The
  list holds the warnings, so its length is the number of attempts made.
\<close>

definition waits :: "'w env \<Rightarrow> 'w retry_config \<Rightarrow> 'w sleeper" where
  "waits e cfg = (case hc_sleep cfg of None \<Rightarrow> sleepContext e | Some s \<Rightarrow> s)"

inductive retried :: "'w env \<Rightarrow> ctx \<Rightarrow> 'w retry_config \<Rightarrow> (int \<Rightarrow> attempt_result \<Rightarrow> outcome)
    \<Rightarrow> (ctx \<Rightarrow> 'w \<Rightarrow> attempt_result \<times> 'w) \<Rightarrow> 'w \<Rightarrow> retry_note list \<Rightarrow> 'w \<Rightarrow> bool"
  for e c cfg classify attempt w where
  retried_start: "retried e c cfg classify attempt w [] w"
| retried_again: "retried e c cfg classify attempt w warns u \<Longrightarrow> e_err e c u = None \<Longrightarrow> attempt c u = (res, u1)
    \<Longrightarrow> out = classify (e_now e u1) res \<Longrightarrow> oc_err out = Some err \<Longrightarrow> oc_retryable out
    \<Longrightarrow> delay = delayForAttempt cfg (Suc (length warns)) (oc_retry_after out)
    \<Longrightarrow> retry = RetryNote (Suc (length warns)) delay err
    \<Longrightarrow> waits e cfg c delay (e_log e (retry_line cfg retry) u1) = (None, u2)
    \<Longrightarrow> retried e c cfg classify attempt w (warns @ [retry]) u2"

text \<open>
  How a delivery ends that got as far as the world \<open>v\<close>: with the error of its context; or with one more
  attempt, the last one, that succeeded, that failed for good or used up the attempts (its error is
  returned), or that was warned about and whose wait was interrupted.
\<close>

definition ends :: "'w env \<Rightarrow> ctx \<Rightarrow> 'w retry_config \<Rightarrow> (int \<Rightarrow> attempt_result \<Rightarrow> outcome)
    \<Rightarrow> (ctx \<Rightarrow> 'w \<Rightarrow> attempt_result \<times> 'w) \<Rightarrow> int \<Rightarrow> retry_note list \<Rightarrow> 'w
    \<Rightarrow> go_error option \<times> retry_note list \<times> 'w \<Rightarrow> bool" where
  "ends e c cfg classify attempt max_attempts warns v result \<longleftrightarrow>
     (\<exists>err. e_err e c v = Some err \<and> result = (Some err, warns, v))
   \<or> (\<exists>res w' out. e_err e c v = None \<and> attempt c v = (res, w') \<and> out = classify (e_now e w') res
        \<and> (oc_err out = None \<and> result = (None, warns, w')
         \<or> (\<exists>err. oc_err out = Some err \<and> (\<not> oc_retryable out \<or> int (length warns) + 1 = max_attempts)
              \<and> result = (Some err, warns, w'))
         \<or> (\<exists>err delay retry serr w2. oc_err out = Some err \<and> oc_retryable out
              \<and> int (length warns) + 1 < max_attempts
              \<and> delay = delayForAttempt cfg (Suc (length warns)) (oc_retry_after out)
              \<and> retry = RetryNote (Suc (length warns)) delay err
              \<and> waits e cfg c delay (e_log e (retry_line cfg retry) w') = (Some serr, w2)
              \<and> result = (Some serr, warns @ [retry], w2))))"

lemma do_from_run:
  assumes "do_from e c cfg classify attempt (Suc (length warned)) (Suc left) lastErr warned u = result"
    and "retried e c cfg classify attempt w warned u"
  shows "\<exists>warns v. retried e c cfg classify attempt w warns v \<and> length warns \<le> length warned + left
    \<and> ends e c cfg classify attempt (int (length warned + Suc left)) warns v result"
  using assms
proof (induction left arbitrary: lastErr warned u)
  case 0
  have "ends e c cfg classify attempt (int (length warned + Suc 0)) warned u result"
    using 0(1) by (auto simp: ends_def Let_def split: option.splits prod.splits)
  with 0(2) show ?case by (intro exI [of _ warned] exI [of _ u]) simp
next
  case (Suc left)
  let ?max = "int (length warned + Suc (Suc left))"
  obtain res u1 where a: "attempt c u = (res, u1)" by fastforce
  let ?out = "classify (e_now e u1) res"
  let ?delay = "delayForAttempt cfg (Suc (length warned)) (oc_retry_after ?out)"
  show ?case
  proof (cases "e_err e c u = None \<and> oc_err ?out \<noteq> None \<and> oc_retryable ?out")
    case False
    then have "ends e c cfg classify attempt ?max warned u result"
      using Suc.prems(1) a by (auto simp: ends_def Let_def split: option.splits)
    with Suc.prems(2) show ?thesis by (intro exI [of _ warned] exI [of _ u]) simp
  next
    case True
    then obtain err where alive: "e_err e c u = None" and err: "oc_err ?out = Some err" and retry: "oc_retryable ?out"
      by auto
    let ?note = "RetryNote (Suc (length warned)) ?delay err"
    obtain sr u2 where sl: "waits e cfg c ?delay (e_log e (retry_line cfg ?note) u1) = (sr, u2)" by fastforce
    show ?thesis
    proof (cases sr)
      case (Some serr)
      then have "result = (Some serr, warned @ [?note], u2)"
        using Suc.prems(1) a alive err retry sl [unfolded waits_def] by (simp add: Let_def)
      then have "ends e c cfg classify attempt ?max warned u result"
        using alive a err retry sl Some unfolding ends_def by auto
      with Suc.prems(2) show ?thesis by (intro exI [of _ warned] exI [of _ u]) simp
    next
      case None
      then have "do_from e c cfg classify attempt (Suc (length (warned @ [?note]))) (Suc left) (Some err)
          (warned @ [?note]) u2 = result"
        using Suc.prems(1) a alive err retry sl [unfolded waits_def] by (simp add: Let_def)
      moreover have "retried e c cfg classify attempt w (warned @ [?note]) u2"
        using retried_again [OF Suc.prems(2) alive a refl err retry refl refl] sl None by simp
      ultimately obtain warns v where "retried e c cfg classify attempt w warns v"
        "length warns \<le> length (warned @ [?note]) + left"
        "ends e c cfg classify attempt (int (length (warned @ [?note]) + Suc left)) warns v result"
        using Suc.IH by blast
      then show ?thesis by (intro exI [of _ warns] exI [of _ v]) simp
    qed
  qed
qed

lemma withDefaults_positive [simp]:
  "0 < hc_max_attempts (withDefaults e cfg)" "0 < hc_retry_delay (withDefaults e cfg)"
  "0 < hc_multiplier (withDefaults e cfg)"
  by (simp_all add: withDefaults_def DefaultRetries_def DefaultRetryDelay_def DefaultBackoffMultiplier_def
      second_def)

lemma Do_run:
  "\<exists>warns v. retried e c (withDefaults e cfg) classify attempt w warns v
    \<and> int (length warns) < hc_max_attempts (withDefaults e cfg)
    \<and> ends e c (withDefaults e cfg) classify attempt (hc_max_attempts (withDefaults e cfg)) warns v
        (Do e c cfg classify attempt w)"
proof -
  define d where "d = withDefaults e cfg"
  obtain left where left: "nat (hc_max_attempts d) = Suc left"
    using withDefaults_positive(1) [of e cfg] gr0_implies_Suc [of "nat (hc_max_attempts d)"] by (auto simp: d_def)
  have "do_from e c d classify attempt (Suc (length ([] :: retry_note list))) (Suc left) None [] w
      = Do e c cfg classify attempt w"
    using left by (simp add: Do_def Let_def d_def)
  from do_from_run [OF this retried_start] obtain warns v where "retried e c d classify attempt w warns v"
    "length warns \<le> left" "ends e c d classify attempt (int (Suc left)) warns v (Do e c cfg classify attempt w)"
    by auto
  moreover have "hc_max_attempts d = int (Suc left)" using left by simp
  ultimately show ?thesis unfolding d_def [symmetric] by (intro exI [of _ warns] exI [of _ v]) simp
qed

lemma retried_good:
  "retried e c cfg classify attempt w warns v \<Longrightarrow> \<forall>i<length warns. good_note e c cfg classify attempt i (warns ! i)"
proof (induction rule: retried.induct)
  case (retried_again warns u res u1 out err delay retry u2)
  then have "good_note e c cfg classify attempt (length warns) retry"
    unfolding good_note_def failed_attempt_def by blast
  with retried_again.IH show ?case by (auto simp: nth_append less_Suc_eq)
qed simp

lemma Do_warnings:
  assumes "Do e c cfg classify attempt w = (r, warned, w')"
  shows "\<forall>i<length warned. good_note e c (withDefaults e cfg) classify attempt i (warned ! i)"
proof -
  let ?d = "withDefaults e cfg"
  obtain warns v where chain: "retried e c ?d classify attempt w warns v"
    and over: "ends e c ?d classify attempt (hc_max_attempts ?d) warns v (r, warned, w')"
    using Do_run [of e c cfg classify attempt w] assms by auto
  have "warned = warns \<or> (\<exists>retry. warned = warns @ [retry] \<and> good_note e c ?d classify attempt (length warns) retry)"
    using over unfolding ends_def good_note_def failed_attempt_def by blast
  with retried_good [OF chain] show ?thesis by (auto simp: nth_append less_Suc_eq)
qed

lemma Do_success:
  assumes "Do e c cfg classify attempt w = (None, warned, w')"
  obtains v res where "attempt c v = (res, w')" "oc_err (classify (e_now e w') res) = None"
  using Do_run [of e c cfg classify attempt w] assms unfolding ends_def by auto

text \<open>Without overflow the backoff doubles (or whatever the multiplier is).\<close>

lemma backoff_exact:
  assumes "hc_retry_delay d * hc_multiplier d ^ k < 2 ^ 63" and "0 < hc_retry_delay d" and "0 < hc_multiplier d"
  shows "((\<lambda>delay. dur_mul (hc_multiplier d) delay) ^^ k) (hc_retry_delay d) = hc_retry_delay d * hc_multiplier d ^ k"
  using assms(1)
proof (induction k)
  case (Suc k)
  have "hc_retry_delay d * hc_multiplier d ^ k * 1 \<le> hc_retry_delay d * hc_multiplier d ^ k * hc_multiplier d"
    using assms(2,3) by (intro mult_left_mono) auto
  then have le: "hc_retry_delay d * hc_multiplier d ^ k \<le> hc_retry_delay d * hc_multiplier d ^ Suc k"
    by (simp add: mult.assoc mult.commute mult.left_commute)
  have "0 \<le> hc_retry_delay d * hc_multiplier d ^ Suc k" using assms(2,3) by simp
  with Suc.prems have "int64 (hc_multiplier d * (hc_retry_delay d * hc_multiplier d ^ k))"
    by (simp add: int64_def ac_simps)
  then show ?case
    using Suc.IH Suc.prems le by (simp add: dur_mul_exact ac_simps)
qed simp

lemma rate_limit_range:
  "oc_retryable (rateLimitOutcome ht now h maxd k) \<Longrightarrow> DefaultRetryDelay \<le> maxd \<Longrightarrow>
     0 < oc_retry_after (rateLimitOutcome ht now h maxd k) \<and> oc_retry_after (rateLimitOutcome ht now h maxd k) \<le> maxd"
  by (auto simp: rateLimitOutcome_def Let_def failure_def DefaultRetryDelay_def second_def split: if_splits)

lemma classifier_range:
  assumes "oc_retryable (DefaultClassifier ht now res)"
  shows "0 \<le> oc_retry_after (DefaultClassifier ht now res)
    \<and> oc_retry_after (DefaultClassifier ht now res) \<le> DefaultMaxRetryAfter"
proof (cases "ar_err res = None \<and> ar_status res = 429")
  case True
  then have "DefaultClassifier ht now res
      = rateLimitOutcome ht now (ar_retry_after res) DefaultMaxRetryAfter ''rate limited (HTTP 429)''"
    by (simp add: DefaultClassifier_def Let_def)
  with rate_limit_range [of ht now "ar_retry_after res" DefaultMaxRetryAfter "''rate limited (HTTP 429)''"] assms
  show ?thesis by (simp add: DefaultRetryDelay_def DefaultMaxRetryAfter_def second_def)
next
  case False
  then show ?thesis
    by (auto simp: DefaultClassifier_def Let_def failure_def success_def clientOutcome_def DefaultMaxRetryAfter_def
        second_def split: option.splits)
qed

section \<open>What the loop logs\<close>

text \<open>\<open>quiet lg f\<close>: the call \<open>f\<close> logs nothing.\<close>

definition quiet :: "('w \<Rightarrow> log_line list) \<Rightarrow> ('w \<Rightarrow> 'a \<times> 'w) \<Rightarrow> bool" where
  "quiet lg f \<longleftrightarrow> (\<forall>w. lg (snd (f w)) = lg w)"

lemma quietD: "quiet lg f \<Longrightarrow> f w = (x, w') \<Longrightarrow> lg w' = lg w"
  unfolding quiet_def by (metis snd_conv)

lemma do_from_log:
  assumes "do_from e c cfg classify attempt k left lastErr warned w = (r, warned', w')"
    and "observes lg e" and "quiet lg (attempt c)" and "hc_sleep cfg = Some (sleepContext e)"
  shows "\<exists>new. warned' = warned @ new \<and> lg w' = lg w @ map (retry_line cfg) new"
  using assms(1)
proof (induction left arbitrary: k lastErr warned w)
  case (Suc left)
  obtain res w1 where a: "attempt c w = (res, w1)" by fastforce
  have w1: "lg w1 = lg w" using quietD [OF assms(3) a] .
  let ?out = "classify (e_now e w1) res"
  consider (over) "e_err e c w \<noteq> None \<or> oc_err ?out = None \<or> \<not> oc_retryable ?out \<or> left = 0"
    | (retry) err where "e_err e c w = None" "oc_err ?out = Some err" "oc_retryable ?out" "left \<noteq> 0"
    by (cases "oc_err ?out") auto
  then show ?case
  proof cases
    case over
    with Suc.prems a w1 show ?thesis
      by (intro exI [of _ "[]"]) (auto simp: Let_def split: option.splits if_splits)
  next
    case retry
    let ?delay = "delayForAttempt cfg k (oc_retry_after ?out)"
    let ?note = "RetryNote k ?delay err"
    obtain sr w2 where s: "sleepContext e c ?delay (e_log e (retry_line cfg ?note) w1) = (sr, w2)" by fastforce
    have w2: "lg w2 = lg w @ [retry_line cfg ?note]"
      using observes_sleep [OF assms(2), of c ?delay "e_log e (retry_line cfg ?note) w1"]
      unfolding s snd_conv observes_log [OF assms(2)] w1 .
    show ?thesis
    proof (cases sr)
      case None
      then have "do_from e c cfg classify attempt (Suc k) left (Some err) (warned @ [?note]) w2 = (r, warned', w')"
        using Suc.prems a retry s assms(4) by (simp add: Let_def)
      from Suc.IH [OF this] w2 obtain new where "warned' = (warned @ [?note]) @ new"
        "lg w' = lg w @ map (retry_line cfg) (?note # new)" by auto
      then show ?thesis by (intro exI [of _ "?note # new"]) simp
    next
      case (Some serr)
      with Suc.prems a retry s assms(4) w2 show ?thesis by (intro exI [of _ "[?note]"]) (simp add: Let_def)
    qed
  qed
qed simp

text \<open>The lines of a delivery are its warnings, one per retry.\<close>

lemma Do_log:
  assumes "Do e c cfg classify attempt w = (r, warned, w')"
    and "observes lg e" and "quiet lg (attempt c)" and "hc_sleep cfg = Some (sleepContext e)"
  shows "lg w' = lg w @ map (retry_line (withDefaults e cfg)) warned"
proof -
  have "hc_sleep (withDefaults e cfg) = Some (sleepContext e)" using assms(4) by (simp add: withDefaults_def)
  moreover have "do_from e c (withDefaults e cfg) classify attempt 1 (nat (hc_max_attempts (withDefaults e cfg))) None [] w
      = (r, warned, w')" using assms(1) by (simp add: Do_def Let_def)
  ultimately show ?thesis using do_from_log [where lg = lg] assms(2,3) by fastforce
qed

lemma do_from_grows:
  "do_from e c cfg classify attempt k left lastErr warned w = (r, warned', w') \<Longrightarrow> \<exists>new. warned' = warned @ new"
proof (induction left arbitrary: k lastErr warned w)
  case (Suc left)
  obtain res w1 where a: "attempt c w = (res, w1)" by fastforce
  show ?case
  proof (cases "e_err e c w = None \<and> oc_retryable (classify (e_now e w1) res) \<and> left \<noteq> 0")
    case True
    show ?thesis
    proof (cases "oc_err (classify (e_now e w1) res)")
      case (Some err)
      let ?delay = "delayForAttempt cfg k (oc_retry_after (classify (e_now e w1) res))"
      obtain sr w2 where "(case hc_sleep cfg of None \<Rightarrow> sleepContext e | Some s \<Rightarrow> s) c ?delay
          (e_log e (retry_line cfg (RetryNote k ?delay err)) w1) = (sr, w2)" by fastforce
      with Suc.prems a True Some Suc.IH [of "Suc k" "Some err" "warned @ [RetryNote k ?delay err]" w2]
      show ?thesis by (cases sr) (auto simp: Let_def)
    qed (use Suc.prems a True in \<open>simp add: Let_def\<close>)
  qed (use Suc.prems a in \<open>auto simp: Let_def split: option.splits\<close>)
qed simp

text \<open>A first attempt that fails with a retryable error is warned about, if another attempt is allowed.\<close>

lemma Do_first_warning:
  assumes "Do e c cfg classify attempt w = (r, warned, w')"
    and "e_err e c w = None" and "attempt c w = (res, w1)"
    and "oc_err (classify (e_now e w1) res) = Some err" and "oc_retryable (classify (e_now e w1) res)"
    and "1 < hc_max_attempts cfg"
  shows "\<exists>delay rest. warned = RetryNote 1 delay err # rest"
proof -
  let ?d = "withDefaults e cfg"
  obtain k where k: "nat (hc_max_attempts ?d) = Suc (Suc k)"
    using assms(6) by (intro that [of "nat (hc_max_attempts cfg - 2)"]) (auto simp: withDefaults_def)
  let ?note = "RetryNote 1 (delayForAttempt ?d 1 (oc_retry_after (classify (e_now e w1) res))) err"
  obtain sr w2 where "(case hc_sleep ?d of None \<Rightarrow> sleepContext e | Some s \<Rightarrow> s) c
      (delayForAttempt ?d 1 (oc_retry_after (classify (e_now e w1) res))) (e_log e (retry_line ?d ?note) w1) = (sr, w2)"
    by fastforce
  then have "warned = [?note] \<or> do_from e c ?d classify attempt (Suc 1) (Suc k) (Some err) [?note] w2 = (r, warned, w')"
    using assms(1-5) k by (cases sr) (simp_all add: Do_def Let_def)
  then show ?thesis
  proof
    assume "do_from e c ?d classify attempt (Suc 1) (Suc k) (Some err) [?note] w2 = (r, warned, w')"
    from do_from_grows [OF this] show ?thesis by (simp only: append_Cons append_Nil) blast
  qed blast
qed

section \<open>Properties\<close>

text \<open>
  C25. A delivery makes at most the configured number of attempts, one after the other, and its answer is
  that of the last one: every attempt but the last failed with a retryable outcome and was followed by a
  warning with its number, its delay and its error, and by that wait; the delivery succeeds exactly if the
  last attempt does; otherwise it returns the error of the last attempt, which was not retryable or used
  up the attempts, or the error of the context or of the wait that stopped it, where it stopped.
\<close>
theorem Do_outcome:
  "\<exists>warns v. retried e c (withDefaults e cfg) classify attempt w warns v
    \<and> int (length warns) < hc_max_attempts (withDefaults e cfg)
    \<and> ends e c (withDefaults e cfg) classify attempt (hc_max_attempts (withDefaults e cfg)) warns v
        (Do e c cfg classify attempt w)"
  by (rule Do_run)

definition plain_config :: "'w retry_config" where
  "plain_config = \<lparr>hc_max_attempts = 3, hc_retry_delay = second, hc_max_retry_after = 0, hc_multiplier = 2,
     hc_sleep = None, hc_component = ''http'', hc_fields = []\<rparr>"

definition always :: "int \<Rightarrow> string \<Rightarrow> ctx \<Rightarrow> 'w \<Rightarrow> attempt_result \<times> 'w" where
  "always status header c w =
     (\<lparr>ar_status = status, ar_body = [], ar_retry_after = header, ar_err = None\<rparr>, w)"

text \<open>
  No wait is unbounded: with the default classifier every delay between two attempts is at most a
  minute or the doubled retry delay, as long as the doubling stays within 64 bits.
\<close>
lemma retry_delays_bounded:
  assumes "Do e c cfg (DefaultClassifier ht) attempt w = (r, warned, w')"
  defines "d \<equiv> withDefaults e cfg"
  assumes "RetryNote k delay err \<in> set warned"
    and "hc_retry_delay d * hc_multiplier d ^ (k - 1) < 2 ^ 63"
  shows "0 < delay \<and> (delay \<le> DefaultMaxRetryAfter \<or> delay = hc_retry_delay d * hc_multiplier d ^ (k - 1))"
proof -
  obtain i where i: "i < length warned" "warned ! i = RetryNote k delay err"
    using assms(3) by (auto simp: in_set_conv_nth)
  have "good_note e c d (DefaultClassifier ht) attempt i (warned ! i)"
    using Do_warnings [OF assms(1)] i(1) unfolding d_def by blast
  with i(2) obtain out where
    out: "failed_attempt e c (DefaultClassifier ht) attempt out err" "oc_retryable out"
    and k: "k = Suc i" and delay: "delay = delayForAttempt d k (oc_retry_after out)"
    by (auto simp: good_note_def)
  from out classifier_range have "oc_retry_after out \<le> DefaultMaxRetryAfter"
    unfolding failed_attempt_def by blast
  moreover have "0 < hc_retry_delay d * hc_multiplier d ^ (k - 1)"
    unfolding d_def by simp
  ultimately show ?thesis
    using delay backoff_exact [OF assms(4)] unfolding d_def by (auto simp: delayForAttempt_def)
qed

lemma retry_delays_bounded_witness:
  "\<exists>r w'. Do clock_env None plain_config (DefaultClassifier (\<lambda>_. None)) (always 503 []) 0
     = (r, [RetryNote 1 second (ErrText [Lit ''HTTP '', Num 503, Lit '': server error'']),
            RetryNote 2 (2 * second) (ErrText [Lit ''HTTP '', Num 503, Lit '': server error''])], w')
     \<and> 0 < 2 * second \<and> (2 * second \<le> DefaultMaxRetryAfter \<or> 2 * second = second * 2 ^ 1)"
proof -
  let ?err = "ErrText [Lit ''HTTP '', Num 503, Lit '': server error'']"
  have "\<exists>r w'. Do clock_env None plain_config (DefaultClassifier (\<lambda>_. None)) (always 503 []) 0
     = (r, [RetryNote 1 second ?err, RetryNote 2 (2 * second) ?err], w')"
    by (simp add: Do_def Let_def plain_config_def withDefaults_def DefaultClassifier_def always_def failure_def
        numeral_3_eq_3 clock_env_def delayForAttempt_def sleepContext_def second_def dur_mul_def wrap64_def)
  then obtain r w' where run: "Do clock_env None plain_config (DefaultClassifier (\<lambda>_. None)) (always 503 []) 0
     = (r, [RetryNote 1 second ?err, RetryNote 2 (2 * second) ?err], w')" by blast
  from retry_delays_bounded [OF run, of 2 "2 * second" ?err] run show ?thesis
    by (simp add: withDefaults_def plain_config_def second_def DefaultMaxRetryAfter_def)
qed

text \<open>
  C26. A rate limit is obeyed up to its cap, in 64-bit arithmetic: a server that asks for n seconds is
  asked again, after that time and at most a minute, exactly when n seconds - as a wrapped duration -
  are within the cap; up to 9223372036 seconds this means n is at most 60, above that the product
  wraps and a longer request can be answered with a short wait.
\<close>
theorem rate_limit_cap:
  fixes ht :: "string \<Rightarrow> int option" and now :: int
  assumes "ar_err res = None" and "ar_status res = 429"
    and "trim_space (ar_retry_after res) = itoa_nat n" and "0 < n" and "int64 (int n)"
  defines "out \<equiv> DefaultClassifier ht now res"
  shows "oc_err out \<noteq> None
    \<and> (oc_retryable out \<longleftrightarrow> dur_mul (int n) second \<le> DefaultMaxRetryAfter)
    \<and> (oc_retryable out \<longrightarrow> oc_retry_after out
          = (if dur_mul (int n) second \<le> 0 then DefaultRetryDelay else dur_mul (int n) second)
        \<and> 0 < oc_retry_after out \<and> oc_retry_after out \<le> DefaultMaxRetryAfter)
    \<and> (n \<le> 9223372036 \<longrightarrow> (oc_retryable out \<longleftrightarrow> n \<le> 60))"
proof -
  have p: "parseRetryAfter ht now (ar_retry_after res) = dur_mul (int n) second"
    using assms(3-5) by (simp add: parseRetryAfter_def Let_def atoi_itoa_nat)
  have out: "out = rateLimitOutcome ht now (ar_retry_after res) DefaultMaxRetryAfter ''rate limited (HTTP 429)''"
    using assms(1,2) by (simp add: out_def DefaultClassifier_def Let_def)
  have "oc_retryable out \<longleftrightarrow> n \<le> 60" if "n \<le> 9223372036"
  proof -
    have "dur_mul (int n) second = int n * second"
      using that by (intro dur_mul_exact) (simp add: int64_def second_def)
    then show ?thesis
      using out p by (simp add: rateLimitOutcome_def Let_def failure_def DefaultMaxRetryAfter_def second_def)
  qed
  then show ?thesis
    using out p by (auto simp: rateLimitOutcome_def Let_def failure_def DefaultMaxRetryAfter_def
        DefaultRetryDelay_def second_def)
qed

theorem rate_limit_cap_witness:
  "oc_retryable (DefaultClassifier (\<lambda>_. None) 0 (fst (always 429 ''18446744074'' None ())))
   \<and> oc_retry_after (DefaultClassifier (\<lambda>_. None) 0 (fst (always 429 ''18446744074'' None ()))) = 290448384"
proof -
  have t: "trim_space ''18446744074'' = ''18446744074''"
    by (rule trim_space_id) (simp_all add: graphic_def)
  have n: "itoa_nat 18446744074 = ''18446744074''"
    by (simp add: itoa_nat.simps digit_char_def char_of_def bit_Suc_0_iff)
  have d: "dur_mul 18446744074 second = 290448384"
    by (simp add: dur_mul_def wrap64_def second_def)
  have "DefaultMaxRetryAfter = 60000000000" by (simp add: DefaultMaxRetryAfter_def second_def)
  with rate_limit_cap [of "fst (always 429 ''18446744074'' None ())" 18446744074 "\<lambda>_. None" 0] t n d
  show ?thesis by (simp add: always_def int64_def)
qed

end
