(* ===== verification/Health.thy ===== *)
theory Health
  imports Engine ConfigLoad StateStore HttpRetry
begin

text \<open>
  The liveness stamp (\<open>internal/health/health.go\<close> and the heartbeat of \<open>internal/core/app.go\<close>): how often
  the daemon stamps, how old the stamp may be, and the health check. The stamp is a file of the disk of
  \<open>StateStore\<close>; the time format, modification times and the cron library's next activation are
  parameters.
\<close>

definition minHealthMaxAge :: duration where "minHealthMaxAge = 15 * minute"
definition cronFallbackMaxAge :: duration where "cronFallbackMaxAge = 26 * hour"
definition healthAgeMargin :: duration where "healthAgeMargin = 5 * minute"
definition maxHeartbeat :: duration where "maxHeartbeat = 15 * minute"
definition healthPingTimeout :: duration where "healthPingTimeout = 5 * second"

lemmas health_constants = minHealthMaxAge_def cronFallbackMaxAge_def healthAgeMargin_def maxHeartbeat_def
  minute_def hour_def second_def

record health_tools =
  hk_format :: "int \<Rightarrow> string"
  hk_parse :: "string \<Rightarrow> int option"
  hk_mod_time :: "string \<Rightarrow> int"
  hk_stat :: "string \<Rightarrow> go_error option"
  hk_cron_next :: "string \<Rightarrow> location \<Rightarrow> int \<Rightarrow> int"

section \<open>Ages\<close>

definition maxAgeFromInterval :: "duration \<Rightarrow> duration" where
  "maxAgeFromInterval interval =
     (let age = wrap64 (dur_mul 2 interval + healthAgeMargin) in
      if age < minHealthMaxAge then minHealthMaxAge else age)"

datatype cron_interval_error = CronLocation location_error | CronParse go_error | CronNotPositive duration

definition cronRunInterval :: "health_tools \<Rightarrow> sys \<Rightarrow> config \<Rightarrow> int \<Rightarrow> cron_interval_error + duration" where
  "cronRunInterval hk sys cfg now =
     (case ScheduleLocation sys cfg of
        Inl err \<Rightarrow> Inl (CronLocation err)
      | Inr loc \<Rightarrow>
     (case sys_cron_parse sys (cfg_schedule cfg) of
        Some err \<Rightarrow> Inl (CronParse err)
      | None \<Rightarrow>
          let next1 = hk_cron_next hk (cfg_schedule cfg) loc now;
              next2 = hk_cron_next hk (cfg_schedule cfg) loc next1;
              interval = saturate (next2 - next1)
          in if interval \<le> 0 then Inl (CronNotPositive interval) else Inr interval))"

definition maxAgeFromCron :: "health_tools \<Rightarrow> sys \<Rightarrow> config \<Rightarrow> int \<Rightarrow> duration" where
  "maxAgeFromCron hk sys cfg now =
     (case cronRunInterval hk sys cfg now of
        Inl _ \<Rightarrow> cronFallbackMaxAge
      | Inr interval \<Rightarrow> if interval \<le> 0 then cronFallbackMaxAge else maxAgeFromInterval interval)"

definition cron_error :: "cron_interval_error \<Rightarrow> go_error" where
  "cron_error e =
     (case e of
        CronLocation ScheduleNeedsTimezone \<Rightarrow>
          ErrText [Lit ''schedule requires timezone in config or TZ environment variable'']
      | CronLocation (InvalidTimezone name err) \<Rightarrow> ErrWrap [Lit ''invalid timezone '', Quoted name, Lit '': ''] err
      | CronParse err \<Rightarrow> err
      | CronNotPositive interval \<Rightarrow> ErrText [Lit ''non-positive cron interval '', Num interval])"

definition fallback_line :: "go_error \<Rightarrow> log_line" where
  "fallback_line err =
     LogLine LevelWarn ''health max age: cron interval unavailable, using fallback''
       [(''error'', AttrErr err), (''fallback'', AttrNum cronFallbackMaxAge)]"

text \<open>What computing the maximal age logs: a schedule without an interval is warned about.\<close>

definition max_age_lines :: "health_tools \<Rightarrow> sys \<Rightarrow> config \<Rightarrow> int \<Rightarrow> log_line list" where
  "max_age_lines hk sys cfg now =
     (if 0 < cfg_health_max_age cfg \<or> cfg_schedule cfg = [] then []
      else case cronRunInterval hk sys cfg now of Inl err \<Rightarrow> [fallback_line (cron_error err)] | Inr _ \<Rightarrow> [])"

definition DefaultMaxAge :: "health_tools \<Rightarrow> sys \<Rightarrow> config \<Rightarrow> int \<Rightarrow> duration" where
  "DefaultMaxAge hk sys cfg now =
     (if 0 < cfg_health_max_age cfg then cfg_health_max_age cfg
      else if cfg_schedule cfg \<noteq> [] then maxAgeFromCron hk sys cfg now
      else maxAgeFromInterval (cfg_interval cfg))"

text \<open>The maximal age is positive, so Go's division, which truncates, is \<open>div\<close>.\<close>

definition HeartbeatInterval :: "health_tools \<Rightarrow> sys \<Rightarrow> config \<Rightarrow> int \<Rightarrow> duration" where
  "HeartbeatInterval hk sys cfg now =
     (let maxAge = DefaultMaxAge hk sys cfg now; hb = maxAge div 4
      in if hb < minute then minute else if hb > maxHeartbeat then maxHeartbeat else hb)"

section \<open>The stamp\<close>

definition stamp_name :: string where "stamp_name = ''health''"

definition ResolveStampPath :: "string \<Rightarrow> string \<Rightarrow> string" where
  "ResolveStampPath configPath stateFile =
     join_path [dir_path (ResolveStatePath configPath stateFile), stamp_name]"

definition Touch :: "health_tools \<Rightarrow> io \<Rightarrow> int \<Rightarrow> string \<Rightarrow> string \<Rightarrow> disk \<Rightarrow> go_error option \<times> disk" where
  "Touch hk io now configPath stateFile dk =
     (let path = ResolveStampPath configPath stateFile in
      case io_mkdir io (dir_path path) of
        Some err \<Rightarrow> (Some (ErrWrap [Lit ''create health stamp dir: ''] err), dk)
      | None \<Rightarrow>
          (case write_file io path (hk_format hk now) dk of
             (Some err, dk) \<Rightarrow> (Some (ErrWrap [Lit ''write health stamp: ''] err), dk)
           | (None, dk) \<Rightarrow> (None, dk)))"

definition StampAge :: "health_tools \<Rightarrow> io \<Rightarrow> int \<Rightarrow> string \<Rightarrow> disk \<Rightarrow> go_error + duration" where
  "StampAge hk io now path dk =
     (case hk_stat hk path of
        Some err \<Rightarrow> Inl (ErrWrap [Lit ''health stamp: ''] err)
      | None \<Rightarrow>
     (case map_of (dk_files dk) path of
        None \<Rightarrow> Inl (ErrText [Lit ''health stamp missing at '', Str path, Lit '' (daemon not ready)''])
      | Some raw \<Rightarrow>
          let age_of_file = Inr (saturate (now - hk_mod_time hk path)) in
          (case io_read io path of
             Some _ \<Rightarrow> age_of_file
           | None \<Rightarrow>
               (case hk_parse hk (trim_space raw) of
                  Some t \<Rightarrow> Inr (saturate (now - t))
                | None \<Rightarrow> age_of_file))))"

definition health_Check :: "(string \<Rightarrow> cfg_map \<Rightarrow> go_error + 'w provider) \<Rightarrow> health_tools \<Rightarrow> io \<Rightarrow> 'w env \<Rightarrow> sys
    \<Rightarrow> ctx \<Rightarrow> config \<Rightarrow> string \<Rightarrow> disk \<Rightarrow> 'w \<Rightarrow> go_error option \<times> 'w" where
  "health_Check mk_prov hk io e sys c cfg configPath dk w =
     (case mk_prov (pc_type (cfg_provider cfg)) (pc_config (cfg_provider cfg)) of
        Inl err \<Rightarrow> (Some (ErrWrap [Lit ''provider: ''] err), w)
      | Inr prov \<Rightarrow>
          let timeout = t_provider (cfg_timeouts cfg);
              timeout = (if timeout \<le> 0 \<or> healthPingTimeout < timeout then healthPingTimeout else timeout)
          in (case pv_Ping prov (with_timeout e c timeout w) w of
                (Some err, w) \<Rightarrow> (Some (ErrWrap [Lit ''docker provider: ''] err), w)
              | (None, w) \<Rightarrow>
                  let stampPath = ResolveStampPath configPath (cfg_state_file cfg) in
                  (case StampAge hk io (e_now e w) stampPath dk of
                     Inl err \<Rightarrow> (Some err, w)
                   | Inr age \<Rightarrow>
                       let maxAge = DefaultMaxAge hk sys cfg (e_now e w);
                           w = fold (e_log e) (max_age_lines hk sys cfg (e_now e w)) w in
                       if maxAge < age then
                         (Some (ErrText [Lit ''health stamp stale at '', Str stampPath, Lit '': age '',
                            Num (age div second * second), Lit '' exceeds max '', Num maxAge]), w)
                       else (None, w))))"

section \<open>The heartbeat\<close>

text \<open>
  The goroutine of the daemon: every tick of its ticker stamps, a failure is only logged. Ticks arrive
  at the given times; the loop ends with its context.
\<close>

fun heartbeat :: "health_tools \<Rightarrow> io \<Rightarrow> string \<Rightarrow> config \<Rightarrow> int list \<Rightarrow> disk \<Rightarrow> diag \<Rightarrow> disk \<times> diag" where
  "heartbeat hk io configPath cfg [] dk d = (dk, d)"
| "heartbeat hk io configPath cfg (t # ts) dk d =
     (case Touch hk io t configPath (cfg_state_file cfg) dk of
        (Some err, dk) \<Rightarrow>
          heartbeat hk io configPath cfg ts dk (log_to LevelWarn ''health heartbeat failed'' [(''error'', AttrErr err)] d)
      | (None, dk) \<Rightarrow> heartbeat hk io configPath cfg ts dk d)"

text \<open>The goroutine started at \<open>now\<close>, up to its \<open>n\<close>-th tick: the ticker runs at the interval computed at the start.\<close>

definition runHealthHeartbeat :: "health_tools \<Rightarrow> sys \<Rightarrow> io \<Rightarrow> string \<Rightarrow> config \<Rightarrow> int \<Rightarrow> nat \<Rightarrow> disk \<Rightarrow> diag
    \<Rightarrow> disk \<times> diag" where
  "runHealthHeartbeat hk sys io configPath cfg now n dk d =
     (let interval = HeartbeatInterval hk sys cfg now in
      heartbeat hk io configPath cfg (map (\<lambda>i. now + int (Suc i) * interval) [0..<n]) dk
        (log_lines (max_age_lines hk sys cfg now) d))"

section \<open>Facts\<close>

lemma maxAgeFromInterval_min: "15 * minute \<le> maxAgeFromInterval d"
  by (simp add: maxAgeFromInterval_def Let_def minHealthMaxAge_def)

lemma DefaultMaxAge_cases:
  "(0 < cfg_health_max_age cfg \<and> DefaultMaxAge hk sys cfg now = cfg_health_max_age cfg)
   \<or> (cfg_health_max_age cfg \<le> 0 \<and> 15 * minute \<le> DefaultMaxAge hk sys cfg now)"
proof -
  have "15 * minute \<le> maxAgeFromCron hk sys cfg now"
    using maxAgeFromInterval_min by (auto simp: maxAgeFromCron_def health_constants split: sum.splits)
  then show ?thesis using maxAgeFromInterval_min by (auto simp: DefaultMaxAge_def)
qed

lemma DefaultMaxAge_pos: "0 < DefaultMaxAge hk sys cfg now"
  using DefaultMaxAge_cases [of cfg hk sys now] by (auto simp: health_constants)

lemma HeartbeatInterval_range:
  "minute \<le> HeartbeatInterval hk sys cfg now" "HeartbeatInterval hk sys cfg now \<le> 15 * minute"
  by (auto simp: HeartbeatInterval_def Let_def health_constants)

lemma heartbeat_beats_age:
  "HeartbeatInterval hk sys cfg t0 \<le> DefaultMaxAge hk sys cfg t1 \<longleftrightarrow> \<not> (0 < cfg_health_max_age cfg \<and> cfg_health_max_age cfg < minute)"
proof (cases "0 < cfg_health_max_age cfg")
  case True
  then have age: "DefaultMaxAge hk sys cfg t = cfg_health_max_age cfg" for t by (simp add: DefaultMaxAge_def)
  have "HeartbeatInterval hk sys cfg t0 \<le> max minute (cfg_health_max_age cfg div 4)"
    by (simp add: HeartbeatInterval_def age Let_def)
  with True HeartbeatInterval_range(1) [of hk sys cfg t0] show ?thesis
    unfolding age by (auto simp: not_less)
next
  case False
  with DefaultMaxAge_cases [of cfg hk sys t1] HeartbeatInterval_range(2) [of hk sys cfg t0] show ?thesis by linarith
qed

lemma Touch_stamp:
  "Touch hk io t configPath stateFile dk = (None, dk')
    \<Longrightarrow> map_of (dk_files dk') (ResolveStampPath configPath stateFile) = Some (hk_format hk t)"
  by (auto simp: Touch_def write_file_def put_file_def put_files_def Let_def split: option.splits prod.splits)

text \<open>The stamp is the state file only where the configuration names a state file \<open>health\<close>.\<close>

lemma stamp_apart:
  assumes "\<nexists>q. stateFile = q @ stamp_name"
  shows "ResolveStatePath configPath stateFile \<noteq> ResolveStampPath configPath stateFile"
proof -
  have names: "plain_elem ''state.json''" "''state.json'' \<noteq> dotdot" "plain_elem stamp_name" "stamp_name \<noteq> dotdot"
    by (simp_all add: plain_elem_def dot_def dotdot_def slash_def stamp_name_def)
  obtain q where q: "ResolveStampPath configPath stateFile = q @ stamp_name"
    using join_path_ends [OF names(3,4)] by (auto simp: ResolveStampPath_def)
  show ?thesis
  proof (cases "stateFile = []")
    case True
    obtain q' where "ResolveStatePath configPath [] = q' @ ''state.json''"
      using join_path_ends [OF names(1,2)] by (auto simp: ResolveStatePath_def Let_def)
    then have "last (ResolveStatePath configPath []) = CHR ''n''" by simp
    moreover have "last (ResolveStampPath configPath stateFile) = CHR ''h''" by (simp add: q stamp_name_def)
    ultimately show ?thesis using True by (auto simp del: last_append)
  next
    case False
    with assms q show ?thesis by (auto simp: ResolveStatePath_def)
  qed
qed

section \<open>Properties\<close>

text \<open>
  C34. A live daemon is reported healthy: between two heartbeats, whenever they are computed, the check
  accepts the last stamp, provided the Docker ping succeeds and \<open>health_max_age\<close> is unset or at least
  a minute. Below a minute the heartbeat, which is never faster than a minute, is slower than the age
  it has to keep up with.
\<close>

theorem heartbeat_keeps_healthy:
  assumes "Touch hk io t configPath (cfg_state_file cfg) dk = (None, dk')"
    and "hk_parse hk (trim_space (hk_format hk t)) = Some t"
    and "hk_stat hk (ResolveStampPath configPath (cfg_state_file cfg)) = None"
    and "io_read io (ResolveStampPath configPath (cfg_state_file cfg)) = None"
    and "mk_prov (pc_type (cfg_provider cfg)) (pc_config (cfg_provider cfg)) = Inr prov"
    and "\<And>c. pv_Ping prov c w = (None, w')"
    and "t \<le> e_now e w'" and "e_now e w' \<le> t + HeartbeatInterval hk sys cfg t0"
  shows "(HeartbeatInterval hk sys cfg t0 \<le> DefaultMaxAge hk sys cfg (e_now e w')
      \<longleftrightarrow> cfg_health_max_age cfg \<le> 0 \<or> minute \<le> cfg_health_max_age cfg)
    \<and> (cfg_health_max_age cfg \<le> 0 \<or> minute \<le> cfg_health_max_age cfg
      \<longrightarrow> fst (health_Check mk_prov hk io e sys c cfg configPath dk' w) = None)"
proof -
  have age: "HeartbeatInterval hk sys cfg t0 \<le> DefaultMaxAge hk sys cfg (e_now e w')
      \<longleftrightarrow> cfg_health_max_age cfg \<le> 0 \<or> minute \<le> cfg_health_max_age cfg"
    using heartbeat_beats_age by (auto simp: not_less)
  have "saturate (e_now e w' - t) = e_now e w' - t"
    using assms(7,8) HeartbeatInterval_range(2) [of hk sys cfg t0] by (simp add: saturate_def health_constants)
  moreover have "e_now e w' - t \<le> DefaultMaxAge hk sys cfg (e_now e w')"
    if "cfg_health_max_age cfg \<le> 0 \<or> minute \<le> cfg_health_max_age cfg"
    using age that assms(8) by linarith
  ultimately show ?thesis
    using assms(2-6) Touch_stamp [OF assms(1)] age by (auto simp: health_Check_def StampAge_def Let_def)
qed

definition sample_health :: health_tools where
  "sample_health =
     \<lparr>hk_format = \<lambda>_. ''5'', hk_parse = \<lambda>_. Some 5, hk_mod_time = \<lambda>_. 0, hk_stat = \<lambda>_. None,
      hk_cron_next = \<lambda>_ _ t. t + hour\<rparr>"

definition idle_provider :: "'w provider" where
  "idle_provider = \<lparr>pv_ListRunning = \<lambda>_ w. (Inr [], w), pv_LocalDigest = \<lambda>_ _ _ w. (Inr [], w), pv_Ping = \<lambda>_ w. (None, w)\<rparr>"

theorem heartbeat_keeps_healthy_witness:
  "\<exists>dk'. Touch sample_health demo_io 5 ''/d/c.yaml'' (cfg_state_file default_config) demo_disk = (None, dk')
     \<and> fst (health_Check (\<lambda>_ _. Inr idle_provider) sample_health demo_io clock_env quiet_sys None default_config
         ''/d/c.yaml'' dk' 7) = None"
proof -
  obtain dk' where t: "Touch sample_health demo_io 5 ''/d/c.yaml'' (cfg_state_file default_config) demo_disk = (None, dk')"
    by (simp add: Touch_def write_file_def demo_io_def Let_def)
  have now: "e_now clock_env 7 = 7" by (simp add: clock_env_def)
  have hb: "7 \<le> 5 + HeartbeatInterval sample_health quiet_sys default_config 5"
    using HeartbeatInterval_range(1) [of sample_health quiet_sys default_config 5] by (simp add: minute_def second_def)
  have "cfg_health_max_age default_config \<le> 0" by (simp add: default_config_def)
  with heartbeat_keeps_healthy [OF t, of "\<lambda>_ _. Inr idle_provider" idle_provider 7 7 clock_env quiet_sys 5 None] now hb
  show ?thesis using t by (auto simp: sample_health_def demo_io_def idle_provider_def)
qed

end
