(* ===== verification/App.thy ===== *)
theory App
  imports Engine ConfigLoad
begin

text \<open>
  The application (\<open>internal/core/app.go\<close>): building the registries, delivering a batch to all
  notifiers, one pass with its state handling, and the wiring of the plugins. Plugin factories, the
  notifiers' own delivery and the liveness stamp are parameters.
\<close>

section \<open>Registries\<close>

definition publicRegistryHosts :: "string list" where
  "publicRegistryHosts = [''index.docker.io'', ''ghcr.io'', ''quay.io'', ''registry.gitlab.com'']"

definition proxy_key :: string where "proxy_key = ''proxy''"
definition host_key :: string where "host_key = ''host''"
definition oci_type :: string where "oci_type = ''oci''"

definition withRegistryProxy :: "cfg_map \<Rightarrow> string \<Rightarrow> cfg_map" where
  "withRegistryProxy cfg globalProxy =
     (if globalProxy = [] then cfg
      else if map_of cfg proxy_key = None then set_key proxy_key (AStr globalProxy) cfg
      else cfg)"

definition copyPluginConfig :: "cfg_map \<Rightarrow> cfg_map" where
  "copyPluginConfig cfg = foldl (\<lambda>m (k, v). set_key k v m) [] cfg"

datatype registry_build_error =
    RegistryFailed nat go_error
  | RegistryConflict nat string string int string
  | BuiltinFailed string go_error

text \<open>
  An entry is its type, its position in the configuration (-1 for a built-in host) and the registry;
  \<open>mk_reg\<close> is \<open>registry.New\<close>.
\<close>

type_synonym 'w registry_entry = "string \<times> int \<times> 'w registry"

type_synonym 'w registry_factory = "string \<Rightarrow> cfg_map \<Rightarrow> go_error + 'w registry"

definition entry_of_host :: "'w registry_entry list \<Rightarrow> string \<Rightarrow> 'w registry_entry option" where
  "entry_of_host entries host = find (\<lambda>(_, _, reg). reg_host reg = host) entries"

fun configured_from :: "'w registry_factory \<Rightarrow> string \<Rightarrow> nat \<Rightarrow> plugin_config list
    \<Rightarrow> 'w registry_entry list \<Rightarrow> registry_build_error + 'w registry_entry list" where
  "configured_from mk_reg proxy i [] entries = Inr entries"
| "configured_from mk_reg proxy i (rc # rcs) entries =
     (case mk_reg (pc_type rc) (withRegistryProxy (pc_config rc) proxy) of
        Inl err \<Rightarrow> Inl (RegistryFailed i err)
      | Inr reg \<Rightarrow>
          (case entry_of_host entries (reg_host reg) of
             Some (typ, idx, _) \<Rightarrow> Inl (RegistryConflict i (pc_type rc) (reg_host reg) idx typ)
           | None \<Rightarrow> configured_from mk_reg proxy (Suc i) rcs (entries @ [(pc_type rc, int i, reg)])))"

fun builtin_from :: "'w registry_factory \<Rightarrow> string \<Rightarrow> string list \<Rightarrow> 'w registry_entry list
    \<Rightarrow> (string \<Rightarrow> bool) \<Rightarrow> registry_build_error + 'w registry_entry list" where
  "builtin_from mk_reg proxy [] entries seen = Inr entries"
| "builtin_from mk_reg proxy (host # hosts) entries seen =
     (if seen host then builtin_from mk_reg proxy hosts entries seen
      else case mk_reg oci_type (withRegistryProxy [(host_key, AStr host)] proxy) of
        Inl err \<Rightarrow> Inl (BuiltinFailed host err)
      | Inr reg \<Rightarrow> builtin_from mk_reg proxy hosts (entries @ [(oci_type, -1, reg)]) (seen(host := True)))"

definition buildRegistries :: "'w registry_factory \<Rightarrow> plugin_config list \<Rightarrow> string
    \<Rightarrow> registry_build_error + 'w registry list" where
  "buildRegistries mk_reg cfgs globalProxy =
     (case configured_from mk_reg globalProxy 0 cfgs [] of
        Inl err \<Rightarrow> Inl err
      | Inr entries \<Rightarrow>
     (case builtin_from mk_reg globalProxy publicRegistryHosts entries
             (\<lambda>host. entry_of_host entries host \<noteq> None) of
        Inl err \<Rightarrow> Inl err
      | Inr entries \<Rightarrow>
          Inr (map (\<lambda>(_, _, reg). reg) (filter (\<lambda>(_, idx, _). 0 \<le> idx) entries) @
               map (\<lambda>(_, _, reg). reg) (filter (\<lambda>(_, idx, _). idx < 0) entries))))"

section \<open>One pass and its notifications\<close>

record passMode =
  pm_suppress :: bool
  pm_updateState :: bool

definition scheduled :: passMode where "scheduled = \<lparr>pm_suppress = True, pm_updateState = True\<rparr>"
definition forceCheck :: passMode where "forceCheck = \<lparr>pm_suppress = False, pm_updateState = False\<rparr>"

record 'w notifierSlot =
  ns_typ :: string
  ns_Notify :: "ctx \<Rightarrow> update_available list \<Rightarrow> 'w \<Rightarrow> go_error option \<times> 'w"

record ('v, 'w) app =
  ap_engine :: "('v, 'w) engine"
  ap_notifiers :: "'w notifierSlot list"
  ap_codec :: codec
  ap_io :: io

record 'w run_state =
  rs_store :: store
  rs_disk :: disk
  rs_diag :: diag
  rs_world :: 'w

definition log_run :: "level \<Rightarrow> string \<Rightarrow> (string \<times> attr) list \<Rightarrow> 'w run_state \<Rightarrow> 'w run_state" where
  "log_run lvl text attrs s = s\<lparr>rs_diag := log_to lvl text attrs (rs_diag s)\<rparr>"

fun notify_from :: "'w notifierSlot list \<Rightarrow> ctx \<Rightarrow> update_available list \<Rightarrow> bool \<Rightarrow> 'w run_state
    \<Rightarrow> bool \<times> 'w run_state" where
  "notify_from [] c batch allOK s = (allOK, s)"
| "notify_from (slot # slots) c batch allOK s =
     (case ns_Notify slot c batch (rs_world s) of
        (Some err, w) \<Rightarrow>
          notify_from slots c batch False
            (log_run LevelError ''notifier failed''
               [(''notifier'', AttrStr (ns_typ slot)), (''error'', AttrErr err)] (s\<lparr>rs_world := w\<rparr>))
      | (None, w) \<Rightarrow>
          notify_from slots c batch allOK
            (log_run LevelInfo ''notifier delivered''
               [(''notifier'', AttrStr (ns_typ slot)), (''updates'', AttrNum (int (length batch)))]
               (s\<lparr>rs_world := w\<rparr>)))"

definition notifyAll :: "('v, 'w) app \<Rightarrow> ctx \<Rightarrow> update_available list \<Rightarrow> 'w run_state \<Rightarrow> bool \<times> 'w run_state" where
  "notifyAll app c batch s = notify_from (ap_notifiers app) c batch True s"

text \<open>
  \<open>has_store\<close> tells whether the pass was given the store (the pointer may be nil). The result is the
  error, if any.
\<close>

definition deliver_phase :: "('v, 'w) app \<Rightarrow> ctx \<Rightarrow> passMode \<Rightarrow> update_available list \<Rightarrow> 'w run_state
    \<Rightarrow> update_available list \<times> 'w run_state" where
  "deliver_phase app c mode updates s =
     (let toNotify = (if pm_suppress mode then fst (Filter (rs_store s) updates) else updates);
          suppressed = (if pm_suppress mode then length (snd (Filter (rs_store s) updates)) else 0)
      in if toNotify \<noteq> [] then
           (case notifyAll app c toNotify s of (ok, s) \<Rightarrow>
              if ok then (toNotify, s)
              else ([], log_run LevelInfo ''notifications not delivered, state not updated''
                      [(''updates'', AttrNum (int (length toNotify)))] s))
         else (toNotify,
               if 0 < suppressed then
                 log_run LevelInfo ''notifications suppressed'' [(''suppressed'', AttrNum (int suppressed))] s
               else s))"

text \<open>The line \<open>AfterPass\<close> logs; nothing else of it logs.\<close>

definition log_prune :: "string list \<Rightarrow> bool \<Rightarrow> 'w run_state \<Rightarrow> 'w run_state" where
  "log_prune activeKeys canPrune s =
     (if canPrune then s
      else log_run LevelWarn ''state prune skipped'' [(''active_keys'', AttrNum (int (length activeKeys)))] s)"

lemma log_prune_frame [simp]:
  "rs_store (log_prune ks cp s) = rs_store s" "rs_disk (log_prune ks cp s) = rs_disk s"
  "rs_world (log_prune ks cp s) = rs_world s"
  by (simp_all add: log_prune_def log_run_def)

definition runPass :: "nat \<Rightarrow> ('v, 'w) app \<Rightarrow> ctx \<Rightarrow> bool \<Rightarrow> passMode \<Rightarrow> 'w run_state
    \<Rightarrow> (go_error option \<times> 'w run_state) option" where
  "runPass n app c has_store mode s =
     (case RunOnce n (ap_engine app) c (rs_diag s) (rs_world s) of
        None \<Rightarrow> None
      | Some (Inl err, d, w) \<Rightarrow> Some (Some err, s\<lparr>rs_diag := d, rs_world := w\<rparr>)
      | Some (Inr (updates, activeKeys, canPrune), d, w) \<Rightarrow>
          let s = s\<lparr>rs_diag := d, rs_world := w\<rparr> in
          if pm_suppress mode \<and> \<not> has_store then
            Some (Some (ErrText [Lit ''suppress requested without state store'']), s)
          else
            (case deliver_phase app c mode updates s of (notified, s) \<Rightarrow>
             if \<not> pm_updateState mode then Some (None, s)
             else if \<not> has_store then
               Some (Some (ErrText [Lit ''updateState requested without state store'']), s)
             else
               let s = log_prune activeKeys canPrune s in
               (case AfterPass (ap_codec app) (ap_io app) (e_now (en_env (ap_engine app)) (rs_world s))
                       activeKeys notified canPrune (rs_store s) (rs_disk s) of
                  (r, store, disk) \<Rightarrow>
                    Some (map_option (ErrWrap [Lit ''save state: '']) r,
                          s\<lparr>rs_store := store, rs_disk := disk\<rparr>))))"

definition Check :: "nat \<Rightarrow> ('v, 'w) app \<Rightarrow> ctx \<Rightarrow> 'w run_state \<Rightarrow> (go_error option \<times> 'w run_state) option" where
  "Check n app c s = runPass n app c False \<lparr>pm_suppress = False, pm_updateState = False\<rparr> s"

section \<open>Wiring\<close>

datatype app_error =
    AppProvider go_error
  | AppRegistry registry_build_error
  | AppNotifier nat go_error
  | AppRules nat go_error
  | AppExclude exclude_error

definition instance_key :: string where "instance_key = ''instance_name''"

fun notifiers_from :: "(string \<Rightarrow> cfg_map \<Rightarrow> go_error + 'w notifierSlot) \<Rightarrow> string \<Rightarrow> nat
    \<Rightarrow> plugin_config list \<Rightarrow> app_error + 'w notifierSlot list" where
  "notifiers_from mk_ntf inst i [] = Inr []"
| "notifiers_from mk_ntf inst i (nc # ncs) =
     (case mk_ntf (pc_type nc) (set_key instance_key (AStr inst) (copyPluginConfig (pc_config nc))) of
        Inl err \<Rightarrow> Inl (AppNotifier i err)
      | Inr slot \<Rightarrow>
          (case notifiers_from mk_ntf inst (Suc i) ncs of
             Inl err \<Rightarrow> Inl err
           | Inr slots \<Rightarrow> Inr (slot\<lparr>ns_typ := pc_type nc\<rparr> # slots)))"

text \<open>
  What building the resolver logs: the rules up to the first that does not compile are looked at.
\<close>

fun log_rules :: "sys \<Rightarrow> rule_config list \<Rightarrow> diag \<Rightarrow> diag" where
  "log_rules sys [] d = d"
| "log_rules sys (rc # rules) d =
     (let d = (if RuleUsesDeprecatedMode rc then
                 log_to LevelWarn ''rules[].mode is deprecated, use track instead'' [(''image'', AttrStr (rc_image rc))] d
               else d)
      in case compile_include sys (rc_include rc) of
           Inl _ \<Rightarrow> d
         | Inr _ \<Rightarrow> log_rules sys rules d)"

text \<open>
  \<open>NewApp\<close>: the three plugin tables are \<open>mk_prov\<close>, \<open>mk_reg\<close> and \<open>mk_ntf\<close>, \<open>mask_url\<close> is \<open>MaskProxyURL\<close>; the
  rest of the engine and the application (libraries, codec, file system) comes from \<open>base\<close>.
\<close>

definition NewApp :: "sys \<Rightarrow> (string \<Rightarrow> cfg_map \<Rightarrow> go_error + 'w provider) \<Rightarrow> 'w registry_factory
    \<Rightarrow> (string \<Rightarrow> cfg_map \<Rightarrow> go_error + 'w notifierSlot) \<Rightarrow> (string \<Rightarrow> string) \<Rightarrow> ('v, 'w) app \<Rightarrow> config \<Rightarrow> diag
    \<Rightarrow> (app_error + ('v, 'w) app) \<times> diag" where
  "NewApp sys mk_prov mk_reg mk_ntf mask_url base cfg d =
     (case mk_prov (pc_type (cfg_provider cfg)) (pc_config (cfg_provider cfg)) of
        Inl err \<Rightarrow> (Inl (AppProvider err), d)
      | Inr prov \<Rightarrow>
     (case buildRegistries mk_reg (cfg_registries cfg) (cfg_registry_proxy cfg) of
        Inl err \<Rightarrow> (Inl (AppRegistry err), d)
      | Inr regs \<Rightarrow>
     (let d = (if cfg_registry_proxy cfg \<noteq> [] then
                 log_to LevelInfo ''registry proxy enabled'' [(''proxy'', AttrStr (mask_url (cfg_registry_proxy cfg)))] d
               else d);
          instanceName = ResolveInstanceName sys (cfg_instance_name cfg);
          d = log_to LevelInfo ''notification instance name'' [(''instance'', AttrStr instanceName)] d in
      case notifiers_from mk_ntf instanceName 0 (cfg_notifiers cfg) of
        Inl err \<Rightarrow> (Inl err, d)
      | Inr slots \<Rightarrow>
     (let d = log_rules sys (cfg_rules cfg) d in
      case NewConfigRuleResolver sys (cfg_rules cfg) of
        Inl (i, err) \<Rightarrow> (Inl (AppRules i err), d)
      | Inr byImage \<Rightarrow>
     (case ExcludeContainerSet (cfg_exclude_containers cfg) of
        Inl err \<Rightarrow> (Inl (AppExclude err), d)
      | Inr (exclude, dups) \<Rightarrow>
          (Inr (base\<lparr>ap_notifiers := slots,
                  ap_engine := NewEngine (ap_engine base) prov regs (cfg_timeouts cfg) (Some (app_rules sys byImage))
                    (app_rule_lines sys byImage) exclude\<rparr>),
           foldl (\<lambda>d name. log_to LevelWarn ''duplicate name in exclude_containers'' [(''name'', AttrStr name)] d) d dups))))))"

lemma notifiers_from_typ:
  "notifiers_from mk_ntf inst i ncs = Inr slots \<Longrightarrow> map ns_typ slots = map pc_type ncs"
  by (induction ncs arbitrary: i slots) (auto split: sum.splits)

lemma NewApp_Inr:
  assumes "NewApp sys mk_prov mk_reg mk_ntf mask_url base cfg d = (Inr app, d')"
  shows "mk_prov (pc_type (cfg_provider cfg)) (pc_config (cfg_provider cfg)) = Inr (en_provider (ap_engine app))"
    and "buildRegistries mk_reg (cfg_registries cfg) (cfg_registry_proxy cfg) = Inr (en_registries (ap_engine app))"
    and "map ns_typ (ap_notifiers app) = map pc_type (cfg_notifiers cfg)"
    and "\<exists>byImage. NewConfigRuleResolver sys (cfg_rules cfg) = Inr byImage
      \<and> en_rules (ap_engine app) = Some (app_rules sys byImage)"
    and "\<exists>dups. ExcludeContainerSet (cfg_exclude_containers cfg) = Inr (en_exclude (ap_engine app), dups)"
    and "en_timeouts (ap_engine app) = cfg_timeouts cfg" "en_env (ap_engine app) = en_env (ap_engine base)"
    and "ap_codec app = ap_codec base" "ap_io app = ap_io base"
  using assms by (auto simp: NewApp_def Let_def dest: notifiers_from_typ split: sum.splits prod.splits)

lemma notifiers_from_Inl: "notifiers_from mk_ntf inst i ncs = Inl err \<Longrightarrow> \<exists>j e. err = AppNotifier j e"
  by (induction ncs arbitrary: i) (auto split: sum.splits)

text \<open>What can still fail for a configuration that was accepted: the plugins, never the rules or the exclusions.\<close>

definition plugin_error :: "app_error \<Rightarrow> bool" where
  "plugin_error err \<longleftrightarrow> (\<exists>e. err = AppProvider e) \<or> (\<exists>e. err = AppRegistry e) \<or> (\<exists>i e. err = AppNotifier i e)"

lemma NewApp_accepted:
  assumes "Load sys path = Inr cfg" and "NewApp sys mk_prov mk_reg mk_ntf mask_url base cfg d = (Inl err, d')"
  shows "plugin_error err"
proof -
  from assms(1) obtain cfg0 where rules: "validateRules sys (cfg_rules cfg) = None"
    and exclude: "\<exists>r. ExcludeContainerSet (cfg_exclude_containers cfg) = Inr r"
    by (rule Load_Inr) (simp add: ApplyEnvOverrides_frame)
  from rules obtain m where "NewConfigRuleResolver sys (cfg_rules cfg) = Inr m" by (rule validated_resolver)
  with exclude assms(2) show ?thesis
    by (auto simp: NewApp_def Let_def plugin_error_def dest: notifiers_from_Inl split: sum.splits)
qed

section \<open>Registries: facts\<close>

definition entry_host :: "'w registry_entry \<Rightarrow> string" where "entry_host e = reg_host (snd (snd e))"

definition built :: "'w registry_factory \<Rightarrow> string \<Rightarrow> plugin_config \<Rightarrow> 'w registry_entry \<Rightarrow> bool" where
  "built mk_reg proxy rc e \<longleftrightarrow>
     0 \<le> fst (snd e) \<and> mk_reg (pc_type rc) (withRegistryProxy (pc_config rc) proxy) = Inr (snd (snd e))"

lemma entry_of_host_None: "entry_of_host es h = None \<longleftrightarrow> h \<notin> entry_host ` set es"
proof -
  have "entry_of_host es h = find (\<lambda>e. entry_host e = h) es"
    unfolding entry_of_host_def entry_host_def
    by (rule arg_cong [of _ _ "\<lambda>P. find P es"]) (auto simp: fun_eq_iff)
  then show ?thesis by (auto simp: find_None_iff)
qed

lemma configured_from_Inr:
  "configured_from mk_reg proxy i cfgs entries = Inr es \<Longrightarrow> distinct (map entry_host entries) \<Longrightarrow>
     \<exists>new. es = entries @ new \<and> list_all2 (built mk_reg proxy) cfgs new \<and> distinct (map entry_host es)"
proof (induction cfgs arbitrary: i entries)
  case (Cons rc cfgs)
  from Cons.prems(1) obtain reg where reg: "mk_reg (pc_type rc) (withRegistryProxy (pc_config rc) proxy) = Inr reg"
    by (auto split: sum.splits)
  let ?e = "(pc_type rc, int i, reg)"
  from Cons.prems(1) reg have fresh: "entry_of_host entries (reg_host reg) = None"
    and rest: "configured_from mk_reg proxy (Suc i) cfgs (entries @ [?e]) = Inr es"
    by (auto split: option.splits)
  have "distinct (map entry_host (entries @ [?e]))"
    using fresh Cons.prems(2) by (simp add: entry_of_host_None) (simp add: entry_host_def)
  from Cons.IH [OF rest this] obtain new where new: "es = (entries @ [?e]) @ new"
      "list_all2 (built mk_reg proxy) cfgs new" "distinct (map entry_host es)" by blast
  have "built mk_reg proxy rc ?e" using reg by (simp add: built_def)
  with new show ?case by (intro exI [of _ "?e # new"]) simp
qed simp

definition public_factory :: "'w registry_factory \<Rightarrow> string \<Rightarrow> bool" where
  "public_factory mk_reg proxy \<longleftrightarrow>
     (\<forall>host\<in>set publicRegistryHosts. \<forall>reg.
        mk_reg oci_type (withRegistryProxy [(host_key, AStr host)] proxy) = Inr reg \<longrightarrow> reg_host reg = host)"

lemma builtin_from_Inr:
  "builtin_from mk_reg proxy hosts entries seen = Inr es \<Longrightarrow> public_factory mk_reg proxy \<Longrightarrow>
     set hosts \<subseteq> set publicRegistryHosts \<Longrightarrow> distinct hosts \<Longrightarrow>
     \<exists>new. es = entries @ new \<and> map entry_host new = filter (\<lambda>h. \<not> seen h) hosts
       \<and> (\<forall>e\<in>set new. fst (snd e) < 0)"
proof (induction hosts arbitrary: entries seen)
  case (Cons host hosts)
  show ?case
  proof (cases "seen host")
    case True
    with Cons.IH [of entries seen] Cons.prems show ?thesis by simp
  next
    case False
    with Cons.prems(1) obtain reg where reg: "mk_reg oci_type (withRegistryProxy [(host_key, AStr host)] proxy) = Inr reg"
      by (auto split: sum.splits)
    have h: "reg_host reg = host"
      using Cons.prems(2,3) reg by (simp add: public_factory_def)
    have "builtin_from mk_reg proxy hosts (entries @ [(oci_type, -1, reg)]) (seen(host := True)) = Inr es"
      using Cons.prems(1) False reg by simp
    from Cons.IH [OF this] Cons.prems obtain new where new: "es = (entries @ [(oci_type, -1, reg)]) @ new"
        "map entry_host new = filter (\<lambda>x. \<not> (seen(host := True)) x) hosts" "\<forall>e\<in>set new. fst (snd e) < 0"
      by auto
    have "filter (\<lambda>x. \<not> (seen(host := True)) x) hosts = filter (\<lambda>x. \<not> seen x) hosts"
      using Cons.prems(4) by (intro filter_cong) auto
    moreover have "entry_host (oci_type, -1, reg) = host" using h by (simp add: entry_host_def)
    ultimately show ?thesis
      using new False by (intro exI [of _ "(oci_type, -1, reg) # new"]) simp
  qed
qed simp

lemma publicRegistryHosts_distinct: "distinct publicRegistryHosts"
  by (simp add: publicRegistryHosts_def)

section \<open>Passes: facts\<close>

fun deliver_all :: "'w notifierSlot list \<Rightarrow> ctx \<Rightarrow> update_available list \<Rightarrow> 'w
    \<Rightarrow> go_error option list \<times> 'w" where
  "deliver_all [] c batch w = ([], w)"
| "deliver_all (slot # slots) c batch w =
     (case ns_Notify slot c batch w of (r, w1) \<Rightarrow>
      (case deliver_all slots c batch w1 of (rs, w2) \<Rightarrow> (r # rs, w2)))"

lemma log_run_frame [simp]:
  "rs_store (log_run l t a s) = rs_store s" "rs_disk (log_run l t a s) = rs_disk s"
  "rs_world (log_run l t a s) = rs_world s"
  by (simp_all add: log_run_def)

lemma notify_from_frame:
  "rs_store (snd (notify_from slots c batch ok s)) = rs_store s
   \<and> rs_disk (snd (notify_from slots c batch ok s)) = rs_disk s"
  by (induction slots arbitrary: ok s) (auto split: prod.splits option.splits)

lemma notify_from_delivered:
  "deliver_all slots c batch (rs_world s) = (rs, w) \<Longrightarrow>
     rs_world (snd (notify_from slots c batch ok s)) = w \<and> length rs = length slots
     \<and> (fst (notify_from slots c batch ok s) \<longleftrightarrow> ok \<and> (\<forall>r\<in>set rs. r = None))"
proof (induction slots arbitrary: ok s rs)
  case (Cons slot slots)
  obtain r w1 where n: "ns_Notify slot c batch (rs_world s) = (r, w1)"
    by (cases "ns_Notify slot c batch (rs_world s)")
  obtain rs1 w2 where d: "deliver_all slots c batch w1 = (rs1, w2)"
    by (cases "deliver_all slots c batch w1")
  have rw: "rs = r # rs1" "w2 = w" using Cons.prems n d by auto
  have IH: "rs_world s' = w1 \<Longrightarrow> rs_world (snd (notify_from slots c batch ok' s')) = w \<and> length rs1 = length slots
     \<and> (fst (notify_from slots c batch ok' s') \<longleftrightarrow> ok' \<and> (\<forall>r\<in>set rs1. r = None))" for ok' s'
    using Cons.IH [of s' rs1 ok'] d rw by simp
  show ?case
  proof (cases r)
    case None
    with IH [of "log_run LevelInfo ''notifier delivered'' [(''notifier'', AttrStr (ns_typ slot)),
        (''updates'', AttrNum (int (length batch)))] (s\<lparr>rs_world := w1\<rparr>)" ok] n rw
    show ?thesis by simp
  next
    case (Some err)
    with IH [of "log_run LevelError ''notifier failed'' [(''notifier'', AttrStr (ns_typ slot)),
        (''error'', AttrErr err)] (s\<lparr>rs_world := w1\<rparr>)" False] n rw
    show ?thesis by simp
  qed
qed simp

lemma runPass_cases:
  assumes "runPass n app c hs mode s = Some (r, s')"
  obtains (failed) err d w where "RunOnce n (ap_engine app) c (rs_diag s) (rs_world s) = Some (Inl err, d, w)"
      "r = Some err" "rs_store s' = rs_store s" "rs_disk s' = rs_disk s"
  | (found) ups ks cp d w where
      "RunOnce n (ap_engine app) c (rs_diag s) (rs_world s) = Some (Inr (ups, ks, cp), d, w)"
  using assms by (cases "RunOnce n (ap_engine app) c (rs_diag s) (rs_world s)")
    (auto simp: runPass_def Let_def split: sum.splits prod.splits)

text \<open>What is recorded in a pass: everything announced, or nothing when a notifier failed.\<close>

definition to_notify :: "passMode \<Rightarrow> store \<Rightarrow> update_available list \<Rightarrow> update_available list" where
  "to_notify mode store ups = (if pm_suppress mode then filter (isNew store) ups else ups)"

definition all_delivered :: "('v, 'w) app \<Rightarrow> ctx \<Rightarrow> update_available list \<Rightarrow> 'w \<Rightarrow> bool" where
  "all_delivered app c batch w \<longleftrightarrow> (\<forall>r\<in>set (fst (deliver_all (ap_notifiers app) c batch w)). r = None)"

lemma notifyAll_ok: "fst (notifyAll app c batch s) \<longleftrightarrow> all_delivered app c batch (rs_world s)"
  using notify_from_delivered [of "ap_notifiers app" c batch s "fst (deliver_all (ap_notifiers app) c batch (rs_world s))"
      "snd (deliver_all (ap_notifiers app) c batch (rs_world s))" True]
  by (simp add: notifyAll_def all_delivered_def)

lemma notifyAll_frame:
  "rs_store (snd (notifyAll app c batch s)) = rs_store s" "rs_disk (snd (notifyAll app c batch s)) = rs_disk s"
  by (simp_all add: notifyAll_def notify_from_frame)

lemma deliver_phase_result:
  assumes "deliver_phase app c mode ups s = (notified, s')"
  shows "notified = (if all_delivered app c (to_notify mode (rs_store s) ups) (rs_world s)
      then to_notify mode (rs_store s) ups else [])"
    and "rs_store s' = rs_store s" "rs_disk s' = rs_disk s"
proof -
  let ?ns = "to_notify mode (rs_store s) ups"
  have f: "(if pm_suppress mode then fst (Filter (rs_store s) ups) else ups) = ?ns"
    by (simp add: to_notify_def Filter_def)
  obtain ok sn where n: "notifyAll app c ?ns s = (ok, sn)" by (cases "notifyAll app c ?ns s")
  have ok: "ok \<longleftrightarrow> all_delivered app c ?ns (rs_world s)" using notifyAll_ok [of app c ?ns s] n by simp
  have fr: "rs_store sn = rs_store s" "rs_disk sn = rs_disk s"
    using notifyAll_frame [of app c ?ns s] n by simp_all
  show "notified = (if all_delivered app c ?ns (rs_world s) then ?ns else [])"
    and "rs_store s' = rs_store s" "rs_disk s' = rs_disk s"
    using assms ok fr unfolding deliver_phase_def Let_def f n by (auto split: if_splits)
qed

lemma runPass_recorded:
  assumes run: "runPass n app c hs mode s = Some (r, s')"
    and once: "RunOnce n (ap_engine app) c (rs_diag s) (rs_world s) = Some (Inr (ups, ks, cp), d, w)"
  shows "(rs_store s' = rs_store s \<and> rs_disk s' = rs_disk s \<and> \<not> (hs \<and> pm_updateState mode))
    \<or> (pm_updateState mode \<and> (\<exists>now r0. AfterPass (ap_codec app) (ap_io app) now ks
          (if all_delivered app c (to_notify mode (rs_store s) ups) w then to_notify mode (rs_store s) ups else [])
          cp (rs_store s) (rs_disk s) = (r0, rs_store s', rs_disk s')
        \<and> r = map_option (ErrWrap [Lit ''save state: '']) r0))"
proof -
  let ?s = "s\<lparr>rs_diag := d, rs_world := w\<rparr>"
  let ?sent = "if all_delivered app c (to_notify mode (rs_store s) ups) w
      then to_notify mode (rs_store s) ups else []"
  obtain notified s1 where d: "deliver_phase app c mode ups ?s = (notified, s1)"
    by (cases "deliver_phase app c mode ups ?s")
  note D = deliver_phase_result [OF d, simplified]
  let ?now = "e_now (en_env (ap_engine app)) (rs_world s1)"
  obtain r0 st dk where a: "AfterPass (ap_codec app) (ap_io app) ?now ks ?sent cp (rs_store s) (rs_disk s) = (r0, st, dk)"
    by (metis prod_cases3)
  have a': "AfterPass (ap_codec app) (ap_io app) ?now ks notified cp (rs_store s1) (rs_disk s1) = (r0, st, dk)"
    using a D by (cases "all_delivered app c (to_notify mode (rs_store s) ups) w") simp_all
  show ?thesis
  proof (cases "pm_suppress mode \<and> \<not> hs \<or> \<not> pm_updateState mode \<or> \<not> hs")
    case True
    then show ?thesis
      using run once d D by (auto simp: runPass_def Let_def split: if_splits)
  next
    case False
    then have "r = map_option (ErrWrap [Lit ''save state: '']) r0" "rs_store s' = st" "rs_disk s' = dk"
      using run once d a' by (auto simp: runPass_def Let_def simp del: map_option_eq_Some)
    with a False show ?thesis by blast
  qed
qed


lemma undelivered_keeps:
  assumes "runPass n app c True scheduled s = Some (r, s')"
    and "RunOnce n (ap_engine app) c (rs_diag s) (rs_world s) = Some (Inr (ups, ks, cp), d, w)"
    and "\<not> all_delivered app c (fst (Filter (rs_store s) ups)) w"
    and "isNew (rs_store s) u"
  shows "isNew (rs_store s') u"
proof -
  have f: "to_notify scheduled (rs_store s) ups = fst (Filter (rs_store s) ups)"
    by (simp add: to_notify_def scheduled_def Filter_def)
  from runPass_recorded [OF assms(1,2)] assms(3) obtain now r0 where
    "rs_store s' = rs_store s
     \<or> AfterPass (ap_codec app) (ap_io app) now ks [] cp (rs_store s) (rs_disk s) = (r0, rs_store s', rs_disk s')"
    unfolding f by auto
  with assms(4) show ?thesis
    by (auto dest!: AfterPass_memory simp: store_simps announce_def restrict_map_def Let_def split: if_splits)
qed

lemma delivered_known:
  assumes "runPass n app c True scheduled s = Some (r, s')"
    and "RunOnce n (ap_engine app) c (rs_diag s) (rs_world s) = Some (Inr (ups, ks, cp), d, w)"
    and "named_repos (en_parse (ap_engine app))"
    and "all_delivered app c (fst (Filter (rs_store s) ups)) w"
    and "\<forall>u\<in>set ups. \<forall>v\<in>set ups. EntryKey u = EntryKey v \<longrightarrow> targetFor u = targetFor v"
  shows "fst (Filter (rs_store s') ups) = []"
proof -
  have f: "to_notify scheduled (rs_store s) ups = fst (Filter (rs_store s) ups)"
    by (simp add: to_notify_def scheduled_def Filter_def)
  have keys: "EntryKey ` set ups \<subseteq> set ks"
    using RunOnce_found_keys [OF assms(3,2)] .
  let ?s = "rs_store s"
  from runPass_recorded [OF assms(1,2)] assms(4) obtain now r0 where
    a: "AfterPass (ap_codec app) (ap_io app) now ks (fst (Filter ?s ups)) cp ?s (rs_disk s)
      = (r0, rs_store s', rs_disk s')"
    unfolding f by (auto simp: scheduled_def)
  have "remembered (rs_store s') (EntryKey u) = Some (targetFor u)" if "u \<in> set ups" for u
    using AfterPass_known [OF a assms(5) keys that] .
  then show ?thesis
    by (auto simp: Filter_def filter_empty_conv store_simps)
qed

section \<open>An example application\<close>

text \<open>The example fleet with a tag that is no version: the digest check finds an update.\<close>

definition tagged_engine :: "(numericVersion, int) engine" where
  "tagged_engine = demo_engine
     \<lparr>en_parse := \<lambda>_. Inr \<lparr>nr_registry = ''ghcr.io'', nr_repository = ''a/b'', nr_kind = TagRef ''x''\<rparr>\<rparr>"
definition tagged_parsed :: parsed where
  "tagged_parsed = \<lparr>p_host = ''ghcr.io'', p_repo = ''a/b'', p_tag = ''x'', p_digest = []\<rparr>"
definition tagged_update :: update_available where
  "tagged_update = digest_update demo_container tagged_parsed ''sha256:1'' ''sha256:0'' 0"
lemma tagged_parse: "parse (en_parse tagged_engine) (c_image_ref demo_container) = Inr tagged_parsed"
proof -
  have "trim_space ''ghcr.io/a/b@d'' = ''ghcr.io/a/b@d''"
    by (rule trim_space_id) (simp_all add: graphic_def)
  then show ?thesis
    by (simp add: parse_def bareDigestRef_def sha256_prefix_def tagged_engine_def tagged_parsed_def demo_container_def)
qed
lemma trim_x: "trim_space ''x'' = ''x''" by (rule trim_space_id) (simp_all add: graphic_def)
lemma x_no_version: "parseNumericVersion ''x'' = None"
  by (simp add: trim_x parseNumericVersion_def numericTagRE_def strip_v_def is_digit_def byte_def)
lemma tagged_mode: "resolveTrackingMode numeric_semver None ''ghcr.io'' ''a/b'' ''x'' l m = (ModeDigest, None, digestCauseAuto)"
  for l :: string and m :: labels
  by (simp add: resolveTrackingMode_def numeric_semver_def x_no_version)
lemma tagged_simps:
  "en_env tagged_engine = clock_env" "en_registries tagged_engine = [ok_registry ''ghcr.io'']"
  "reg_host (ok_registry h) = h" "p_host tagged_parsed = ''ghcr.io''" "p_repo tagged_parsed = ''a/b''"
  "p_tag tagged_parsed = ''x''" "en_rules tagged_engine = None" "en_semver tagged_engine = numeric_semver"
  "en_exclude tagged_engine = None" "pv_ListRunning (en_provider tagged_engine) c w = (Inr [demo_container], w)"
  "pv_LocalDigest (en_provider tagged_engine) c ctr repo w = (Inr ''sha256:1'', w)"
  by (simp_all add: tagged_engine_def demo_engine_def demo_provider_def tagged_parsed_def ok_registry_def)
lemma tagged_check: "\<exists>st. checkContainer 1 tagged_engine None demo_container
    \<lparr>eg_diag = d0, eg_pass = New, eg_world = 0 :: int\<rparr> = Some (Inr (digest_result demo_container tagged_parsed ''sha256:1'' ''sha256:0'' (Some tagged_update)), st) \<and> eg_world st = 0"
  by (simp add: checkContainer_def Let_def tagged_parse tagged_simps)
    (simp add: tagged_simps tagged_mode checkDigest_def Let_def TagDigest_def cachedTagDigest_def New_def isRateLimitedLocked_def
        fetchWithRetry_def ok_registry_def clock_env_def
        normalizeDigest_def trim_prefix_def has_prefix_def tagged_update_def)

lemma tagged_pass: "\<exists>d'. RunOnce 1 tagged_engine None d 0 = Some (Inr ([tagged_update], [''web|ghcr.io/a/b''], True), d', 0)"
proof -
  have key: "entryKey (en_parse tagged_engine) demo_container = Some ''web|ghcr.io/a/b''"
    unfolding entryKey_def tagged_parse by (simp add: FormatEntryKey_def demo_container_def tagged_parsed_def)
  have mon: "filterByWatch [demo_container] None = ([demo_container], 0)"
    by (simp add: filterByWatch_eq ShouldMonitor_def shouldMonitorLabel_def demo_container_def)
  obtain st where "checkContainer 1 tagged_engine None demo_container
    \<lparr>eg_diag = log_listed tagged_engine [demo_container] d, eg_pass = New, eg_world = 0 :: int\<rparr> = Some (Inr (digest_result demo_container tagged_parsed ''sha256:1'' ''sha256:0'' (Some tagged_update)), st)" "eg_world st = 0"
    using tagged_check by blast
  then show ?thesis
    by (simp add: RunOnce_def Let_def mon tagged_simps key count_result_def add_key_def empty_tally_def)
qed

definition demo_registry_factory :: "int registry_factory" where
  "demo_registry_factory typ cfg =
     (case map_of cfg host_key of
        Some (AStr h) \<Rightarrow> Inr (ok_registry h)
      | _ \<Rightarrow> Inl (ErrText [Lit ''host required'']))"

definition demo_app :: "go_error option \<Rightarrow> (numericVersion, int) app" where
  "demo_app answer =
     \<lparr>ap_engine = tagged_engine,
      ap_notifiers = [\<lparr>ns_typ = ''webhook'', ns_Notify = \<lambda>c batch w. (answer, w + 1)\<rparr>,
                      \<lparr>ns_typ = ''ntfy'', ns_Notify = \<lambda>c batch w. (None, w + 1)\<rparr>],
      ap_codec = demo_codec, ap_io = demo_io\<rparr>"

definition demo_state :: "int run_state" where
  "demo_state = \<lparr>rs_store = \<lparr>st_path = ''s'', st_data = emptyData\<rparr>, rs_disk = demo_disk,
     rs_diag = demo_diag, rs_world = 0\<rparr>"

lemma demo_app_simps [simp]:
  "ap_engine (demo_app a) = tagged_engine" "rs_diag demo_state = demo_diag" "rs_world demo_state = 0"
  by (simp_all add: demo_app_def demo_state_def)

lemma demo_delivered: "all_delivered (demo_app a) c batch w \<longleftrightarrow> a = None"
  by (simp add: all_delivered_def demo_app_def)

lemma tagged_repos: "named_repos (en_parse tagged_engine)"
  by (simp add: named_repos_def tagged_engine_def)

lemma runPass_defined:
  assumes "RunOnce n (ap_engine app) c (rs_diag s) (rs_world s) = Some x"
  shows "\<exists>r s'. runPass n app c hs mode s = Some (r, s')"
  using assms by (cases x) (auto simp: runPass_def Let_def split: sum.splits prod.splits)

section \<open>Properties\<close>

text \<open>
  Every host has one registry: if the registries can be built, no two answer for the same host,
  the configured ones come first, one per configuration entry and in its order, and every well-known
  public host has one - the configured one where there is one, otherwise an anonymous one.
\<close>
lemma buildRegistries_hosts:
  assumes "buildRegistries mk_reg cfgs proxy = Inr regs" and "public_factory mk_reg proxy"
  shows "distinct (map reg_host regs)
    \<and> list_all2 (\<lambda>rc reg. mk_reg (pc_type rc) (withRegistryProxy (pc_config rc) proxy) = Inr reg)
        cfgs (take (length cfgs) regs)
    \<and> set publicRegistryHosts \<subseteq> set (map reg_host regs)
    \<and> set (map reg_host (drop (length cfgs) regs)) \<subseteq> set publicRegistryHosts"
proof -
  obtain own es where own: "configured_from mk_reg proxy 0 cfgs [] = Inr own"
    and es: "builtin_from mk_reg proxy publicRegistryHosts own (\<lambda>h. entry_of_host own h \<noteq> None) = Inr es"
    and regs: "regs = map (\<lambda>(_, _, reg). reg) (filter (\<lambda>(_, idx, _). 0 \<le> idx) es) @
               map (\<lambda>(_, _, reg). reg) (filter (\<lambda>(_, idx, _). idx < 0) es)"
    using assms(1) by (auto simp: buildRegistries_def split: sum.splits)
  from configured_from_Inr [OF own] have b: "list_all2 (built mk_reg proxy) cfgs own"
    and d: "distinct (map entry_host own)" by auto
  from builtin_from_Inr [OF es assms(2) subset_refl publicRegistryHosts_distinct] obtain new where
    new: "es = own @ new" "map entry_host new = filter (\<lambda>h. entry_of_host own h = None) publicRegistryHosts"
      "\<forall>e\<in>set new. fst (snd e) < 0" by (auto simp del: not_None_eq)
  have pos: "\<forall>e\<in>set own. 0 \<le> fst (snd e)"
    using b by (fastforce simp: list_all2_conv_all_nth in_set_conv_nth built_def)
  let ?reg = "\<lambda>e :: 'a registry_entry. snd (snd e)"
  have "filter (\<lambda>(_, idx, _). 0 \<le> idx) es = own" "filter (\<lambda>(_, idx, _). idx < 0) es = new"
    using new(1,3) pos by (auto simp: filter_id_conv filter_empty_conv case_prod_beta)
  then have r: "regs = map ?reg own @ map ?reg new"
    using regs by (simp add: case_prod_beta)
  have len: "length own = length cfgs" using b by (simp add: list_all2_lengthD)
  have hosts: "map reg_host regs = map entry_host own @ map entry_host new"
    using r by (simp add: entry_host_def)
  have "distinct (map entry_host new)" "set (map entry_host new) = {h \<in> set publicRegistryHosts. h \<notin> entry_host ` set own}"
    unfolding new(2) using publicRegistryHosts_distinct by (auto simp: entry_of_host_None)
  with d have "distinct (map reg_host regs)" "set publicRegistryHosts \<subseteq> set (map reg_host regs)"
    unfolding hosts by auto
  moreover have "list_all2 (\<lambda>rc reg. mk_reg (pc_type rc) (withRegistryProxy (pc_config rc) proxy) = Inr reg)
      cfgs (map ?reg own)"
    using b by (auto simp: list_all2_map2 built_def elim: list_all2_mono)
  moreover have "set (map reg_host (map ?reg new)) \<subseteq> set publicRegistryHosts"
    using \<open>set (map entry_host new) = _\<close> by (auto simp: entry_host_def)
  ultimately show ?thesis using r len by simp
qed

lemma buildRegistries_hosts_example:
  "\<exists>regs. buildRegistries demo_registry_factory
       [\<lparr>pc_type = ''oci'', pc_config = [(host_key, AStr ''ghcr.io'')]\<rparr>] [] = Inr regs
     \<and> distinct (map reg_host regs)"
proof -
  let ?cfgs = "[\<lparr>pc_type = ''oci'', pc_config = [(host_key, AStr ''ghcr.io'')]\<rparr>]"
  have p: "public_factory demo_registry_factory []"
    by (auto simp: public_factory_def demo_registry_factory_def withRegistryProxy_def ok_registry_def)
  have "\<exists>regs. buildRegistries demo_registry_factory ?cfgs [] = Inr regs"
    by (simp add: buildRegistries_def demo_registry_factory_def withRegistryProxy_def ok_registry_def
        publicRegistryHosts_def entry_of_host_def)
  then obtain regs where r: "buildRegistries demo_registry_factory ?cfgs [] = Inr regs" by blast
  from buildRegistries_hosts [OF r p] r show ?thesis by blast
qed

text \<open>
  Every configured notifier gets every batch, whatever the ones before it answer; the delivery
  counts as complete exactly when all of them took the batch.
\<close>
theorem notifyAll_reaches_all:
  assumes "notifyAll app c batch s = (ok, s')"
  shows "\<exists>answers. deliver_all (ap_notifiers app) c batch (rs_world s) = (answers, rs_world s')
    \<and> length answers = length (ap_notifiers app)
    \<and> (ok \<longleftrightarrow> (\<forall>r\<in>set answers. r = None))
    \<and> rs_store s' = rs_store s \<and> rs_disk s' = rs_disk s"
proof -
  obtain answers w where d: "deliver_all (ap_notifiers app) c batch (rs_world s) = (answers, w)"
    by (cases "deliver_all (ap_notifiers app) c batch (rs_world s)")
  from notify_from_delivered [OF d, of True] assms notifyAll_frame [of app c batch s] d
  show ?thesis by (auto simp: notifyAll_def)
qed

theorem notifyAll_reaches_all_witness:
  "\<exists>s'. notifyAll (demo_app (Some ErrEOF)) None [tagged_update] demo_state = (False, s') \<and> rs_world s' = 2"
proof -
  obtain ok s' where n: "notifyAll (demo_app (Some ErrEOF)) None [tagged_update] demo_state = (ok, s')"
    by fastforce
  from notifyAll_reaches_all [OF n] n show ?thesis by (auto simp: demo_app_def)
qed

text \<open>
  C7. No announcement is lost: when some notifier does not take the batch of a scheduled pass, then
  every update that was new before the pass is still new after it, in memory and for the next pass.
\<close>
theorem undelivered_stays_new:
  assumes "runPass n app c True scheduled s = Some (r, s')"
    and "RunOnce n (ap_engine app) c (rs_diag s) (rs_world s) = Some (Inr (ups, ks, cp), d, w)"
    and "\<not> all_delivered app c (fst (Filter (rs_store s) ups)) w"
    and "isNew (rs_store s) u"
  shows "isNew (rs_store s') u"
  using assms by (rule undelivered_keeps)

theorem undelivered_stays_new_witness:
  "\<exists>r s'. runPass 1 (demo_app (Some ErrEOF)) None True scheduled demo_state = Some (r, s')
     \<and> isNew (rs_store s') tagged_update"
proof -
  obtain d w where once: "RunOnce 1 (ap_engine (demo_app (Some ErrEOF))) None (rs_diag demo_state) (rs_world demo_state)
      = Some (Inr ([tagged_update], [''web|ghcr.io/a/b''], True), d, w)"
    using tagged_pass [of demo_diag] by auto
  obtain r s' where p: "runPass 1 (demo_app (Some ErrEOF)) None True scheduled demo_state = Some (r, s')"
    using runPass_defined [OF once] by blast
  have "isNew (rs_store demo_state) tagged_update"
    by (simp add: isNew_def demo_state_def emptyData_def)
  from undelivered_stays_new [OF p once _ this] p show ?thesis by (simp add: demo_delivered)
qed

text \<open>
  C8. What was delivered is not announced again: after a scheduled pass whose batch every notifier
  took, the updates the pass found are all known, so a pass that finds them again sends nothing.
\<close>
theorem delivered_is_known:
  assumes "runPass n app c True scheduled s = Some (r, s')"
    and "RunOnce n (ap_engine app) c (rs_diag s) (rs_world s) = Some (Inr (ups, ks, cp), d, w)"
    and "named_repos (en_parse (ap_engine app))"
    and "all_delivered app c (fst (Filter (rs_store s) ups)) w"
    and "\<forall>u\<in>set ups. \<forall>v\<in>set ups. EntryKey u = EntryKey v \<longrightarrow> targetFor u = targetFor v"
  shows "fst (Filter (rs_store s') ups) = []"
  using assms by (rule delivered_known)

theorem delivered_is_known_witness:
  "\<exists>r s'. runPass 1 (demo_app None) None True scheduled demo_state = Some (r, s')
     \<and> fst (Filter (rs_store s') [tagged_update]) = []"
proof -
  obtain d w where once: "RunOnce 1 (ap_engine (demo_app None)) None (rs_diag demo_state) (rs_world demo_state)
      = Some (Inr ([tagged_update], [''web|ghcr.io/a/b''], True), d, w)"
    using tagged_pass [of demo_diag] by auto
  obtain r s' where p: "runPass 1 (demo_app None) None True scheduled demo_state = Some (r, s')"
    using runPass_defined [OF once] by blast
  from delivered_is_known [OF p once] p show ?thesis by (simp add: demo_delivered tagged_repos)
qed

text \<open>
  A forced full check and the one-shot check touch neither the notification state nor its file,
  whatever they find and send.
\<close>
theorem stateless_passes:
  assumes "runPass n app c hs mode s = Some (r, s')" and "\<not> pm_updateState mode"
  shows "rs_store s' = rs_store s \<and> rs_disk s' = rs_disk s"
  using assms(1)
proof (cases rule: runPass_cases)
  case (found ups ks cp d w)
  from runPass_recorded [OF assms(1) this] assms(2) show ?thesis by blast
qed simp

theorem stateless_passes_witness:
  "\<exists>r s'. Check 1 (demo_app None) None demo_state = Some (r, s') \<and> rs_store s' = rs_store demo_state"
proof -
  obtain d w where once: "RunOnce 1 (ap_engine (demo_app None)) None (rs_diag demo_state) (rs_world demo_state)
      = Some (Inr ([tagged_update], [''web|ghcr.io/a/b''], True), d, w)"
    using tagged_pass [of demo_diag] by auto
  obtain r s' where p: "Check 1 (demo_app None) None demo_state = Some (r, s')"
    using runPass_defined [OF once] unfolding Check_def by blast
  from stateless_passes [OF p [unfolded Check_def]] p show ?thesis by simp
qed

end
