(* ===== verification/ImageWeb.thy ===== *)
theory ImageWeb
  imports Markup Tracking
begin

text \<open>
  The web page of an image update (\<open>internal/imageweb/url.go\<close>). \<open>url.Parse\<close> is a parameter; the parts
  of a parsed URL the program reads are the record \<open>url\<close>. The modes are those of the tracking.
\<close>

section \<open>Parsed URLs\<close>

record url =
  url_scheme :: string
  url_host :: string
  url_path :: string
  url_query :: string
  url_fragment :: string

type_synonym url_parser = "string \<Rightarrow> go_error + url"

text \<open>\<open>URL.Hostname\<close> drops a valid port (a colon and digits) and the brackets of an IPv6 address.\<close>

definition url_hostname :: "url \<Rightarrow> string" where
  "url_hostname u =
     (let h = url_host u;
          h = (case last_index h CHR '':'' of
                 Some i \<Rightarrow> if list_all is_digit (drop (Suc i) h) then take i h else h
               | None \<Rightarrow> h)
      in if has_prefix h ''['' \<and> has_suffix h '']'' then butlast (tl h) else h)"

section \<open>The source label\<close>

definition labelSource :: string where "labelSource = ''org.opencontainers.image.source''"

record parsedSource =
  ps_host :: string
  ps_repoURL :: string

definition git_suffix :: string where "git_suffix = ''.git''"
definition https :: string where "https = ''https''"

definition parseSource :: "url_parser \<Rightarrow> labels \<Rightarrow> parsedSource option" where
  "parseSource url_parse lbls =
     (let raw = trim_space (label_of lbls labelSource) in
      if raw = [] then None
      else case url_parse raw of
        Inl _ \<Rightarrow> None
      | Inr u \<Rightarrow>
          let host = to_lower (url_hostname u) in
          if host = [] then None
          else
            let path = trim_suffix (trim_byte CHR ''/'' (url_path u)) git_suffix;
                parts = split_on CHR ''/'' path
            in case parts of
                 owner # repo # _ \<Rightarrow>
                   if owner = [] \<or> repo = [] then None
                   else
                     let scheme = (if url_scheme u = [] then https else url_scheme u)
                     in Some \<lparr>ps_host = host,
                          ps_repoURL = scheme @ ''://'' @ url_hostname u @ ''/'' @ owner @ ''/'' @ repo\<rparr>
               | _ \<Rightarrow> None)"

definition isGitHub :: "string \<Rightarrow> bool" where
  "isGitHub host \<longleftrightarrow> host = ''github.com'' \<or> host = ''www.github.com''"

definition sourceRepoURL :: "parsedSource option \<Rightarrow> string" where
  "sourceRepoURL source = (case source of None \<Rightarrow> [] | Some s \<Rightarrow> ps_repoURL s)"

section \<open>Registry pages\<close>

definition lastPathSegment :: "string \<Rightarrow> string" where
  "lastPathSegment repo =
     (let repo = trim_byte CHR ''/'' repo in
      if repo = [] then []
      else case last_index repo CHR ''/'' of Some i \<Rightarrow> drop (Suc i) repo | None \<Rightarrow> repo)"

definition ghcrPackageURL :: "string \<Rightarrow> parsedSource option \<Rightarrow> string" where
  "ghcrPackageURL repo source =
     (case source of
        None \<Rightarrow> []
      | Some s \<Rightarrow>
          if \<not> isGitHub (ps_host s) then []
          else let pkg = lastPathSegment repo in
            if pkg = [] then []
            else ps_repoURL s @ ''/pkgs/container/'' @ PathEscape pkg)"

definition hub_library_page :: string where "hub_library_page = ''https://hub.docker.com/_/''"
definition hub_repo_page :: string where "hub_repo_page = ''https://hub.docker.com/r/''"
definition quay_page :: string where "quay_page = ''https://quay.io/repository/''"

definition dockerHubURL :: "string \<Rightarrow> string \<Rightarrow> string" where
  "dockerHubURL repo tag =
     (if repo = [] then []
      else
        let page = (case cut_prefix repo library_prefix of
              Some nm \<Rightarrow> if nm \<noteq> [] \<and> \<not> contains nm CHR ''/'' then hub_library_page @ nm
                         else hub_repo_page @ repo
            | None \<Rightarrow> hub_repo_page @ repo)
        in if tag = [] then page else page @ ''?tag='' @ QueryEscape tag)"

definition host_hub :: string where "host_hub = ''index.docker.io''"
definition host_quay :: string where "host_quay = ''quay.io''"
definition host_ghcr :: string where "host_ghcr = ''ghcr.io''"

definition registryPageURL :: "string \<Rightarrow> string \<Rightarrow> string \<Rightarrow> parsedSource option \<Rightarrow> string" where
  "registryPageURL host repo tag source =
     (if host = host_hub then dockerHubURL repo tag
      else if host = host_quay then (if repo = [] then [] else quay_page @ repo @ ''?tab=tags'')
      else if host = host_ghcr then ghcrPackageURL repo source
      else [])"

definition releases :: string where "releases = ''/releases''"

definition image_URL :: "url_parser \<Rightarrow> string \<Rightarrow> string \<Rightarrow> string \<Rightarrow> labels \<Rightarrow> string \<Rightarrow> string" where
  "image_URL url_parse host repo tag lbls mode =
     (let source = parseSource url_parse lbls;
          page = registryPageURL host repo tag source;
          rest = (if page \<noteq> [] then page else sourceRepoURL source)
      in if mode = ModeSemver \<or> mode = ModeNumeric then
           (case source of
              Some s \<Rightarrow> if isGitHub (ps_host s) then ps_repoURL s @ releases else rest
            | None \<Rightarrow> rest)
         else rest)"

section \<open>Facts\<close>

lemma host_names_distinct [simp]:
  "host_hub \<noteq> host_quay" "host_hub \<noteq> host_ghcr" "host_quay \<noteq> host_ghcr"
  "host_quay \<noteq> host_hub" "host_ghcr \<noteq> host_hub" "host_ghcr \<noteq> host_quay"
  by (simp_all add: host_hub_def host_quay_def host_ghcr_def)

lemma pages_nonempty [simp]: "hub_library_page \<noteq> []" "hub_repo_page \<noteq> []" "quay_page \<noteq> []"
  by (simp_all add: hub_library_page_def hub_repo_page_def quay_page_def)

text \<open>Neither encoding leaves a character that ends a query or a path.\<close>

lemma hex_digit_unreserved: "n < 16 \<Longrightarrow> unreserved (hex_digit n)"
  by (auto simp: hex_digit_def unreserved_def is_digit_def byte_def of_char_of)

lemma percent_chars: "set (percent c) \<subseteq> insert CHR ''%'' {x. unreserved x}"
proof -
  have "byte c < 256" by (simp add: byte_def)
  then have "byte c div 16 < 16" by (simp add: less_mult_imp_div_less)
  then show ?thesis by (simp add: percent_def hex_digit_unreserved)
qed

lemma QueryEscape_chars: "set (QueryEscape s) \<subseteq> {CHR ''%'', CHR ''+''} \<union> {x. unreserved x}"
  using percent_chars by (fastforce simp: QueryEscape_def split: if_splits)

lemma PathEscape_chars: "set (PathEscape s) \<subseteq> set ''%$&+=:@'' \<union> {x. unreserved x}"
  using percent_chars by (fastforce simp: PathEscape_def split: if_splits)

lemma parseSource_parts:
  assumes "parseSource url_parse lbls = Some s"
  shows "\<exists>scheme host owner repo. ps_repoURL s = scheme @ ''://'' @ host @ ''/'' @ owner @ ''/'' @ repo
    \<and> scheme \<noteq> [] \<and> ps_host s = to_lower host \<and> host \<noteq> [] \<and> owner \<noteq> [] \<and> repo \<noteq> []
    \<and> CHR ''/'' \<notin> set owner \<and> CHR ''/'' \<notin> set repo"
proof -
  have tl: "to_lower [] = []" by (simp add: to_lower.simps)
  from assms obtain u owner repo rest where
    u: "to_lower (url_hostname u) \<noteq> []" "ps_host s = to_lower (url_hostname u)"
    "split_on CHR ''/'' (trim_suffix (trim_byte CHR ''/'' (url_path u)) git_suffix) = owner # repo # rest"
    "owner \<noteq> []" "repo \<noteq> []"
    "ps_repoURL s = (if url_scheme u = [] then https else url_scheme u) @ ''://'' @ url_hostname u @ ''/'' @ owner @ ''/'' @ repo"
    by (auto simp: parseSource_def Let_def split: if_splits sum.splits list.splits)
  have "owner \<in> set (split_on CHR ''/'' (trim_suffix (trim_byte CHR ''/'' (url_path u)) git_suffix))"
    "repo \<in> set (split_on CHR ''/'' (trim_suffix (trim_byte CHR ''/'' (url_path u)) git_suffix))"
    unfolding u(3) by simp_all
  then have "CHR ''/'' \<notin> set owner" "CHR ''/'' \<notin> set repo" by (auto dest: split_on_parts)
  moreover have "url_hostname u \<noteq> []" using u(1) tl by metis
  moreover have "https \<noteq> []" by (simp add: https_def)
  ultimately show ?thesis using u by (cases "url_scheme u = []") (auto intro!: exI)
qed

section \<open>Properties\<close>

text \<open>
  Where the link of an update leads: to the release list for a tag update of an image with a
  GitHub source; otherwise to the registry's page where the host has one that needs no guess, and
  else to the source repository or nowhere. A digest update is never sent to releases unless the
  source itself is named so, and a tag reaches the query of a Docker Hub page in escaped form only.
\<close>
theorem image_link:
  "image_URL url_parse host repo tag lbls mode =
    (case parseSource url_parse lbls of
       Some s \<Rightarrow>
         if (mode = ModeSemver \<or> mode = ModeNumeric) \<and> isGitHub (ps_host s) then ps_repoURL s @ releases
         else if host = host_ghcr \<and> isGitHub (ps_host s) \<and> lastPathSegment repo \<noteq> []
           then ps_repoURL s @ ''/pkgs/container/'' @ PathEscape (lastPathSegment repo)
         else if host \<in> {host_hub, host_quay} \<and> repo \<noteq> [] then registryPageURL host repo tag None
         else ps_repoURL s
     | None \<Rightarrow> if host \<in> {host_hub, host_quay} \<and> repo \<noteq> [] then registryPageURL host repo tag None else [])
   \<and> (repo \<noteq> [] \<and> tag \<noteq> [] \<longrightarrow> (\<exists>page query. registryPageURL host_hub repo tag None = page @ ''?tag='' @ query
        \<and> page \<in> {hub_repo_page @ repo} \<union> {hub_library_page @ nm | nm. repo = library_prefix @ nm}
        \<and> set query \<subseteq> {CHR ''%'', CHR ''+''} \<union> {x. unreserved x}))"
proof -
  have "\<exists>page query. registryPageURL host_hub repo tag None = page @ ''?tag='' @ query
        \<and> page \<in> {hub_repo_page @ repo} \<union> {hub_library_page @ nm | nm. repo = library_prefix @ nm}
        \<and> set query \<subseteq> {CHR ''%'', CHR ''+''} \<union> {x. unreserved x}" if "repo \<noteq> []" "tag \<noteq> []"
  proof -
    let ?page = "case cut_prefix repo library_prefix of
              Some nm \<Rightarrow> if nm \<noteq> [] \<and> \<not> contains nm CHR ''/'' then hub_library_page @ nm
                         else hub_repo_page @ repo
            | None \<Rightarrow> hub_repo_page @ repo"
    have "registryPageURL host_hub repo tag None = ?page @ ''?tag='' @ QueryEscape tag"
      using that by (simp add: registryPageURL_def dockerHubURL_def Let_def)
    moreover have "?page \<in> {hub_repo_page @ repo} \<union> {hub_library_page @ nm | nm. repo = library_prefix @ nm}"
      by (auto simp: cut_prefix_Some split: option.splits)
    ultimately show ?thesis using QueryEscape_chars [of tag] by blast
  qed
  moreover have "dockerHubURL repo tag \<noteq> []" if "repo \<noteq> []"
    using that by (auto simp: dockerHubURL_def Let_def split: option.splits)
  moreover have "ps_repoURL s \<noteq> []" if "parseSource url_parse lbls = Some s" for s
    using parseSource_parts [OF that] by auto
  ultimately show ?thesis
    by (auto simp: image_URL_def Let_def registryPageURL_def ghcrPackageURL_def sourceRepoURL_def dockerHubURL_def
        split: option.splits)
qed

theorem image_link_witness:
  "\<exists>page query. registryPageURL host_hub ''library/nginx'' ''1 2'' None = page @ ''?tag='' @ query
     \<and> set query \<subseteq> {CHR ''%'', CHR ''+''} \<union> {x. unreserved x}"
  using image_link [of "\<lambda>_. Inl ErrEOF" host_hub "''library/nginx''" "''1 2''" "[]" ModeDigest] by blast

end
