(* ===== verification/Format.thy ===== *)
theory Format
  imports ImageWeb
begin

text \<open>
  What a notification says about an update (\<open>internal/notifier/format/format.go\<close>): the fields of an
  item, the default JSON envelope and the default templates. \<open>url.Parse\<close> is a parameter. A template
  of the configuration is a function from its data to a text or an error; the default ones are
  written out.
\<close>

record item_data =
  it_instance :: string
  it_container :: string
  it_image :: string
  it_tag :: string
  it_change :: string
  it_url :: string
  it_current_tag :: string
  it_latest_tag :: string
  it_host :: string
  it_bump :: string

record digest_data =
  dg_instance :: string
  dg_count :: nat
  dg_items :: string

record update_entry =
  ue_container :: string
  ue_image :: string
  ue_host :: string
  ue_current_tag :: string
  ue_latest_tag :: string
  ue_change :: string
  ue_url :: string
  ue_mode :: string
  ue_bump :: string

record payload =
  pl_instance :: string
  pl_count :: nat
  pl_updates :: "update_entry list"

definition TrackingMode :: "update_available \<Rightarrow> string" where
  "TrackingMode u = (if u_latest_tag u \<noteq> [] then ModeSemver else ModeDigest)"

definition ShortDigest :: "string \<Rightarrow> string" where
  "ShortDigest d = shortHex d @ ellipsis"

definition escape_if :: "string \<Rightarrow> bool \<Rightarrow> string" where
  "escape_if s escapeHTML = (if escapeHTML then html_escape s else s)"

definition spaced_arrow :: string where "spaced_arrow = '' '' @ arrow @ '' ''"
definition major_mark :: string where "major_mark = '' (major)''"
definition digest_changed :: string where "digest_changed = ''digest changed: ''"

definition ChangeText :: "update_available \<Rightarrow> bool \<Rightarrow> string" where
  "ChangeText u escapeHTML =
     (if u_latest_tag u \<noteq> [] then
        escape_if (u_current_tag u) escapeHTML @ spaced_arrow @ escape_if (u_latest_tag u) escapeHTML @
          (if u_bump u = BumpMajor then major_mark else [])
      else
        digest_changed @ escape_if (ShortDigest (u_local_digest u)) escapeHTML @ spaced_arrow @
          escape_if (ShortDigest (u_remote_digest u)) escapeHTML)"

definition ItemFromEvent :: "url_parser \<Rightarrow> string \<Rightarrow> update_available \<Rightarrow> bool \<Rightarrow> item_data" where
  "ItemFromEvent url_parse instanceName u escapeHTML =
     (let mode = TrackingMode u;
          tagForURL = (if u_latest_tag u \<noteq> [] then u_latest_tag u else u_current_tag u);
          link = image_URL url_parse (u_host u) (u_repo u) tagForURL (c_labels (u_container u)) mode
      in \<lparr>it_instance = escape_if instanceName escapeHTML,
          it_container = escape_if (c_name (u_container u)) escapeHTML,
          it_image = escape_if (u_repo u) escapeHTML,
          it_tag = escape_if (u_current_tag u) escapeHTML,
          it_change = ChangeText u escapeHTML,
          it_url = escape_if link escapeHTML,
          it_current_tag = escape_if (u_current_tag u) escapeHTML,
          it_latest_tag = escape_if (u_latest_tag u) escapeHTML,
          it_host = escape_if (u_host u) escapeHTML,
          it_bump = u_bump u\<rparr>)"

definition UpdateEntryFromEvent :: "url_parser \<Rightarrow> update_available \<Rightarrow> update_entry" where
  "UpdateEntryFromEvent url_parse u =
     (let item = ItemFromEvent url_parse [] u False in
      \<lparr>ue_container = it_container item, ue_image = it_image item, ue_host = it_host item,
       ue_current_tag = it_current_tag item, ue_latest_tag = it_latest_tag item,
       ue_change = it_change item, ue_url = it_url item, ue_mode = TrackingMode u, ue_bump = u_bump u\<rparr>)"

definition PayloadFromEvents :: "url_parser \<Rightarrow> string \<Rightarrow> update_available list \<Rightarrow> payload" where
  "PayloadFromEvents url_parse instanceName events =
     \<lparr>pl_instance = instanceName, pl_count = length events,
      pl_updates = map (UpdateEntryFromEvent url_parse) events\<rparr>"

section \<open>The default templates\<close>

definition newline :: string where "newline = [CHR 0x0A]"
definition package_mark :: string where
  "package_mark = [CHR 0xF0, CHR 0x9F, CHR 0x93, CHR 0xA6] @ '' ''"
definition dash_mark :: string where "dash_mark = '' '' @ [CHR 0xE2, CHR 0x80, CHR 0x94] @ '' ''"

definition DefaultItemTemplate :: "item_data \<Rightarrow> string" where
  "DefaultItemTemplate d =
     ''<b>'' @ it_container d @ ''</b>: '' @ it_change d @
     (if it_url d \<noteq> [] then newline @ it_url d else []) @ newline"

definition DefaultDigestTemplate :: "digest_data \<Rightarrow> string" where
  "DefaultDigestTemplate d =
     package_mark @ dg_instance d @
     (if 1 < dg_count d then dash_mark @ itoa_nat (dg_count d) @ '' updates'' else []) @
     newline @ dg_items d"

section \<open>Facts\<close>

text \<open>In escaped form nothing of an update can open or close an HTML tag or an attribute.\<close>

definition html_safe :: "string \<Rightarrow> bool" where
  "html_safe s \<longleftrightarrow> (\<forall>c\<in>set s. c \<notin> {CHR ''<'', CHR ''>'', CHR 0x22, CHR 0x27})"

lemma html_safe_simps [simp]:
  "html_safe []" "html_safe (s @ t) \<longleftrightarrow> html_safe s \<and> html_safe t" "html_safe (html_escape s)"
  using html_escape_safe by (auto simp: html_safe_def)

lemma html_safe_marks [simp]: "html_safe spaced_arrow" "html_safe major_mark" "html_safe digest_changed"
  by (simp_all add: html_safe_def spaced_arrow_def arrow_def major_mark_def digest_changed_def)

section \<open>Properties\<close>

text \<open>
  No field of an update reaches a Telegram message unescaped: whatever names, tags, labels and
  digests contain, in HTML mode every text field of an item, the link included, is free of the
  characters that open or close a tag or an attribute.
\<close>
theorem html_item_safe:
  "let d = ItemFromEvent url_parse inst u True in
     html_safe (it_instance d) \<and> html_safe (it_container d) \<and> html_safe (it_image d) \<and> html_safe (it_tag d)
   \<and> html_safe (it_change d) \<and> html_safe (it_url d) \<and> html_safe (it_current_tag d)
   \<and> html_safe (it_latest_tag d) \<and> html_safe (it_host d)"
  by (simp add: ItemFromEvent_def Let_def escape_if_def ChangeText_def)

end
