(* ===== verification/NotifierBase.thy ===== *)
theory NotifierBase
  imports Format HttpRetry
begin

text \<open>
  What the network notifiers have in common: reading the values of a plugin configuration (the five
  packages have the same helpers, differing in the name their errors carry), posting a request over
  HTTP, and the loop over the updates of a batch. The HTTP client, URL parsing, duration parsing,
  template compilation and JSON encoding are the record \<open>tools\<close>.
\<close>

section \<open>Tools\<close>

text \<open>The body of an answer: the bytes that arrive, and the error reading them ends with (\<open>None\<close>: the end of the body).\<close>

record http_response =
  hr_status :: int
  hr_body :: "string \<times> go_error option"
  hr_retry_after :: string

record request =
  rq_target :: string
  rq_headers :: "(string \<times> string) list"
  rq_body :: string

record 'w client =
  ht_new_request :: "string \<Rightarrow> go_error option"
  ht_do :: "ctx \<Rightarrow> request \<Rightarrow> 'w \<Rightarrow> (go_error + http_response) \<times> 'w"

type_synonym 'd template = "'d \<Rightarrow> go_error + string"

record 'w tools =
  tl_env :: "'w env"
  tl_url_parse :: url_parser
  tl_url_string :: "url \<Rightarrow> string"
  tl_duration :: "string \<Rightarrow> go_error + duration"
  tl_http_time :: "string \<Rightarrow> int option"
  tl_item_template :: "string \<Rightarrow> go_error + item_data template"
  tl_digest_template :: "string \<Rightarrow> go_error + digest_data template"
  tl_web_template :: "string \<Rightarrow> go_error + item_data template \<times> payload template"
  tl_expand_env :: "string \<Rightarrow> string"
  tl_client :: "string \<Rightarrow> duration \<Rightarrow> go_error + 'w client"

text \<open>The early returns of a constructor: go on with the value, or return the error.\<close>

definition and_then :: "'e + 'a \<Rightarrow> ('a \<Rightarrow> 'e + 'b) \<Rightarrow> 'e + 'b" where
  "and_then r f = (case r of Inl err \<Rightarrow> Inl err | Inr x \<Rightarrow> f x)"

definition wrap_error :: "msg \<Rightarrow> go_error + 'a \<Rightarrow> go_error + 'a" where
  "wrap_error pieces r = (case r of Inl err \<Rightarrow> Inl (ErrWrap pieces err) | Inr x \<Rightarrow> Inr x)"

lemma and_then_Inr [simp]: "and_then r f = Inr y \<longleftrightarrow> (\<exists>x. r = Inr x \<and> f x = Inr y)"
  by (auto simp: and_then_def split: sum.splits)

lemma wrap_error_Inr [simp]: "wrap_error ps r = Inr y \<longleftrightarrow> r = Inr y"
  by (auto simp: wrap_error_def split: sum.splits)

section \<open>Configuration values\<close>

definition config_error :: "string \<Rightarrow> msg \<Rightarrow> go_error" where
  "config_error plugin pieces = ErrText (Str plugin # Lit '' config: '' # pieces)"

definition require_string :: "string \<Rightarrow> cfg_map \<Rightarrow> string \<Rightarrow> go_error + string" where
  "require_string plugin cfg key =
     (case map_of cfg key of
        None \<Rightarrow> Inl (config_error plugin [Str key, Lit '' is required''])
      | Some ANull \<Rightarrow> Inl (config_error plugin [Str key, Lit '' is required''])
      | Some (AStr s) \<Rightarrow>
          if trim_space s = [] then Inl (config_error plugin [Str key, Lit '' must be a non-empty string''])
          else Inr (trim_space s)
      | Some _ \<Rightarrow> Inl (config_error plugin [Str key, Lit '' must be a non-empty string'']))"

definition optional_string :: "cfg_map \<Rightarrow> string \<Rightarrow> string \<Rightarrow> string" where
  "optional_string cfg key fallback =
     (case map_of cfg key of
        Some (AStr s) \<Rightarrow> if trim_space s = [] then fallback else trim_space s
      | _ \<Rightarrow> fallback)"

definition optional_template :: "cfg_map \<Rightarrow> string \<Rightarrow> 'a \<Rightarrow> (string \<Rightarrow> 'a) \<Rightarrow> 'a" where
  "optional_template cfg key fallback given =
     (case map_of cfg key of
        Some (AStr s) \<Rightarrow> if trim_space s = [] then fallback else given s
      | _ \<Rightarrow> fallback)"

definition optional_duration :: "string \<Rightarrow> (string \<Rightarrow> go_error + duration) \<Rightarrow> cfg_map \<Rightarrow> string \<Rightarrow> duration
    \<Rightarrow> go_error + duration" where
  "optional_duration plugin parse_duration cfg key fallback =
     (case map_of cfg key of
        None \<Rightarrow> Inr fallback
      | Some ANull \<Rightarrow> Inr fallback
      | Some (AStr s) \<Rightarrow>
          if trim_space s = [] then Inr fallback
          else (case parse_duration (trim_space s) of
                  Inl err \<Rightarrow> Inl (ErrWrap [Str plugin, Lit '' config: '', Str key, Lit '': ''] err)
                | Inr d \<Rightarrow>
                    if d \<le> 0 then Inl (config_error plugin [Str key, Lit '' must be positive'']) else Inr d)
      | Some _ \<Rightarrow> Inl (config_error plugin [Str key, Lit '' must be a duration string (e.g. '', Quoted ''10s'', Lit '')'']))"

text \<open>
  The conversion \<open>int(f)\<close> of a \<open>float64\<close> drops the fraction; outside the 64-bit range Go leaves the
  result to the implementation, which on amd64 is the least integer.
\<close>

definition float_to_int :: "rat \<Rightarrow> int" where
  "float_to_int r =
     (let n = (if 0 \<le> r then \<lfloor>r\<rfloor> else \<lceil>r\<rceil>) in if int64 n then n else - (2 ^ 63))"

definition optional_int :: "string \<Rightarrow> (int \<Rightarrow> go_error + int) \<Rightarrow> cfg_map \<Rightarrow> string \<Rightarrow> int \<Rightarrow> go_error + int" where
  "optional_int plugin check cfg key fallback =
     (case map_of cfg key of
        None \<Rightarrow> Inr fallback
      | Some ANull \<Rightarrow> Inr fallback
      | Some (AInt n) \<Rightarrow> check n
      | Some (AInt64 n) \<Rightarrow> check n
      | Some (AFloat f) \<Rightarrow> check (float_to_int f)
      | Some _ \<Rightarrow> Inl (config_error plugin [Str key, Lit '' must be an integer'']))"

definition non_negative :: "string \<Rightarrow> string \<Rightarrow> int \<Rightarrow> go_error + int" where
  "non_negative plugin key n =
     (if n < 0 then Inl (config_error plugin [Str key, Lit '' must be non-negative'']) else Inr n)"

definition max_attempts :: "int \<Rightarrow> int" where
  "max_attempts retries = (if retries \<le> 1 then 1 else retries)"

definition key_url :: string where "key_url = ''url''"
definition key_token :: string where "key_token = ''token''"
definition key_mode :: string where "key_mode = ''mode''"
definition key_proxy :: string where "key_proxy = ''proxy''"
definition key_timeout :: string where "key_timeout = ''timeout''"
definition key_retries :: string where "key_retries = ''retries''"
definition key_retry_delay :: string where "key_retry_delay = ''retry_delay''"
definition key_instance :: string where "key_instance = ''instance_name''"
definition key_priority :: string where "key_priority = ''priority''"
definition key_template :: string where "key_template = ''template''"
definition key_item_template :: string where "key_item_template = ''item_template''"
definition key_digest_template :: string where "key_digest_template = ''digest_template''"

definition modeSimple :: string where "modeSimple = ''simple''"
definition modeDigest :: string where "modeDigest = ''digest''"

definition mode_ok :: "string \<Rightarrow> bool" where "mode_ok mode \<longleftrightarrow> mode = modeSimple \<or> mode = modeDigest"

definition mode_error_for :: "string \<Rightarrow> go_error" where
  "mode_error_for plugin =
     config_error plugin [Lit ''mode must be '', Quoted modeSimple, Lit '' or '', Quoted modeDigest]"

definition defaultTimeout :: duration where "defaultTimeout = 10 * second"

section \<open>Posting\<close>

definition no_response :: "go_error \<Rightarrow> attempt_result" where
  "no_response err = \<lparr>ar_status = 0, ar_body = [], ar_retry_after = [], ar_err = Some err\<rparr>"

text \<open>
  Reading an answer through a limit of a megabyte (\<open>io.ReadAll\<close> of an \<open>io.LimitReader\<close>): once the limit is
  reached the reader below is not asked again, so an error after the first megabyte is not seen.
\<close>

definition read_limited :: "string \<times> go_error option \<Rightarrow> go_error + string" where
  "read_limited stream =
     (case stream of (raw, broken) \<Rightarrow>
        (case broken of
           Some err \<Rightarrow> if length raw < 2 ^ 20 then Inl err else Inr (take (2 ^ 20) raw)
         | None \<Rightarrow> Inr (take (2 ^ 20) raw)))"

text \<open>
  One attempt: the request is created, sent, and at most a megabyte of the answer is read.
  \<open>retry_after\<close> is where the notifier reads the delay the server asks for.
\<close>

definition http_attempt :: "'w client \<Rightarrow> (http_response \<Rightarrow> string \<Rightarrow> string) \<Rightarrow> request \<Rightarrow> ctx \<Rightarrow> 'w
    \<Rightarrow> attempt_result \<times> 'w" where
  "http_attempt cl retry_after rq c w =
     (case ht_new_request cl (rq_target rq) of
        Some err \<Rightarrow> (no_response (ErrWrap [Lit ''create request: ''] err), w)
      | None \<Rightarrow>
     (case ht_do cl c rq w of
        (Inl err, w) \<Rightarrow> (no_response err, w)
      | (Inr resp, w) \<Rightarrow>
     (case read_limited (hr_body resp) of
        Inl err \<Rightarrow> (no_response (ErrWrap [Lit ''read response: ''] err), w)
      | Inr body \<Rightarrow>
          (\<lparr>ar_status = hr_status resp, ar_body = body, ar_retry_after = retry_after resp body,
            ar_err = None\<rparr>, w))))"

definition header_only :: "http_response \<Rightarrow> string \<Rightarrow> string" where
  "header_only resp body = hr_retry_after resp"

section \<open>Rendering\<close>

text \<open>Every update is one item; the items that are not empty are joined.\<close>

fun render_items :: "item_data template \<Rightarrow> (update_available \<Rightarrow> item_data) \<Rightarrow> update_available list
    \<Rightarrow> go_error + string list" where
  "render_items tmpl data_of [] = Inr []"
| "render_items tmpl data_of (u # us) =
     and_then (wrap_error [Lit ''execute item_template: ''] (tmpl (data_of u))) (\<lambda>item.
       and_then (render_items tmpl data_of us) (\<lambda>items.
         Inr (if item \<noteq> [] then item # items else items)))"

definition render_digest :: "item_data template \<Rightarrow> digest_data template \<Rightarrow> (update_available \<Rightarrow> item_data)
    \<Rightarrow> string \<Rightarrow> update_available list \<Rightarrow> go_error + string" where
  "render_digest item_tmpl digest_tmpl data_of inst events =
     and_then (render_items item_tmpl data_of events) (\<lambda>items.
       and_then (wrap_error [Lit ''execute digest_template: '']
           (digest_tmpl \<lparr>dg_instance = inst, dg_count = length events, dg_items = concat items\<rparr>)) (\<lambda>text.
         Inr (trim_right_byte CHR 0x0A text)))"

definition title_one :: string where "title_one = ''Versentry''"

definition message_title :: "nat \<Rightarrow> string" where
  "message_title count = (if count \<le> 1 then title_one else title_one @ '': '' @ itoa_nat count @ '' updates'')"

text \<open>The data of a Markdown item: every field escaped, the link left as it is.\<close>

definition item_data_markdown :: "url_parser \<Rightarrow> (string \<Rightarrow> string) \<Rightarrow> string \<Rightarrow> update_available \<Rightarrow> item_data" where
  "item_data_markdown url_parse esc inst u =
     (let d = ItemFromEvent url_parse inst u False in
      d\<lparr>it_instance := esc (it_instance d), it_container := esc (it_container d), it_image := esc (it_image d),
        it_tag := esc (it_tag d), it_change := esc (it_change d), it_current_tag := esc (it_current_tag d),
        it_latest_tag := esc (it_latest_tag d), it_host := esc (it_host d)\<rparr>)"

text \<open>The default Markdown templates: a bold name, the change, the link in link syntax, an empty line.\<close>

definition markdown_item :: "item_data \<Rightarrow> string" where
  "markdown_item d =
     ''**'' @ it_container d @ ''**: '' @ it_change d @
     (if it_url d \<noteq> [] then newline @ ''['' @ it_url d @ '']('' @ it_url d @ '')'' else []) @ newline @ newline"

definition markdown_digest :: "digest_data \<Rightarrow> string" where
  "markdown_digest d = dg_items d"

section \<open>The loop over a batch\<close>

fun send_each :: "(ctx \<Rightarrow> update_available list \<Rightarrow> 'w \<Rightarrow> go_error option \<times> 'w) \<Rightarrow> ctx
    \<Rightarrow> update_available list \<Rightarrow> 'w \<Rightarrow> go_error option \<times> 'w" where
  "send_each send c [] w = (None, w)"
| "send_each send c (u # us) w =
     (case send c [u] w of
        (Some err, w) \<Rightarrow> (Some err, w)
      | (None, w) \<Rightarrow> send_each send c us w)"

definition notify_by_mode :: "string \<Rightarrow> (ctx \<Rightarrow> update_available list \<Rightarrow> 'w \<Rightarrow> go_error option \<times> 'w)
    \<Rightarrow> (ctx \<Rightarrow> update_available list \<Rightarrow> 'w \<Rightarrow> go_error option \<times> 'w) \<Rightarrow> ctx \<Rightarrow> update_available list \<Rightarrow> 'w
    \<Rightarrow> go_error option \<times> 'w" where
  "notify_by_mode mode send_digest send_simple c events w =
     (if events = [] then (None, w)
      else if mode = modeDigest then send_digest c events w
      else send_each send_simple c events w)"

text \<open>The batches a notifier makes of the updates it is given.\<close>

definition batches :: "string \<Rightarrow> update_available list \<Rightarrow> update_available list list" where
  "batches mode events =
     (if events = [] then [] else if mode = modeDigest then [events] else map (\<lambda>u. [u]) events)"

lemma batches_concat: "concat (batches mode events) = events"
  by (induction events) (auto simp: batches_def)

section \<open>The lines of a failure\<close>

definition render_failed :: "string \<Rightarrow> (string \<times> attr) list \<Rightarrow> go_error \<Rightarrow> log_line" where
  "render_failed name info err = LogLine LevelError (name @ '' render failed'') (info @ [(''error'', AttrErr err)])"

definition notify_failed :: "string \<Rightarrow> (string \<times> attr) list \<Rightarrow> go_error \<Rightarrow> log_line" where
  "notify_failed name info err = LogLine LevelError (name @ '' notify failed'') (info @ [(''error'', AttrErr err)])"

definition host_field :: "string \<Rightarrow> string \<times> attr" where "host_field h = (''host'', AttrStr h)"

definition count_field :: "update_available list \<Rightarrow> string \<times> attr" where
  "count_field events = (''count'', AttrNum (int (length events)))"

text \<open>Log the error of a call, if it has one, and hand it on.\<close>

definition log_failure :: "'w env \<Rightarrow> (go_error \<Rightarrow> log_line) \<Rightarrow> go_error option \<times> 'w \<Rightarrow> go_error option \<times> 'w" where
  "log_failure e line rw = (case rw of (None, w) \<Rightarrow> (None, w) | (Some err, w) \<Rightarrow> (Some err, e_log e (line err) w))"

lemma log_failure_simps [simp]:
  "log_failure e line (None, w) = (None, w)" "log_failure e line (Some err, w) = (Some err, e_log e (line err) w)"
  by (simp_all add: log_failure_def)

lemma log_failure_success [simp]: "log_failure e line rw = (None, w) \<longleftrightarrow> rw = (None, w)"
  by (cases rw; cases "fst rw") auto

section \<open>The contract of a push channel\<close>

text \<open>
  Messages are rendered from a batch and posted one after the other, blank ones skipped; the first
  error ends the batch and is logged (an error of rendering by \<open>render_lines\<close>, which may be silent). A
  channel promises that a post reported as successful was accepted by the server. What it guarantees
  in return: a notification reported as delivered was accepted, message by message, for every update;
  and what a notification logs.
\<close>

fun post_all :: "('m \<Rightarrow> bool) \<Rightarrow> (ctx \<Rightarrow> 'm \<Rightarrow> 'w \<Rightarrow> go_error option \<times> 'w) \<Rightarrow> ctx \<Rightarrow> 'm list \<Rightarrow> 'w
    \<Rightarrow> go_error option \<times> 'w" where
  "post_all blank post c [] w = (None, w)"
| "post_all blank post c (m # ms) w =
     (if blank m then post_all blank post c ms w
      else case post c m w of
        (Some err, w) \<Rightarrow> (Some err, w)
      | (None, w) \<Rightarrow> post_all blank post c ms w)"

text \<open>\<open>below lg lvl f\<close>: the call \<open>f\<close> logs only lines below the level.\<close>

definition below :: "('w \<Rightarrow> log_line list) \<Rightarrow> level \<Rightarrow> ('w \<Rightarrow> 'a \<times> 'w) \<Rightarrow> bool" where
  "below lg lvl f \<longleftrightarrow> (\<forall>w. \<exists>ls. lg (snd (f w)) = lg w @ ls \<and> (\<forall>l\<in>set ls. line_level l < lvl))"

lemma belowI:
  "(\<And>w r w'. f w = (r, w') \<Longrightarrow> \<exists>ls. lg w' = lg w @ ls \<and> (\<forall>l\<in>set ls. line_level l < lvl)) \<Longrightarrow> below lg lvl f"
  by (metis below_def prod.collapse)

lemma belowD:
  "below lg lvl f \<Longrightarrow> f w = (r, w') \<Longrightarrow> \<exists>ls. lg w' = lg w @ ls \<and> (\<forall>l\<in>set ls. line_level l < lvl)"
  by (metis below_def snd_conv)

text \<open>A batch counts as handed over when each of its messages is blank or was accepted.\<close>

definition handed_over :: "string \<Rightarrow> (bool \<Rightarrow> update_available list \<Rightarrow> go_error + 'm list) \<Rightarrow> ('m \<Rightarrow> bool)
    \<Rightarrow> (ctx \<Rightarrow> 'm \<Rightarrow> bool) \<Rightarrow> ctx \<Rightarrow> update_available list \<Rightarrow> bool" where
  "handed_over mode render blank accepted c us \<longleftrightarrow>
     (\<exists>ms. render (mode \<noteq> modeDigest) us = Inr ms \<and> (\<forall>m\<in>set ms. blank m \<or> accepted c m))"

locale push_channel =
  fixes mode :: string
    and render :: "bool \<Rightarrow> update_available list \<Rightarrow> go_error + 'm list"
    and blank :: "'m \<Rightarrow> bool"
    and post :: "ctx \<Rightarrow> 'm \<Rightarrow> 'w \<Rightarrow> go_error option \<times> 'w"
    and send :: "bool \<Rightarrow> ctx \<Rightarrow> update_available list \<Rightarrow> 'w \<Rightarrow> go_error option \<times> 'w"
    and notify :: "ctx \<Rightarrow> update_available list \<Rightarrow> 'w \<Rightarrow> go_error option \<times> 'w"
    and accepted :: "ctx \<Rightarrow> 'm \<Rightarrow> bool"
    and env :: "'w env"
    and render_lines :: "update_available list \<Rightarrow> go_error \<Rightarrow> log_line list"
    and post_line :: "update_available list \<Rightarrow> go_error \<Rightarrow> log_line"
  assumes post_accepted: "post c m w = (None, w') \<Longrightarrow> accepted c m"
    and send_posts: "send simple c us w =
      (case render simple us of
         Inl err \<Rightarrow> (Some err, fold (e_log env) (render_lines us err) w)
       | Inr ms \<Rightarrow> log_failure env (post_line us) (post_all blank post c ms w))"
    and notify_sends: "notify c us w = notify_by_mode mode (send False) (send True) c us w"
begin

lemma post_all_accepted: "post_all blank post c ms w = (None, w') \<Longrightarrow> \<forall>m\<in>set ms. blank m \<or> accepted c m"
  by (induction ms arbitrary: w) (auto split: if_splits prod.splits option.splits dest: post_accepted)

lemma send_hands_over: "send (mode \<noteq> modeDigest) c us w = (None, w') \<Longrightarrow> handed_over mode render blank accepted c us"
  by (auto simp: send_posts handed_over_def split: sum.splits dest: post_all_accepted)

lemma send_each_hands_over:
  "mode \<noteq> modeDigest \<Longrightarrow> send_each (send True) c us w = (None, w') \<Longrightarrow> u \<in> set us \<Longrightarrow> handed_over mode render blank accepted c [u]"
proof (induction us arbitrary: w)
  case (Cons x us)
  obtain r w1 where s: "send True c [x] w = (r, w1)" by fastforce
  with Cons.prems have r: "r = None" and rest: "send_each (send True) c us w1 = (None, w')"
    by (auto split: option.splits)
  have "handed_over mode render blank accepted c [x]" using send_hands_over [of c "[x]" w w1] s r Cons.prems(1) by simp
  with Cons.IH [OF Cons.prems(1) rest] Cons.prems(3) show ?case by auto
qed simp

lemma notify_delivers:
  assumes "notify c us w = (None, w')"
  shows "\<forall>b\<in>set (batches mode us). handed_over mode render blank accepted c b"
proof (cases "us = [] \<or> mode = modeDigest")
  case True
  then show ?thesis
    using assms send_hands_over [of c us w w'] by (auto simp: notify_sends notify_by_mode_def batches_def)
next
  case False
  then show ?thesis
    using assms send_each_hands_over [of c us w w'] by (auto simp: notify_sends notify_by_mode_def batches_def)
qed

text \<open>
  What is logged: while every post logs nothing above a warning, so does the notification, but for the
  lines of its error at the end.
\<close>

definition last_lines :: "update_available list list \<Rightarrow> go_error option \<Rightarrow> log_line list \<Rightarrow> bool" where
  "last_lines bs r ls \<longleftrightarrow>
     (case r of
        None \<Rightarrow> ls = []
      | Some err \<Rightarrow> \<exists>b\<in>set bs. ls = [post_line b err] \<or> (\<exists>simple. render simple b = Inl err) \<and> ls = render_lines b err)"

lemma post_all_below:
  assumes "\<forall>c m. below lg LevelError (post c m)"
  shows "below lg LevelError (post_all blank post c ms)"
proof (induction ms)
  case (Cons m ms)
  show ?case
  proof (rule belowI)
    fix w :: 'w and r :: "go_error option" and w' :: 'w
    assume run: "post_all blank post c (m # ms) w = (r, w')"
    obtain r1 w1 where p: "post c m w = (r1, w1)" by fastforce
    show "\<exists>ls. lg w' = lg w @ ls \<and> (\<forall>l\<in>set ls. line_level l < LevelError)"
    proof (cases "blank m \<or> r1 \<noteq> None")
      case True
      then show ?thesis using run p Cons.IH assms belowD by (fastforce split: if_splits option.splits)
    next
      case False
      then have "post_all blank post c ms w1 = (r, w')" using run p by auto
      from belowD [OF Cons.IH this] belowD [OF assms [rule_format] p] show ?thesis by fastforce
    qed
  qed
qed (simp add: below_def)

lemma send_log:
  assumes "observes lg env" and "\<forall>c m. below lg LevelError (post c m)" and "send simple c us w = (r, w')"
  shows "\<exists>ls fs. lg w' = lg w @ ls @ fs \<and> (\<forall>l\<in>set ls. line_level l < LevelError) \<and> last_lines [us] r fs"
proof (cases "render simple us")
  case (Inl err)
  have "lg (fold (e_log env) fs w) = lg w @ fs" for fs
    using assms(1) by (induction fs arbitrary: w) simp_all
  with Inl assms(3) show ?thesis
    by (intro exI [of _ "[]"] exI [of _ "render_lines us err"]) (auto simp: send_posts last_lines_def)
next
  case (Inr ms)
  obtain r1 w1 where p: "post_all blank post c ms w = (r1, w1)" by fastforce
  from belowD [OF post_all_below [OF assms(2)] p] obtain ls where
    ls: "lg w1 = lg w @ ls" "\<forall>l\<in>set ls. line_level l < LevelError" by blast
  show ?thesis
  proof (cases r1)
    case None
    with assms(3) Inr p ls show ?thesis by (intro exI [of _ ls] exI [of _ "[]"]) (simp add: send_posts last_lines_def)
  next
    case (Some err)
    with assms(1,3) Inr p ls show ?thesis
      by (intro exI [of _ ls] exI [of _ "[post_line us err]"]) (auto simp: send_posts last_lines_def)
  qed
qed

lemma send_each_log:
  assumes "observes lg env" and "\<forall>c m. below lg LevelError (post c m)" and "send_each (send simple) c us w = (r, w')"
  shows "\<exists>ls fs. lg w' = lg w @ ls @ fs \<and> (\<forall>l\<in>set ls. line_level l < LevelError) \<and> last_lines (map (\<lambda>u. [u]) us) r fs"
  using assms(3)
proof (induction us arbitrary: w)
  case Nil
  then show ?case by (intro exI [of _ "[]"]) (simp add: last_lines_def)
next
  case (Cons u us)
  obtain r1 w1 where s: "send simple c [u] w = (r1, w1)" by fastforce
  from send_log [OF assms(1,2) s] obtain ls fs where
    l: "lg w1 = lg w @ ls @ fs" "\<forall>l\<in>set ls. line_level l < LevelError" "last_lines [[u]] r1 fs" by blast
  show ?case
  proof (cases r1)
    case None
    with Cons.prems s have "send_each (send simple) c us w1 = (r, w')" by simp
    from Cons.IH [OF this] obtain ls' fs' where
      "lg w' = lg w1 @ ls' @ fs'" "\<forall>l\<in>set ls'. line_level l < LevelError" "last_lines (map (\<lambda>u. [u]) us) r fs'" by blast
    with l None show ?thesis
      by (intro exI [of _ "ls @ ls'"] exI [of _ fs']) (auto simp: last_lines_def split: option.splits)
  next
    case (Some err)
    with Cons.prems s l show ?thesis by (intro exI [of _ ls] exI [of _ fs]) (auto simp: last_lines_def)
  qed
qed

lemma notify_log:
  assumes "observes lg env" and "\<forall>c m. below lg LevelError (post c m)" and "notify c us w = (r, w')"
  shows "\<exists>ls fs. lg w' = lg w @ ls @ fs \<and> (\<forall>l\<in>set ls. line_level l < LevelError) \<and> last_lines (batches mode us) r fs"
proof -
  consider "us = []" | "us \<noteq> []" "mode = modeDigest" | "us \<noteq> []" "mode \<noteq> modeDigest" by blast
  then show ?thesis
  proof cases
    case 1
    with assms(3) show ?thesis
      by (intro exI [of _ "[]"]) (simp add: notify_sends notify_by_mode_def last_lines_def)
  next
    case 2
    with send_log [OF assms(1,2), of False c us w r w'] assms(3) show ?thesis
      by (simp add: notify_sends notify_by_mode_def batches_def)
  next
    case 3
    with send_each_log [OF assms(1,2), of True c us w r w'] assms(3) show ?thesis
      by (simp add: notify_sends notify_by_mode_def batches_def)
  qed
qed

text \<open>Whatever the lines of an error have in common, \<open>says\<close>, the last lines of a failed notification have.\<close>

lemma notify_says:
  assumes "observes lg env" and "\<And>c m. below lg LevelError (post c m)" and "notify c us w = (r, w')"
    and "\<And>b err. says err [post_line b err]"
    and "\<And>b err simple. render simple b = Inl err \<Longrightarrow> says err (render_lines b err)"
  shows "\<exists>ls fs. lg w' = lg w @ ls @ fs \<and> (\<forall>l\<in>set ls. line_level l < LevelError)
    \<and> (case r of None \<Rightarrow> fs = [] | Some err \<Rightarrow> says err fs)"
proof -
  from notify_log [OF assms(1) _ assms(3)] assms(2) obtain ls fs where
    l: "lg w' = lg w @ ls @ fs" "\<forall>l\<in>set ls. line_level l < LevelError" "last_lines (batches mode us) r fs" by blast
  from l(3) assms(4,5) have "case r of None \<Rightarrow> fs = [] | Some err \<Rightarrow> says err fs"
    unfolding last_lines_def by (cases r) fastforce+
  with l(1,2) show ?thesis by blast
qed

end

section \<open>Facts\<close>

lemma http_attempt_accepted:
  assumes "http_attempt cl ra rq c w = (res, w')" and "ar_err res = None"
  shows "ht_new_request cl (rq_target rq) = None
    \<and> (\<exists>resp. ht_do cl c rq w = (Inr resp, w') \<and> read_limited (hr_body resp) = Inr (ar_body res)
        \<and> ar_status res = hr_status resp)"
  using assms by (auto simp: http_attempt_def no_response_def Let_def split: option.splits prod.splits sum.splits)

lemma DefaultClassifier_success:
  "oc_err (DefaultClassifier ht now res) = None \<longleftrightarrow> ar_err res = None \<and> 200 \<le> ar_status res \<and> ar_status res < 300"
  by (auto simp: DefaultClassifier_def Let_def failure_def success_def clientOutcome_def rateLimitOutcome_def
      split: option.splits)

definition taken_by_server :: "'w client \<Rightarrow> ctx \<Rightarrow> request \<Rightarrow> bool" where
  "taken_by_server cl c rq \<longleftrightarrow>
     (\<exists>w w' resp. ht_do cl c rq w = (Inr resp, w') \<and> 200 \<le> hr_status resp \<and> hr_status resp < 300)"

lemma Do_taken:
  assumes "Do e c cfg (DefaultClassifier ht) (http_attempt cl ra rq) w = (None, warned, w')"
  shows "taken_by_server cl c rq"
proof -
  obtain w0 res where
    "http_attempt cl ra rq c w0 = (res, w')" "oc_err (DefaultClassifier ht (e_now e w') res) = None"
    by (rule Do_success [OF assms])
  then obtain resp where "ht_do cl c rq w0 = (Inr resp, w')" "200 \<le> hr_status resp \<and> hr_status resp < 300"
    using http_attempt_accepted [of cl ra rq c w0 res w'] by (auto simp: DefaultClassifier_success)
  then show ?thesis unfolding taken_by_server_def by blast
qed

text \<open>A post by the shared loop logs warnings only, while the client and the reading of answers log nothing.\<close>

definition quiet_client :: "('w \<Rightarrow> log_line list) \<Rightarrow> 'w client \<Rightarrow> bool" where
  "quiet_client lg cl \<longleftrightarrow> (\<forall>c rq. quiet lg (ht_do cl c rq))"

lemma http_attempt_quiet: "quiet_client lg cl \<Longrightarrow> quiet lg (http_attempt cl ra rq c)"
  unfolding quiet_client_def quiet_def
  by (auto simp: http_attempt_def Let_def split: option.splits prod.splits sum.splits) (metis snd_conv)+

lemma Do_below:
  assumes "observes lg e" and "quiet lg (attempt c)" and "hc_sleep cfg = Some (sleepContext e)"
  shows "below lg LevelError (\<lambda>w. case Do e c cfg classify attempt w of (r, _, w) \<Rightarrow> (f r, w))"
proof (rule belowI)
  fix w r w' assume "(case Do e c cfg classify attempt w of (r, _, w) \<Rightarrow> (f r, w)) = (r, w')"
  then obtain r0 warned where "Do e c cfg classify attempt w = (r0, warned, w')" by (auto split: prod.splits)
  from Do_log [OF this assms] have "lg w' = lg w @ map (retry_line (withDefaults e cfg)) warned" .
  moreover have "line_level (retry_line d x) < LevelError" for d x
    by (cases x) (simp add: less_level_def level_num_def)
  ultimately show "\<exists>ls. lg w' = lg w @ ls \<and> (\<forall>l\<in>set ls. line_level l < LevelError)" by auto
qed

section \<open>Concrete tools\<close>

text \<open>For the concrete examples: a world that is only a clock, and a server that always gives the same status.\<close>

definition sample_client :: "int \<Rightarrow> 'w client" where
  "sample_client status =
     \<lparr>ht_new_request = \<lambda>_. None,
      ht_do = \<lambda>_ _ w. (Inr \<lparr>hr_status = status, hr_body = ([], None), hr_retry_after = []\<rparr>, w)\<rparr>"

definition sample_url :: url where
  "sample_url = \<lparr>url_scheme = ''https'', url_host = ''push.example'', url_path = [], url_query = [], url_fragment = []\<rparr>"

definition tools_on :: "'w env \<Rightarrow> 'w tools" where
  [simp]: "tools_on e =
     \<lparr>tl_env = e, tl_url_parse = \<lambda>_. Inr sample_url, tl_url_string = url_host, tl_duration = \<lambda>_. Inr second,
      tl_http_time = \<lambda>_. None, tl_item_template = \<lambda>_. Inr (\<lambda>d. Inr (it_container d)),
      tl_digest_template = \<lambda>_. Inr (\<lambda>d. Inr (dg_items d)),
      tl_web_template = \<lambda>_. Inr (\<lambda>d. Inr (it_container d), \<lambda>p. Inr (pl_instance p)),
      tl_expand_env = \<lambda>s. s, tl_client = \<lambda>_ _. Inr (sample_client 200)\<rparr>"

definition sample_tools :: "int tools" where "sample_tools = tools_on clock_env"

lemma sample_client_quiet [simp]: "quiet_client lg (sample_client status)"
  by (simp add: quiet_client_def quiet_def sample_client_def)

end
