(* ===== verification/Gotify.thy ===== *)
theory Gotify
  imports NotifierBase
begin

text \<open>
  The Gotify notifier (\<open>internal/notifier/gotify/gotify.go\<close>): its configuration, the rendered message
  and its delivery. \<open>json\<close> encodes a message.
\<close>

definition gotify_name :: string where "gotify_name = ''gotify''"

record 'w gotify =
  go_endpoint :: url
  go_host :: string
  go_token :: string
  go_mode :: string
  go_priority :: int
  go_proxyURL :: string
  go_instance :: string
  go_itemTmpl :: "item_data template"
  go_digestTmpl :: "digest_data template"
  go_client :: "'w client"
  go_maxAttempts :: int
  go_retryDelay :: duration

record gotify_message =
  gm_title :: string
  gm_message :: string
  gm_priority :: int
  gm_content_type :: string

definition gotify_requireString :: "cfg_map \<Rightarrow> string \<Rightarrow> go_error + string" where
  "gotify_requireString = require_string gotify_name"

definition gotify_optionalString :: "cfg_map \<Rightarrow> string \<Rightarrow> string \<Rightarrow> string" where
  "gotify_optionalString = optional_string"

definition gotify_optionalTemplate :: "cfg_map \<Rightarrow> string \<Rightarrow> 'a \<Rightarrow> (string \<Rightarrow> 'a) \<Rightarrow> 'a" where
  "gotify_optionalTemplate = optional_template"

definition gotify_optionalDuration :: "(string \<Rightarrow> go_error + duration) \<Rightarrow> cfg_map \<Rightarrow> string \<Rightarrow> duration
    \<Rightarrow> go_error + duration" where
  "gotify_optionalDuration = optional_duration gotify_name"

definition gotify_optionalInt :: "cfg_map \<Rightarrow> string \<Rightarrow> int \<Rightarrow> go_error + int" where
  "gotify_optionalInt = optional_int gotify_name Inr"

definition gotify_maxAttempts :: "int \<Rightarrow> int" where "gotify_maxAttempts = max_attempts"

definition gotify_messageTitle :: "nat \<Rightarrow> string" where "gotify_messageTitle = message_title"

definition message_path :: string where "message_path = ''/message''"

definition resolveMessageURL :: "url \<Rightarrow> url" where
  "resolveMessageURL base =
     (let path = trim_right_byte CHR ''/'' (url_path base); u = base\<lparr>url_query := [], url_fragment := []\<rparr>
      in if has_suffix path message_path then u\<lparr>url_path := path\<rparr>
         else u\<lparr>url_path := path @ message_path\<rparr>)"

definition http_scheme :: "string \<Rightarrow> bool" where
  "http_scheme s \<longleftrightarrow> s = ''http'' \<or> s = ''https''"

definition gotify_New :: "'w tools \<Rightarrow> cfg_map \<Rightarrow> go_error + 'w gotify" where
  "gotify_New ts cfg =
     and_then (gotify_requireString cfg key_url) (\<lambda>rawURL.
     and_then (gotify_requireString cfg key_token) (\<lambda>token.
     and_then (wrap_error [Lit ''gotify config: url: ''] (tl_url_parse ts rawURL)) (\<lambda>base.
     if \<not> http_scheme (url_scheme base) then
       Inl (config_error gotify_name [Lit ''url scheme must be http or https''])
     else if url_host base = [] then Inl (config_error gotify_name [Lit ''url must include a host''])
     else
     let endpoint = resolveMessageURL base; mode = gotify_optionalString cfg key_mode modeDigest in
     if \<not> mode_ok mode then Inl (mode_error_for gotify_name)
     else
     and_then (gotify_optionalInt cfg key_priority 5) (\<lambda>priority.
     if priority < 0 \<or> 10 < priority then
       Inl (config_error gotify_name [Lit ''priority must be between 0 and 10''])
     else
     and_then (wrap_error [Lit ''gotify config: item_template: '']
         (gotify_optionalTemplate cfg key_item_template (Inr (\<lambda>d. Inr (markdown_item d))) (tl_item_template ts))) (\<lambda>itemTmpl.
     and_then (wrap_error [Lit ''gotify config: digest_template: '']
         (gotify_optionalTemplate cfg key_digest_template (Inr (\<lambda>d. Inr (markdown_digest d))) (tl_digest_template ts))) (\<lambda>digestTmpl.
     and_then (gotify_optionalDuration (tl_duration ts) cfg key_timeout defaultTimeout) (\<lambda>timeout.
     and_then (gotify_optionalInt cfg key_retries DefaultRetries) (\<lambda>retries.
     if retries < 0 then Inl (config_error gotify_name [Lit ''retries must be non-negative''])
     else
     and_then (gotify_optionalDuration (tl_duration ts) cfg key_retry_delay DefaultRetryDelay) (\<lambda>retryDelay.
     let proxyURL = gotify_optionalString cfg key_proxy [] in
     and_then (wrap_error [Lit ''gotify proxy: ''] (tl_client ts proxyURL timeout)) (\<lambda>cl.
     Inr \<lparr>go_endpoint = endpoint, go_host = url_host endpoint, go_token = token, go_mode = mode,
          go_priority = priority, go_proxyURL = proxyURL,
          go_instance = gotify_optionalString cfg key_instance [], go_itemTmpl = itemTmpl,
          go_digestTmpl = digestTmpl, go_client = cl, go_maxAttempts = gotify_maxAttempts retries,
          go_retryDelay = retryDelay\<rparr>))))))))))"

definition gotify_itemData :: "'w tools \<Rightarrow> string \<Rightarrow> update_available \<Rightarrow> item_data" where
  "gotify_itemData ts = item_data_markdown (tl_url_parse ts) gotify_escapeMarkdown"

definition gotify_renderDigest :: "'w tools \<Rightarrow> 'w gotify \<Rightarrow> update_available list \<Rightarrow> go_error + string" where
  "gotify_renderDigest ts n events =
     render_digest (go_itemTmpl n) (go_digestTmpl n) (gotify_itemData ts (go_instance n))
       (gotify_escapeMarkdown (go_instance n)) events"

definition content_type_json :: "string \<times> string" where
  "content_type_json = (''Content-Type'', ''application/json'')"

definition gotify_request :: "'w tools \<Rightarrow> 'w gotify \<Rightarrow> string \<Rightarrow> request" where
  "gotify_request ts n body =
     \<lparr>rq_target = tl_url_string ts (go_endpoint n),
      rq_headers = [content_type_json, (''X-Gotify-Key'', go_token n)], rq_body = body\<rparr>"

definition gotify_retry_config :: "'w tools \<Rightarrow> 'w gotify \<Rightarrow> 'w retry_config" where
  "gotify_retry_config ts n =
     \<lparr>hc_max_attempts = go_maxAttempts n, hc_retry_delay = go_retryDelay n,
      hc_max_retry_after = DefaultMaxRetryAfter, hc_multiplier = DefaultBackoffMultiplier,
      hc_sleep = Some (sleepContext (tl_env ts)), hc_component = gotify_name,
      hc_fields = [host_field (go_host n)]\<rparr>"

definition gotify_postWithRetry :: "'w tools \<Rightarrow> 'w gotify \<Rightarrow> ctx \<Rightarrow> string \<Rightarrow> 'w \<Rightarrow> go_error option \<times> 'w" where
  "gotify_postWithRetry ts n c body w =
     (case Do (tl_env ts) c (gotify_retry_config ts n) (DefaultClassifier (tl_http_time ts))
             (http_attempt (go_client n) header_only (gotify_request ts n body)) w of
        (r, _, w) \<Rightarrow> (r, w))"

definition markdown_type :: string where "markdown_type = ''text/markdown''"

definition gotify_sendBatch :: "(gotify_message \<Rightarrow> go_error + string) \<Rightarrow> 'w tools \<Rightarrow> 'w gotify \<Rightarrow> ctx
    \<Rightarrow> update_available list \<Rightarrow> 'w \<Rightarrow> go_error option \<times> 'w" where
  "gotify_sendBatch json ts n c events w =
     (case gotify_renderDigest ts n events of
        Inl err \<Rightarrow> (Some err, e_log (tl_env ts) (render_failed gotify_name [host_field (go_host n)] err) w)
      | Inr text \<Rightarrow>
          if trim_space text = [] then (None, w)
          else case json \<lparr>gm_title = gotify_messageTitle (length events), gm_message = text,
                  gm_priority = go_priority n, gm_content_type = markdown_type\<rparr> of
            Inl err \<Rightarrow> (Some (ErrWrap [Lit ''gotify encode: ''] err), w)
          | Inr body \<Rightarrow>
              log_failure (tl_env ts) (notify_failed gotify_name [host_field (go_host n), count_field events])
                (gotify_postWithRetry ts n c body w))"

definition gotify_Notify :: "(gotify_message \<Rightarrow> go_error + string) \<Rightarrow> 'w tools \<Rightarrow> 'w gotify \<Rightarrow> ctx
    \<Rightarrow> update_available list \<Rightarrow> 'w \<Rightarrow> go_error option \<times> 'w" where
  "gotify_Notify json ts n =
     notify_by_mode (go_mode n) (gotify_sendBatch json ts n) (gotify_sendBatch json ts n)"

section \<open>The channel\<close>

lemma gotify_post_below:
  "observes lg (tl_env ts) \<Longrightarrow> quiet_client lg (go_client n) \<Longrightarrow> below lg LevelError (gotify_postWithRetry ts n c body)"
  unfolding gotify_postWithRetry_def [abs_def]
  by (rule Do_below [where f = "\<lambda>r. r"]) (simp_all add: http_attempt_quiet gotify_retry_config_def)

text \<open>What a batch comes to: nothing to post, or one encoded message.\<close>

definition gotify_bodies :: "(gotify_message \<Rightarrow> go_error + string) \<Rightarrow> 'w tools \<Rightarrow> 'w gotify
    \<Rightarrow> update_available list \<Rightarrow> go_error + string list" where
  "gotify_bodies json ts n events =
     and_then (gotify_renderDigest ts n events) (\<lambda>text.
       if trim_space text = [] then Inr []
       else and_then (wrap_error [Lit ''gotify encode: '']
           (json \<lparr>gm_title = gotify_messageTitle (length events), gm_message = text,
                  gm_priority = go_priority n, gm_content_type = markdown_type\<rparr>)) (\<lambda>body. Inr [body]))"

interpretation gotify_channel: push_channel "go_mode n" "\<lambda>_. gotify_bodies json ts n" "\<lambda>_. False"
    "gotify_postWithRetry ts n" "\<lambda>_. gotify_sendBatch json ts n" "gotify_Notify json ts n"
    "\<lambda>c body. taken_by_server (go_client n) c (gotify_request ts n body)"
    "tl_env ts" "\<lambda>us err. if isl (gotify_renderDigest ts n us) then [render_failed gotify_name [host_field (go_host n)] err] else []"
    "\<lambda>us. notify_failed gotify_name [host_field (go_host n), count_field us]"
  for json ts n
proof
  show "taken_by_server (go_client n) c (gotify_request ts n m)" if "gotify_postWithRetry ts n c m w = (None, w')" for c m w w'
    using that by (auto simp: gotify_postWithRetry_def split: prod.splits intro: Do_taken)
  show "gotify_sendBatch json ts n c us w = (case gotify_bodies json ts n us of
        Inl err \<Rightarrow> (Some err, fold (e_log (tl_env ts))
          (if isl (gotify_renderDigest ts n us) then [render_failed gotify_name [host_field (go_host n)] err] else []) w)
      | Inr ms \<Rightarrow> log_failure (tl_env ts) (notify_failed gotify_name [host_field (go_host n), count_field us])
          (post_all (\<lambda>_. False) (gotify_postWithRetry ts n) c ms w))" for c us w
    by (auto simp: gotify_sendBatch_def gotify_bodies_def and_then_def wrap_error_def log_failure_def
        split: sum.splits option.splits prod.splits)
  show "gotify_Notify json ts n c us w
      = notify_by_mode (go_mode n) (gotify_sendBatch json ts n) (gotify_sendBatch json ts n) c us w" for c us w
    by (simp add: gotify_Notify_def)
qed

end
