(* ===== verification/Ntfy.thy ===== *)
theory Ntfy
  imports NotifierBase
begin

text \<open>
  The ntfy notifier (\<open>internal/notifier/ntfy/ntfy.go\<close>): its configuration, the rendered message and
  its delivery. \<open>json\<close> encodes a message.
\<close>

definition ntfy_name :: string where "ntfy_name = ''ntfy''"

record 'w ntfy =
  nt_endpoint :: url
  nt_host :: string
  nt_topic :: string
  nt_token :: string
  nt_mode :: string
  nt_priority :: int
  nt_tags :: "string list"
  nt_proxyURL :: string
  nt_instance :: string
  nt_itemTmpl :: "item_data template"
  nt_digestTmpl :: "digest_data template"
  nt_client :: "'w client"
  nt_maxAttempts :: int
  nt_retryDelay :: duration

record ntfy_message =
  nm_topic :: string
  nm_title :: string
  nm_message :: string
  nm_priority :: int
  nm_tags :: "string list"
  nm_click :: string
  nm_markdown :: bool

definition key_topic :: string where "key_topic = ''topic''"
definition key_tags :: string where "key_tags = ''tags''"
definition ntfy_defaultTags :: "string list" where "ntfy_defaultTags = [''package'']"

definition ntfy_requireString :: "cfg_map \<Rightarrow> string \<Rightarrow> go_error + string" where
  "ntfy_requireString = require_string ntfy_name"

definition ntfy_optionalString :: "cfg_map \<Rightarrow> string \<Rightarrow> string \<Rightarrow> string" where
  "ntfy_optionalString = optional_string"

definition ntfy_optionalTemplate :: "cfg_map \<Rightarrow> string \<Rightarrow> 'a \<Rightarrow> (string \<Rightarrow> 'a) \<Rightarrow> 'a" where
  "ntfy_optionalTemplate = optional_template"

definition ntfy_optionalDuration :: "(string \<Rightarrow> go_error + duration) \<Rightarrow> cfg_map \<Rightarrow> string \<Rightarrow> duration
    \<Rightarrow> go_error + duration" where
  "ntfy_optionalDuration = optional_duration ntfy_name"

definition ntfy_optionalInt :: "cfg_map \<Rightarrow> string \<Rightarrow> int \<Rightarrow> go_error + int" where
  "ntfy_optionalInt = optional_int ntfy_name Inr"

definition ntfy_maxAttempts :: "int \<Rightarrow> int" where "ntfy_maxAttempts = max_attempts"

definition ntfy_messageTitle :: "nat \<Rightarrow> string" where "ntfy_messageTitle = message_title"

definition trimmed_texts :: "string list \<Rightarrow> string list" where
  "trimmed_texts ss = filter (\<lambda>s. s \<noteq> []) (map trim_space ss)"

fun any_texts :: "string \<Rightarrow> string \<Rightarrow> nat \<Rightarrow> any list \<Rightarrow> go_error + string list" where
  "any_texts plugin key i [] = Inr []"
| "any_texts plugin key i (AStr s # items) =
     and_then (any_texts plugin key (Suc i) items) (\<lambda>out.
       Inr (if trim_space s \<noteq> [] then trim_space s # out else out))"
| "any_texts plugin key i (item # items) =
     Inl (config_error plugin [Str key, Lit ''['', Num (int i), Lit ''] must be a string''])"

definition ntfy_optionalStringSlice :: "cfg_map \<Rightarrow> string \<Rightarrow> string list \<Rightarrow> go_error + string list" where
  "ntfy_optionalStringSlice cfg key fallback =
     (case map_of cfg key of
        None \<Rightarrow> Inr fallback
      | Some ANull \<Rightarrow> Inr fallback
      | Some (AStrs ss) \<Rightarrow> Inr (trimmed_texts ss)
      | Some (AList items) \<Rightarrow> any_texts ntfy_name key 0 items
      | Some _ \<Rightarrow> Inl (config_error ntfy_name [Str key, Lit '' must be a list of strings'']))"

definition normalizeBaseURL :: "url \<Rightarrow> url" where
  "normalizeBaseURL base =
     base\<lparr>url_query := [], url_fragment := [], url_path := trim_right_byte CHR ''/'' (url_path base)\<rparr>"

definition web_scheme :: "string \<Rightarrow> bool" where
  "web_scheme s \<longleftrightarrow> s = ''http'' \<or> s = ''https''"

definition ntfy_New :: "'w tools \<Rightarrow> cfg_map \<Rightarrow> go_error + 'w ntfy" where
  "ntfy_New ts cfg =
     and_then (ntfy_requireString cfg key_url) (\<lambda>rawURL.
     and_then (ntfy_requireString cfg key_topic) (\<lambda>topic.
     and_then (wrap_error [Lit ''ntfy config: url: ''] (tl_url_parse ts rawURL)) (\<lambda>base.
     if \<not> web_scheme (url_scheme base) then
       Inl (config_error ntfy_name [Lit ''url scheme must be http or https''])
     else if url_host base = [] then Inl (config_error ntfy_name [Lit ''url must include a host''])
     else
     let endpoint = normalizeBaseURL base; mode = ntfy_optionalString cfg key_mode modeDigest in
     if \<not> mode_ok mode then Inl (mode_error_for ntfy_name)
     else
     and_then (ntfy_optionalInt cfg key_priority 3) (\<lambda>priority.
     if priority < 1 \<or> 5 < priority then
       Inl (config_error ntfy_name [Lit ''priority must be between 1 and 5''])
     else
     and_then (ntfy_optionalStringSlice cfg key_tags ntfy_defaultTags) (\<lambda>tags.
     and_then (wrap_error [Lit ''ntfy config: item_template: '']
         (ntfy_optionalTemplate cfg key_item_template (Inr (\<lambda>d. Inr (markdown_item d))) (tl_item_template ts))) (\<lambda>itemTmpl.
     and_then (wrap_error [Lit ''ntfy config: digest_template: '']
         (ntfy_optionalTemplate cfg key_digest_template (Inr (\<lambda>d. Inr (markdown_digest d))) (tl_digest_template ts))) (\<lambda>digestTmpl.
     and_then (ntfy_optionalDuration (tl_duration ts) cfg key_timeout defaultTimeout) (\<lambda>timeout.
     and_then (ntfy_optionalInt cfg key_retries DefaultRetries) (\<lambda>retries.
     if retries < 0 then Inl (config_error ntfy_name [Lit ''retries must be non-negative''])
     else
     and_then (ntfy_optionalDuration (tl_duration ts) cfg key_retry_delay DefaultRetryDelay) (\<lambda>retryDelay.
     let proxyURL = ntfy_optionalString cfg key_proxy [] in
     and_then (wrap_error [Lit ''ntfy proxy: ''] (tl_client ts proxyURL timeout)) (\<lambda>cl.
     Inr \<lparr>nt_endpoint = endpoint, nt_host = url_host endpoint, nt_topic = topic,
          nt_token = ntfy_optionalString cfg key_token [], nt_mode = mode, nt_priority = priority,
          nt_tags = tags, nt_proxyURL = proxyURL, nt_instance = ntfy_optionalString cfg key_instance [],
          nt_itemTmpl = itemTmpl, nt_digestTmpl = digestTmpl, nt_client = cl,
          nt_maxAttempts = ntfy_maxAttempts retries, nt_retryDelay = retryDelay\<rparr>)))))))))))"

definition ntfy_itemData :: "'w tools \<Rightarrow> string \<Rightarrow> update_available \<Rightarrow> item_data" where
  "ntfy_itemData ts = item_data_markdown (tl_url_parse ts) ntfy_escapeMarkdown"

definition ntfy_renderDigest :: "'w tools \<Rightarrow> 'w ntfy \<Rightarrow> update_available list \<Rightarrow> go_error + string" where
  "ntfy_renderDigest ts n events =
     render_digest (nt_itemTmpl n) (nt_digestTmpl n) (ntfy_itemData ts (nt_instance n))
       (ntfy_escapeMarkdown (nt_instance n)) events"

definition ntfy_request :: "'w tools \<Rightarrow> 'w ntfy \<Rightarrow> string \<Rightarrow> request" where
  "ntfy_request ts n body =
     \<lparr>rq_target = tl_url_string ts (nt_endpoint n),
      rq_headers = (''Content-Type'', ''application/json'') #
        (if nt_token n \<noteq> [] then [(''Authorization'', ''Bearer '' @ nt_token n)] else []),
      rq_body = body\<rparr>"

definition ntfy_retry_config :: "'w tools \<Rightarrow> 'w ntfy \<Rightarrow> 'w retry_config" where
  "ntfy_retry_config ts n =
     \<lparr>hc_max_attempts = nt_maxAttempts n, hc_retry_delay = nt_retryDelay n,
      hc_max_retry_after = DefaultMaxRetryAfter, hc_multiplier = DefaultBackoffMultiplier,
      hc_sleep = Some (sleepContext (tl_env ts)), hc_component = ntfy_name,
      hc_fields = [host_field (nt_host n)]\<rparr>"

definition ntfy_postWithRetry :: "'w tools \<Rightarrow> 'w ntfy \<Rightarrow> ctx \<Rightarrow> string \<Rightarrow> 'w \<Rightarrow> go_error option \<times> 'w" where
  "ntfy_postWithRetry ts n c body w =
     (case Do (tl_env ts) c (ntfy_retry_config ts n) (DefaultClassifier (tl_http_time ts))
             (http_attempt (nt_client n) header_only (ntfy_request ts n body)) w of
        (r, _, w) \<Rightarrow> (r, w))"

text \<open>The link of a single update is the target of a tap, in simple mode only.\<close>

definition ntfy_click :: "'w tools \<Rightarrow> 'w ntfy \<Rightarrow> bool \<Rightarrow> update_available list \<Rightarrow> string" where
  "ntfy_click ts n allowClick events =
     (case events of
        [u] \<Rightarrow> if allowClick then it_url (ItemFromEvent (tl_url_parse ts) (nt_instance n) u False) else []
      | _ \<Rightarrow> [])"

definition ntfy_payload :: "'w tools \<Rightarrow> 'w ntfy \<Rightarrow> bool \<Rightarrow> update_available list \<Rightarrow> string \<Rightarrow> ntfy_message" where
  "ntfy_payload ts n allowClick events text =
     \<lparr>nm_topic = nt_topic n, nm_title = ntfy_messageTitle (length events), nm_message = text,
      nm_priority = nt_priority n, nm_tags = nt_tags n, nm_click = ntfy_click ts n allowClick events,
      nm_markdown = True\<rparr>"

definition ntfy_sendBatch :: "(ntfy_message \<Rightarrow> go_error + string) \<Rightarrow> 'w tools \<Rightarrow> 'w ntfy \<Rightarrow> bool \<Rightarrow> ctx
    \<Rightarrow> update_available list \<Rightarrow> 'w \<Rightarrow> go_error option \<times> 'w" where
  "ntfy_sendBatch json ts n allowClick c events w =
     (case ntfy_renderDigest ts n events of
        Inl err \<Rightarrow> (Some err, e_log (tl_env ts) (render_failed ntfy_name [host_field (nt_host n)] err) w)
      | Inr text \<Rightarrow>
          if trim_space text = [] then (None, w)
          else case json (ntfy_payload ts n allowClick events text) of
            Inl err \<Rightarrow> (Some (ErrWrap [Lit ''ntfy encode: ''] err), w)
          | Inr body \<Rightarrow>
              log_failure (tl_env ts) (notify_failed ntfy_name [host_field (nt_host n), count_field events])
                (ntfy_postWithRetry ts n c body w))"

definition ntfy_Notify :: "(ntfy_message \<Rightarrow> go_error + string) \<Rightarrow> 'w tools \<Rightarrow> 'w ntfy \<Rightarrow> ctx
    \<Rightarrow> update_available list \<Rightarrow> 'w \<Rightarrow> go_error option \<times> 'w" where
  "ntfy_Notify json ts n =
     notify_by_mode (nt_mode n) (ntfy_sendBatch json ts n False) (ntfy_sendBatch json ts n True)"

section \<open>The channel\<close>

lemma ntfy_post_below:
  "observes lg (tl_env ts) \<Longrightarrow> quiet_client lg (nt_client n) \<Longrightarrow> below lg LevelError (ntfy_postWithRetry ts n c body)"
  unfolding ntfy_postWithRetry_def [abs_def]
  by (rule Do_below [where f = "\<lambda>r. r"]) (simp_all add: http_attempt_quiet ntfy_retry_config_def)

definition ntfy_bodies :: "(ntfy_message \<Rightarrow> go_error + string) \<Rightarrow> 'w tools \<Rightarrow> 'w ntfy \<Rightarrow> bool
    \<Rightarrow> update_available list \<Rightarrow> go_error + string list" where
  "ntfy_bodies json ts n allowClick events =
     and_then (ntfy_renderDigest ts n events) (\<lambda>text.
       if trim_space text = [] then Inr []
       else and_then (wrap_error [Lit ''ntfy encode: '']
           (json (ntfy_payload ts n allowClick events text))) (\<lambda>body. Inr [body]))"

interpretation ntfy_channel: push_channel "nt_mode n" "ntfy_bodies json ts n" "\<lambda>_. False"
    "ntfy_postWithRetry ts n" "ntfy_sendBatch json ts n" "ntfy_Notify json ts n"
    "\<lambda>c body. taken_by_server (nt_client n) c (ntfy_request ts n body)"
    "tl_env ts" "\<lambda>us err. if isl (ntfy_renderDigest ts n us) then [render_failed ntfy_name [host_field (nt_host n)] err] else []"
    "\<lambda>us. notify_failed ntfy_name [host_field (nt_host n), count_field us]"
  for json ts n
proof
  show "taken_by_server (nt_client n) c (ntfy_request ts n m)" if "ntfy_postWithRetry ts n c m w = (None, w')" for c m w w'
    using that by (auto simp: ntfy_postWithRetry_def split: prod.splits intro: Do_taken)
  show "ntfy_sendBatch json ts n simple c us w = (case ntfy_bodies json ts n simple us of
        Inl err \<Rightarrow> (Some err, fold (e_log (tl_env ts))
          (if isl (ntfy_renderDigest ts n us) then [render_failed ntfy_name [host_field (nt_host n)] err] else []) w)
      | Inr ms \<Rightarrow> log_failure (tl_env ts) (notify_failed ntfy_name [host_field (nt_host n), count_field us])
          (post_all (\<lambda>_. False) (ntfy_postWithRetry ts n) c ms w))" for simple c us w
    by (auto simp: ntfy_sendBatch_def ntfy_bodies_def and_then_def wrap_error_def log_failure_def
        split: sum.splits option.splits prod.splits)
  show "ntfy_Notify json ts n c us w
      = notify_by_mode (nt_mode n) (ntfy_sendBatch json ts n False) (ntfy_sendBatch json ts n True) c us w" for c us w
    by (simp add: ntfy_Notify_def)
qed

end
