(* ===== verification/Webhook.thy ===== *)
theory Webhook
  imports NotifierBase
begin

text \<open>
  The generic webhook notifier (\<open>internal/notifier/webhook/webhook.go\<close>): its configuration with extra
  headers, the body (a template or the JSON envelope) and its delivery. \<open>json\<close> encodes the envelope.
  A parsed template can be executed on an item or on the envelope.
\<close>

definition webhook_name :: string where "webhook_name = ''webhook''"

type_synonym header = "(string \<times> string list) list"

record 'w webhook =
  wh_endpoint :: url
  wh_host :: string
  wh_instance :: string
  wh_mode :: string
  wh_headers :: header
  wh_proxyURL :: string
  wh_tmpl :: "(item_data template \<times> payload template) option"
  wh_client :: "'w client"
  wh_maxAttempts :: int
  wh_retryDelay :: duration

definition webhook_requireString :: "cfg_map \<Rightarrow> string \<Rightarrow> go_error + string" where
  "webhook_requireString = require_string webhook_name"

definition webhook_optionalString :: "cfg_map \<Rightarrow> string \<Rightarrow> string \<Rightarrow> string" where
  "webhook_optionalString = optional_string"

definition webhook_optionalTemplate :: "cfg_map \<Rightarrow> string \<Rightarrow> string" where
  "webhook_optionalTemplate cfg key = optional_template cfg key [] (\<lambda>s. s)"

definition webhook_optionalDuration :: "(string \<Rightarrow> go_error + duration) \<Rightarrow> cfg_map \<Rightarrow> string \<Rightarrow> duration
    \<Rightarrow> go_error + duration" where
  "webhook_optionalDuration = optional_duration webhook_name"

definition webhook_validateRetries :: "string \<Rightarrow> int \<Rightarrow> go_error + int" where
  "webhook_validateRetries = non_negative webhook_name"

definition webhook_optionalInt :: "cfg_map \<Rightarrow> string \<Rightarrow> int \<Rightarrow> go_error + int" where
  "webhook_optionalInt cfg key = optional_int webhook_name (webhook_validateRetries key) cfg key"

definition webhook_maxAttempts :: "int \<Rightarrow> int" where "webhook_maxAttempts = max_attempts"

section \<open>Headers\<close>

text \<open>
  \<open>http.Header\<close> stores its keys in canonical form: if every byte may stand in a header name, the first
  letter of every part between hyphens is upper case and the others are lower case.
\<close>

definition upper_byte :: "char \<Rightarrow> char" where
  "upper_byte c = (if 97 \<le> byte c \<and> byte c \<le> 122 then char_of (byte c - 32) else c)"

definition is_letter :: "char \<Rightarrow> bool" where
  "is_letter c \<longleftrightarrow> (65 \<le> byte c \<and> byte c \<le> 90) \<or> (97 \<le> byte c \<and> byte c \<le> 122)"

definition token_char :: "char \<Rightarrow> bool" where
  "token_char c \<longleftrightarrow> is_digit c \<or> is_letter c \<or> c = CHR 0x27 \<or> c = CHR 0x60 \<or> c \<in> set ''!#$%&*+-.^_|~''"

fun canonical_from :: "bool \<Rightarrow> string \<Rightarrow> string" where
  "canonical_from upper [] = []"
| "canonical_from upper (c # cs) =
     (if upper then upper_byte c else lower_byte c) # canonical_from (c = CHR ''-'') cs"

definition canonical_key :: "string \<Rightarrow> string" where
  "canonical_key k = (if list_all token_char k then canonical_from True k else k)"

definition header_set :: "string \<Rightarrow> string \<Rightarrow> header \<Rightarrow> header" where
  "header_set k v h = set_key (canonical_key k) [v] h"

definition header_get :: "string \<Rightarrow> header \<Rightarrow> string" where
  "header_get k h = (case map_of h (canonical_key k) of Some (v # _) \<Rightarrow> v | _ \<Rightarrow> [])"

definition header_del :: "string \<Rightarrow> header \<Rightarrow> header" where
  "header_del k h = filter (\<lambda>(k', _). k' \<noteq> canonical_key k) h"

definition header_add :: "string \<Rightarrow> string \<Rightarrow> header \<Rightarrow> header" where
  "header_add k v h =
     set_key (canonical_key k) ((case map_of h (canonical_key k) of None \<Rightarrow> [] | Some vs \<Rightarrow> vs) @ [v]) h"

definition key_headers :: string where "key_headers = ''headers''"
definition content_type_key :: string where "content_type_key = ''Content-Type''"
definition json_type :: string where "json_type = ''application/json''"

text \<open>A map of the configuration is read in the order of its association list; Go's order is arbitrary.\<close>

fun headers_from :: "(string \<Rightarrow> string) \<Rightarrow> cfg_map \<Rightarrow> header \<Rightarrow> go_error + header" where
  "headers_from expand [] h = Inr h"
| "headers_from expand ((k, v) # m) h =
     (if trim_space k = [] then headers_from expand m h
      else case v of
        AStr val \<Rightarrow> headers_from expand m (header_set (trim_space k) (expand (trim_space val)) h)
      | _ \<Rightarrow> Inl (config_error webhook_name [Lit ''headers.'', Str k, Lit '' must be a string'']))"

definition parseHeaders :: "(string \<Rightarrow> string) \<Rightarrow> cfg_map \<Rightarrow> go_error + header" where
  "parseHeaders expand cfg =
     (case map_of cfg key_headers of
        None \<Rightarrow> Inr []
      | Some ANull \<Rightarrow> Inr []
      | Some (AMap m) \<Rightarrow> headers_from expand m []
      | Some _ \<Rightarrow> Inl (config_error webhook_name [Lit ''headers must be a map'']))"

definition applyHeaders :: "header \<Rightarrow> header \<Rightarrow> header" where
  "applyHeaders configured req =
     foldl (\<lambda>h (k, vals). foldl (\<lambda>h v. header_add k v h) (header_del k h) vals) req configured"

definition webhook_headers :: "'w webhook \<Rightarrow> header" where
  "webhook_headers n =
     (let h = applyHeaders (wh_headers n) [] in
      if header_get content_type_key h = [] then header_set content_type_key json_type h else h)"

section \<open>Construction\<close>

definition webhook_scheme :: "string \<Rightarrow> bool" where
  "webhook_scheme s \<longleftrightarrow> s = ''http'' \<or> s = ''https''"

definition webhook_New :: "'w tools \<Rightarrow> cfg_map \<Rightarrow> go_error + 'w webhook" where
  "webhook_New ts cfg =
     and_then (webhook_requireString cfg key_url) (\<lambda>rawURL.
     and_then (wrap_error [Lit ''webhook config: url: ''] (tl_url_parse ts rawURL)) (\<lambda>endpoint.
     if \<not> webhook_scheme (url_scheme endpoint) then
       Inl (config_error webhook_name [Lit ''url scheme must be http or https''])
     else if url_host endpoint = [] then Inl (config_error webhook_name [Lit ''url must include a host''])
     else
     let mode = webhook_optionalString cfg key_mode modeDigest in
     if \<not> mode_ok mode then Inl (mode_error_for webhook_name)
     else
     let body = webhook_optionalTemplate cfg key_template in
     and_then (if body \<noteq> [] then
                 wrap_error [Lit ''webhook config: template: '']
                   (case tl_web_template ts body of Inl err \<Rightarrow> Inl err | Inr t \<Rightarrow> Inr (Some t))
               else Inr None) (\<lambda>tmpl.
     and_then (parseHeaders (tl_expand_env ts) cfg) (\<lambda>headers.
     and_then (webhook_optionalDuration (tl_duration ts) cfg key_timeout defaultTimeout) (\<lambda>timeout.
     and_then (webhook_optionalInt cfg key_retries DefaultRetries) (\<lambda>retries.
     and_then (webhook_optionalDuration (tl_duration ts) cfg key_retry_delay DefaultRetryDelay) (\<lambda>retryDelay.
     let proxyURL = webhook_optionalString cfg key_proxy [] in
     and_then (wrap_error [Lit ''webhook proxy: ''] (tl_client ts proxyURL timeout)) (\<lambda>cl.
     Inr \<lparr>wh_endpoint = endpoint, wh_host = url_host endpoint,
          wh_instance = webhook_optionalString cfg key_instance [], wh_mode = mode, wh_headers = headers,
          wh_proxyURL = proxyURL, wh_tmpl = tmpl, wh_client = cl,
          wh_maxAttempts = webhook_maxAttempts retries, wh_retryDelay = retryDelay\<rparr>))))))))"

section \<open>Delivery\<close>

definition webhook_renderBody :: "(payload \<Rightarrow> go_error + string) \<Rightarrow> 'w tools \<Rightarrow> 'w webhook
    \<Rightarrow> update_available list \<Rightarrow> go_error + string" where
  "webhook_renderBody json ts n events =
     (case wh_tmpl n of
        None \<Rightarrow> json (PayloadFromEvents (tl_url_parse ts) (wh_instance n) events)
      | Some (item_tmpl, payload_tmpl) \<Rightarrow>
          wrap_error [Lit ''execute template: '']
            (if wh_mode n = modeSimple then
               item_tmpl (ItemFromEvent (tl_url_parse ts) (wh_instance n) (hd events) False)
             else payload_tmpl (PayloadFromEvents (tl_url_parse ts) (wh_instance n) events)))"

definition webhook_request :: "'w tools \<Rightarrow> 'w webhook \<Rightarrow> string \<Rightarrow> request" where
  "webhook_request ts n body =
     \<lparr>rq_target = tl_url_string ts (wh_endpoint n),
      rq_headers = concat (map (\<lambda>(k, vals). map (Pair k) vals) (webhook_headers n)), rq_body = body\<rparr>"

definition webhook_retry_config :: "'w tools \<Rightarrow> 'w webhook \<Rightarrow> 'w retry_config" where
  "webhook_retry_config ts n =
     \<lparr>hc_max_attempts = wh_maxAttempts n, hc_retry_delay = wh_retryDelay n,
      hc_max_retry_after = DefaultMaxRetryAfter, hc_multiplier = DefaultBackoffMultiplier,
      hc_sleep = Some (sleepContext (tl_env ts)), hc_component = webhook_name,
      hc_fields = [host_field (wh_host n)]\<rparr>"

definition webhook_postWithRetry :: "'w tools \<Rightarrow> 'w webhook \<Rightarrow> ctx \<Rightarrow> string \<Rightarrow> 'w \<Rightarrow> go_error option \<times> 'w" where
  "webhook_postWithRetry ts n c body w =
     (case Do (tl_env ts) c (webhook_retry_config ts n) (DefaultClassifier (tl_http_time ts))
             (http_attempt (wh_client n) header_only (webhook_request ts n body)) w of
        (r, _, w) \<Rightarrow> (r, w))"

definition webhook_sendBatch :: "(payload \<Rightarrow> go_error + string) \<Rightarrow> 'w tools \<Rightarrow> 'w webhook \<Rightarrow> ctx
    \<Rightarrow> update_available list \<Rightarrow> 'w \<Rightarrow> go_error option \<times> 'w" where
  "webhook_sendBatch json ts n c events w =
     (case webhook_renderBody json ts n events of
        Inl err \<Rightarrow> (Some err, e_log (tl_env ts) (render_failed webhook_name [host_field (wh_host n)] err) w)
      | Inr body \<Rightarrow>
          if trim_space body = [] then (None, w)
          else log_failure (tl_env ts) (notify_failed webhook_name [host_field (wh_host n), count_field events])
            (webhook_postWithRetry ts n c body w))"

definition webhook_Notify :: "(payload \<Rightarrow> go_error + string) \<Rightarrow> 'w tools \<Rightarrow> 'w webhook \<Rightarrow> ctx
    \<Rightarrow> update_available list \<Rightarrow> 'w \<Rightarrow> go_error option \<times> 'w" where
  "webhook_Notify json ts n =
     notify_by_mode (wh_mode n) (webhook_sendBatch json ts n) (webhook_sendBatch json ts n)"

section \<open>The channel\<close>

lemma webhook_post_below:
  "observes lg (tl_env ts) \<Longrightarrow> quiet_client lg (wh_client n) \<Longrightarrow> below lg LevelError (webhook_postWithRetry ts n c body)"
  unfolding webhook_postWithRetry_def [abs_def]
  by (rule Do_below [where f = "\<lambda>r. r"]) (simp_all add: http_attempt_quiet webhook_retry_config_def)

interpretation webhook_channel: push_channel "wh_mode n"
    "\<lambda>_ events. and_then (webhook_renderBody json ts n events) (\<lambda>body. Inr [body])" "\<lambda>body. trim_space body = []"
    "webhook_postWithRetry ts n" "\<lambda>_. webhook_sendBatch json ts n" "webhook_Notify json ts n"
    "\<lambda>c body. taken_by_server (wh_client n) c (webhook_request ts n body)"
    "tl_env ts" "\<lambda>us err. [render_failed webhook_name [host_field (wh_host n)] err]"
    "\<lambda>us. notify_failed webhook_name [host_field (wh_host n), count_field us]"
  for json ts n
proof
  show "taken_by_server (wh_client n) c (webhook_request ts n m)" if "webhook_postWithRetry ts n c m w = (None, w')" for c m w w'
    using that by (auto simp: webhook_postWithRetry_def split: prod.splits intro: Do_taken)
  show "webhook_sendBatch json ts n c us w
      = (case and_then (webhook_renderBody json ts n us) (\<lambda>body. Inr [body]) of
           Inl err \<Rightarrow> (Some err, fold (e_log (tl_env ts)) [render_failed webhook_name [host_field (wh_host n)] err] w)
         | Inr ms \<Rightarrow> log_failure (tl_env ts) (notify_failed webhook_name [host_field (wh_host n), count_field us])
             (post_all (\<lambda>body. trim_space body = []) (webhook_postWithRetry ts n) c ms w))" for c us w
    by (auto simp: webhook_sendBatch_def and_then_def log_failure_def split: sum.splits option.splits prod.splits)
  show "webhook_Notify json ts n c us w
      = notify_by_mode (wh_mode n) (webhook_sendBatch json ts n) (webhook_sendBatch json ts n) c us w" for c us w
    by (simp add: webhook_Notify_def)
qed

section \<open>Headers: facts\<close>

lemma lower_upper [simp]: "lower_byte (upper_byte c) = lower_byte c" "upper_byte (lower_byte c) = upper_byte c"
  by (auto simp: lower_byte_def upper_byte_def byte_def of_char_of)

lemma upper_upper [simp]: "upper_byte (upper_byte c) = upper_byte c" "lower_byte (lower_byte c) = lower_byte c"
  by (auto simp: lower_byte_def upper_byte_def byte_def of_char_of)

text \<open>Canonical keys stay as they are.\<close>

lemma byte_hyphen: "upper_byte c = CHR ''-'' \<longleftrightarrow> c = CHR ''-''" "lower_byte c = CHR ''-'' \<longleftrightarrow> c = CHR ''-''"
  by (auto simp: upper_byte_def lower_byte_def byte_def dest: arg_cong [where f = "of_char :: char \<Rightarrow> nat"])

lemma canonical_from_idem: "canonical_from u (canonical_from u k) = canonical_from u k"
  by (induction k arbitrary: u) (simp_all add: byte_hyphen)

lemma token_case [simp]: "token_char (upper_byte c) \<longleftrightarrow> token_char c" "token_char (lower_byte c) \<longleftrightarrow> token_char c"
  by (auto simp: token_char_def is_letter_def upper_byte_def lower_byte_def byte_def of_char_of)

lemma tokens_canonical: "list_all token_char (canonical_from u k) \<longleftrightarrow> list_all token_char k"
  by (induction k arbitrary: u) simp_all

lemma canonical_key_idem [simp]: "canonical_key (canonical_key k) = canonical_key k"
  by (simp add: canonical_key_def canonical_from_idem tokens_canonical)

text \<open>The headers of a configuration: one value per canonical key.\<close>

definition header_ok :: "header \<Rightarrow> bool" where
  "header_ok h \<longleftrightarrow> distinct (map fst h) \<and> (\<forall>(k, vs)\<in>set h. canonical_key k = k \<and> (\<exists>v. vs = [v]))"

lemma in_set_key: "(k', v') \<in> set (set_key k v m) \<Longrightarrow> (k', v') = (k, v) \<or> (k', v') \<in> set m"
  by (induction k v m rule: set_key.induct) (auto split: if_splits)

lemma header_set_ok: "header_ok h \<Longrightarrow> header_ok (header_set k v h)"
  by (auto simp: header_ok_def header_set_def distinct_set_key dest!: in_set_key)

lemma headers_from_ok: "headers_from expand m h = Inr h' \<Longrightarrow> header_ok h \<Longrightarrow> header_ok h'"
  by (induction expand m h rule: headers_from.induct) (auto simp: header_set_ok split: if_splits any.splits)

lemma parseHeaders_ok: "parseHeaders expand cfg = Inr h \<Longrightarrow> header_ok h"
  by (auto simp: parseHeaders_def header_ok_def split: option.splits any.splits
      dest: headers_from_ok [unfolded header_ok_def])

lemma set_key_new: "k \<notin> fst ` set m \<Longrightarrow> set_key k v m = m @ [(k, v)]"
  by (induction k v m rule: set_key.induct) auto

lemma applyHeaders_append:
  "header_ok conf \<Longrightarrow> \<forall>k\<in>set (map fst conf). k \<notin> set (map fst acc) \<Longrightarrow> applyHeaders conf acc = acc @ conf"
proof (induction conf arbitrary: acc)
  case (Cons e conf)
  obtain k vs where e: "e = (k, vs)" by fastforce
  from Cons.prems(1) e obtain v where vs: "vs = [v]" and k: "canonical_key k = k" and ok: "header_ok conf"
    by (auto simp: header_ok_def)
  have new: "k \<notin> fst ` set acc" using Cons.prems(2) e by auto
  have del: "header_del k acc = acc"
    using new by (force simp: header_del_def k filter_id_conv)
  have "map_of acc k = None" using new by (simp add: map_of_eq_None_iff)
  then have add: "header_add k v acc = acc @ [(k, [v])]"
    using new by (simp add: header_add_def k set_key_new)
  have "applyHeaders (e # conf) acc = applyHeaders conf (acc @ [(k, [v])])"
    by (simp add: applyHeaders_def e vs del add)
  also have "\<dots> = (acc @ [(k, [v])]) @ conf"
    using Cons.prems e by (intro Cons.IH [OF ok]) (auto simp: header_ok_def)
  finally show ?case by (simp add: e vs)
qed (simp add: applyHeaders_def)

lemma webhook_headers_eq:
  assumes "header_ok (wh_headers n)"
  shows "webhook_headers n =
    (if header_get content_type_key (wh_headers n) = [] then header_set content_type_key json_type (wh_headers n)
     else wh_headers n)"
  using applyHeaders_append [OF assms, of "[]"] by (simp add: webhook_headers_def Let_def)

lemma webhook_New_headers: "webhook_New ts cfg = Inr n \<Longrightarrow> header_ok (wh_headers n)"
  by (auto simp: webhook_New_def Let_def dest: parseHeaders_ok split: if_splits)

end
