(* ===== verification/Transport.thy ===== *)
theory Transport
  imports ImageWeb World
begin

text \<open>
  HTTP transports (\<open>internal/netutil/proxy.go\<close> and \<open>internal/registry/oci/transport.go\<close>): the proxy of a
  transport, the time limits a registry transport gets, and the masking of a proxy's password. A
  transport is what the code sets of it: proxy, dialer and time limits. The SOCKS library and the user
  part of a URL are parameters.
\<close>

datatype dialer =
    NetDialer duration duration
  | SocksDialer url
  | DialWithin duration dialer

datatype proxy_setting = ProxyFromEnvironment | NoProxy | ProxyAt url

record http_transport =
  tp_proxy :: proxy_setting
  tp_dial :: "dialer option"
  tp_tls_timeout :: duration
  tp_header_timeout :: duration

datatype round_tripper = HttpTransport http_transport | OtherTripper

section \<open>Proxies\<close>

definition BuildTransport :: "round_tripper \<Rightarrow> url_parser \<Rightarrow> (url \<Rightarrow> go_error option) \<Rightarrow> string
    \<Rightarrow> go_error + http_transport" where
  "BuildTransport std url_parse socks proxyURL =
     (case std of
        OtherTripper \<Rightarrow> Inl (ErrText [Lit ''unexpected default transport type''])
      | HttpTransport tp \<Rightarrow>
          let proxyURL = trim_space proxyURL in
          if proxyURL = [] then Inr tp
          else (case url_parse proxyURL of
            Inl err \<Rightarrow> Inl (ErrWrap [Lit ''parse proxy URL: ''] err)
          | Inr u \<Rightarrow>
              let scheme = to_lower (url_scheme u) in
              if scheme = ''socks5'' \<or> scheme = ''socks'' then
                (case socks u of
                   Some err \<Rightarrow> Inl (ErrWrap [Lit ''create socks proxy dialer: ''] err)
                 | None \<Rightarrow> Inr (tp\<lparr>tp_proxy := NoProxy, tp_dial := Some (SocksDialer u)\<rparr>))
              else if scheme = ''http'' \<or> scheme = ''https'' then Inr (tp\<lparr>tp_proxy := ProxyAt u\<rparr>)
              else Inl (ErrText [Lit ''unsupported proxy scheme '', Quoted (url_scheme u)])))"

record http_client =
  hx_timeout :: duration
  hx_transport :: http_transport

definition BuildHTTPClient :: "round_tripper \<Rightarrow> url_parser \<Rightarrow> (url \<Rightarrow> go_error option) \<Rightarrow> string \<Rightarrow> duration
    \<Rightarrow> go_error + http_client" where
  "BuildHTTPClient std url_parse socks proxyURL timeout =
     (case BuildTransport std url_parse socks proxyURL of
        Inl err \<Rightarrow> Inl err
      | Inr tp \<Rightarrow> Inr \<lparr>hx_timeout = timeout, hx_transport = tp\<rparr>)"

text \<open>
  \<open>user_of\<close> is the user part of a URL (a name and perhaps a password), \<open>string_with\<close> prints a URL with
  the given user part.
\<close>

type_synonym user_part = "(string \<times> string option) option"

definition hidden :: string where "hidden = ''***''"

definition MaskProxyURL :: "url_parser \<Rightarrow> (url \<Rightarrow> user_part) \<Rightarrow> (url \<Rightarrow> user_part \<Rightarrow> string) \<Rightarrow> string \<Rightarrow> string" where
  "MaskProxyURL url_parse user_of string_with raw =
     (if raw = [] then []
      else case url_parse raw of
        Inl _ \<Rightarrow> hidden
      | Inr u \<Rightarrow>
          (case user_of u of
             None \<Rightarrow> string_with u None
           | Some (user, None) \<Rightarrow> string_with u (Some (user, None))
           | Some (user, Some _) \<Rightarrow> string_with u (Some (user, Some hidden))))"

section \<open>Time limits of a registry transport\<close>

definition registryDialTimeout :: duration where "registryDialTimeout = 5 * second"
definition registryTLSHandshakeTimeout :: duration where "registryTLSHandshakeTimeout = 8 * second"
definition registryResponseHeaderTimeout :: duration where "registryResponseHeaderTimeout = 10 * second"

definition limited :: "http_transport \<Rightarrow> http_transport" where
  "limited tp =
     tp\<lparr>tp_dial := Some (case tp_dial tp of
            None \<Rightarrow> NetDialer registryDialTimeout (30 * second)
          | Some d \<Rightarrow> DialWithin registryDialTimeout d),
        tp_tls_timeout := registryTLSHandshakeTimeout,
        tp_header_timeout := registryResponseHeaderTimeout\<rparr>"

definition applyRegistryIOTimeouts :: "round_tripper \<Rightarrow> round_tripper \<Rightarrow> round_tripper" where
  "applyRegistryIOTimeouts std base =
     (case base of
        HttpTransport tp \<Rightarrow> HttpTransport (limited tp)
      | OtherTripper \<Rightarrow>
          (case std of HttpTransport tp \<Rightarrow> HttpTransport (limited tp) | OtherTripper \<Rightarrow> base))"

text \<open>
  Every step of a registry connection has its limit, through a proxy or not: \<open>net/http\<close> and \<open>net\<close> take a
  limit of zero or less for none at all, so a limit has to be positive.
\<close>

definition limit_within :: "duration \<Rightarrow> duration \<Rightarrow> bool" where
  "limit_within longest d \<longleftrightarrow> 0 < d \<and> d \<le> longest"

definition io_bounded :: "round_tripper \<Rightarrow> bool" where
  "io_bounded rt \<longleftrightarrow>
     (case rt of
        OtherTripper \<Rightarrow> False
      | HttpTransport tp \<Rightarrow>
          (case tp_dial tp of
             Some (NetDialer d _) \<Rightarrow> limit_within (5 * second) d
           | Some (DialWithin d _) \<Rightarrow> limit_within (5 * second) d
           | _ \<Rightarrow> False)
          \<and> limit_within (8 * second) (tp_tls_timeout tp) \<and> limit_within (10 * second) (tp_header_timeout tp))"

lemma limited_bounded: "io_bounded (HttpTransport (limited tp))"
  by (simp add: io_bounded_def limit_within_def limited_def registryDialTimeout_def registryTLSHandshakeTimeout_def
      registryResponseHeaderTimeout_def second_def split: option.splits)

lemma applyRegistryIOTimeouts_bounded: "io_bounded (applyRegistryIOTimeouts std (HttpTransport tp))"
  by (simp add: applyRegistryIOTimeouts_def limited_bounded)

text \<open>The limits keep the proxy a transport was built with.\<close>

lemma limited_proxy: "tp_proxy (limited tp) = tp_proxy tp" by (simp add: limited_def)

end
