(* ===== verification/Telegram.thy ===== *)
theory Telegram
  imports NotifierBase Transport "HOL-Library.Sublist"
begin

text \<open>
  The Telegram notifier (\<open>internal/notifier/telegram\<close>): configuration, rendering, the Bot API call with
  its own classification of answers, the masking of the bot token in errors, and what is logged. The
  record \<open>bot_tools\<close> holds the form encoder, the decoder of an answer (JSON), the text of an error and the
  user part of a URL.
\<close>

definition telegram_name :: string where "telegram_name = ''telegram''"

record 'w telegram =
  tg_token :: string
  tg_chatID :: string
  tg_parseMode :: string
  tg_apiURL :: string
  tg_proxyURL :: string
  tg_instance :: string
  tg_mode :: string
  tg_itemTmpl :: "item_data template"
  tg_digestTmpl :: "digest_data template"
  tg_client :: "'w client"
  tg_maxAttempts :: int
  tg_retryDelay :: duration

section \<open>Configuration\<close>

definition telegram_requireString :: "cfg_map \<Rightarrow> string \<Rightarrow> go_error + string" where
  "telegram_requireString = require_string telegram_name"

definition telegram_optionalString :: "cfg_map \<Rightarrow> string \<Rightarrow> string \<Rightarrow> string" where
  "telegram_optionalString = optional_string"

definition telegram_optionalTemplate :: "cfg_map \<Rightarrow> string \<Rightarrow> 'a \<Rightarrow> (string \<Rightarrow> 'a) \<Rightarrow> 'a" where
  "telegram_optionalTemplate = optional_template"

definition telegram_optionalDuration :: "(string \<Rightarrow> go_error + duration) \<Rightarrow> cfg_map \<Rightarrow> string \<Rightarrow> duration
    \<Rightarrow> go_error + duration" where
  "telegram_optionalDuration = optional_duration telegram_name"

definition telegram_validateRetries :: "string \<Rightarrow> int \<Rightarrow> go_error + int" where
  "telegram_validateRetries = non_negative telegram_name"

definition telegram_optionalInt :: "cfg_map \<Rightarrow> string \<Rightarrow> int \<Rightarrow> go_error + int" where
  "telegram_optionalInt cfg key = optional_int telegram_name (telegram_validateRetries key) cfg key"

definition telegram_maxAttempts :: "int \<Rightarrow> int" where "telegram_maxAttempts = max_attempts"

definition key_chat_id :: string where "key_chat_id = ''chat_id''"
definition key_parse_mode :: string where "key_parse_mode = ''parse_mode''"
definition key_api_url :: string where "key_api_url = ''api_url''"
definition default_api_url :: string where "default_api_url = ''https://api.telegram.org''"

text \<open>The verb \<open>%.0f\<close> rounds to the nearest integer, ties to even, and keeps the sign of a small negative.\<close>

definition round_even :: "rat \<Rightarrow> int" where
  "round_even r =
     (let n = \<lfloor>r\<rfloor>; d = r - of_int n in
      if d < 1 / 2 then n else if d > 1 / 2 then n + 1 else if even n then n else n + 1)"

definition show_rounded :: "rat \<Rightarrow> string" where
  "show_rounded r = (if r < 0 then CHR ''-'' # itoa (round_even (- r)) else itoa (round_even r))"

definition requireChatID :: "cfg_map \<Rightarrow> go_error + string" where
  "requireChatID cfg =
     (case map_of cfg key_chat_id of
        None \<Rightarrow> Inl (config_error telegram_name [Lit ''chat_id is required''])
      | Some ANull \<Rightarrow> Inl (config_error telegram_name [Lit ''chat_id is required''])
      | Some (AStr ident) \<Rightarrow>
          if trim_space ident = [] then Inl (config_error telegram_name [Lit ''chat_id must be non-empty''])
          else Inr (trim_space ident)
      | Some (AInt n) \<Rightarrow> Inr (itoa n)
      | Some (AInt64 n) \<Rightarrow> Inr (itoa n)
      | Some (AFloat f) \<Rightarrow> Inr (show_rounded f)
      | Some _ \<Rightarrow> Inl (config_error telegram_name [Lit ''chat_id must be a string or number'']))"

definition parse_mode_html :: string where "parse_mode_html = ''HTML''"

definition telegram_New :: "'w tools \<Rightarrow> cfg_map \<Rightarrow> go_error + 'w telegram" where
  "telegram_New ts cfg =
     and_then (telegram_requireString cfg key_token) (\<lambda>token.
     and_then (requireChatID cfg) (\<lambda>chatID.
     let parseMode = telegram_optionalString cfg key_parse_mode parse_mode_html;
         apiURL = trim_right_byte CHR ''/'' (telegram_optionalString cfg key_api_url default_api_url);
         proxyURL = telegram_optionalString cfg key_proxy [];
         mode = telegram_optionalString cfg key_mode modeDigest in
     if \<not> mode_ok mode then Inl (mode_error_for telegram_name)
     else
     and_then (wrap_error [Lit ''telegram config: item_template: '']
         (telegram_optionalTemplate cfg key_item_template (Inr (\<lambda>d. Inr (DefaultItemTemplate d))) (tl_item_template ts))) (\<lambda>itemTmpl.
     and_then (wrap_error [Lit ''telegram config: digest_template: '']
         (telegram_optionalTemplate cfg key_digest_template (Inr (\<lambda>d. Inr (DefaultDigestTemplate d))) (tl_digest_template ts))) (\<lambda>digestTmpl.
     and_then (telegram_optionalDuration (tl_duration ts) cfg key_timeout defaultTimeout) (\<lambda>timeout.
     and_then (telegram_optionalInt cfg key_retries DefaultRetries) (\<lambda>retries.
     and_then (telegram_optionalDuration (tl_duration ts) cfg key_retry_delay DefaultRetryDelay) (\<lambda>retryDelay.
     and_then (wrap_error [Lit ''telegram proxy: ''] (tl_client ts proxyURL timeout)) (\<lambda>cl.
     Inr \<lparr>tg_token = token, tg_chatID = chatID, tg_parseMode = parseMode, tg_apiURL = apiURL,
          tg_proxyURL = proxyURL, tg_instance = telegram_optionalString cfg key_instance [],
          tg_mode = mode, tg_itemTmpl = itemTmpl, tg_digestTmpl = digestTmpl, tg_client = cl,
          tg_maxAttempts = telegram_maxAttempts retries, tg_retryDelay = retryDelay\<rparr>))))))))"

section \<open>Rendering\<close>

definition telegram_renderItem :: "'w tools \<Rightarrow> 'w telegram \<Rightarrow> update_available \<Rightarrow> item_data" where
  "telegram_renderItem ts n u = ItemFromEvent (tl_url_parse ts) (tg_instance n) u True"

definition telegram_renderDigest :: "'w tools \<Rightarrow> 'w telegram \<Rightarrow> update_available list \<Rightarrow> go_error + string" where
  "telegram_renderDigest ts n events =
     render_digest (tg_itemTmpl n) (tg_digestTmpl n) (telegram_renderItem ts n)
       (html_escape (tg_instance n)) events"

section \<open>Masking the token\<close>

text \<open>\<open>strings.ReplaceAll\<close> for a pattern that is not empty: from left to right, without overlaps.\<close>

function replace_all :: "string \<Rightarrow> string \<Rightarrow> string \<Rightarrow> string" where
  "replace_all old new s =
     (if s = [] \<or> old = [] then s
      else if has_prefix s old then new @ replace_all old new (drop (length old) s)
      else hd s # replace_all old new (tl s))"
  by pat_completeness auto
termination
  by (relation "measure (\<lambda>(_, _, s). length s)") auto

declare replace_all.simps [simp del]

definition stars :: string where "stars = ''***''"

definition maskToken :: "string \<Rightarrow> string" where
  "maskToken token =
     (case cut token CHR '':'' of
        None \<Rightarrow> stars
      | Some (ident, _) \<Rightarrow> if token = [] \<or> ident = [] then stars else ident @ [CHR '':''] @ stars)"

definition bot :: string where "bot = ''bot''"

definition mask_form :: "string \<Rightarrow> string \<Rightarrow> string \<Rightarrow> string" where
  "mask_form enc masked s = replace_all enc masked (replace_all (bot @ enc) (bot @ masked) s)"

definition maskSecrets :: "string \<Rightarrow> string \<Rightarrow> string" where
  "maskSecrets s token =
     (if s = [] \<or> token = [] then s
      else
        let masked = maskToken token; s = mask_form token masked s;
            s = (if QueryEscape token \<noteq> token then mask_form (QueryEscape token) masked s else s)
        in if PathEscape token \<noteq> token then mask_form (PathEscape token) masked s else s)"

definition redactErr :: "(go_error \<Rightarrow> string) \<Rightarrow> 'w telegram \<Rightarrow> go_error \<Rightarrow> go_error" where
  "redactErr text_of n err = ErrText [Str (maskSecrets (text_of err) (tg_token n))]"

section \<open>The Bot API\<close>

record telegramResponse =
  tr_ok :: bool
  tr_description :: string
  tr_error_code :: int
  tr_retry_after :: int

definition telegramRateLimitOutcome :: "telegramResponse \<Rightarrow> string \<Rightarrow> outcome" where
  "telegramRateLimitOutcome r header =
     (let retryAfter = dur_mul (tr_retry_after r) second;
          retryAfter = (if retryAfter \<le> 0 \<and> header \<noteq> [] then
              (case atoi (trim_space header) of
                 Some secs \<Rightarrow> if 0 < secs then dur_mul secs second else retryAfter
               | None \<Rightarrow> retryAfter)
            else retryAfter)
      in if retryAfter > DefaultMaxRetryAfter then
           failure False (ErrText [Lit ''telegram rate limited for '', Num retryAfter, Lit '' (exceeds '',
             Num DefaultMaxRetryAfter, Lit '' cap)''])
         else
           \<lparr>oc_err = Some (ErrText [Lit ''telegram rate limited (HTTP 429)'']), oc_retryable = True,
            oc_retry_after = (if retryAfter \<le> 0 then DefaultRetryDelay else retryAfter)\<rparr>)"

definition api_error :: "int \<Rightarrow> string \<Rightarrow> go_error" where
  "api_error status desc = ErrText [Lit ''telegram API error (HTTP '', Num status, Lit ''): '', Str desc]"

definition telegramRetryableOutcome :: "int \<Rightarrow> telegramResponse \<Rightarrow> outcome" where
  "telegramRetryableOutcome status r =
     failure True (api_error status (if tr_description r = [] then ''server error'' else tr_description r))"

definition telegramClientOutcome :: "int \<Rightarrow> telegramResponse \<Rightarrow> string \<Rightarrow> outcome" where
  "telegramClientOutcome status r kind =
     failure False (api_error status (if tr_description r = [] then kind else tr_description r))"

definition classifyTelegramResponse :: "(string \<Rightarrow> telegramResponse option) \<Rightarrow> int \<Rightarrow> attempt_result \<Rightarrow> outcome" where
  "classifyTelegramResponse api now res =
     (let status = ar_status res in
      case ar_err res of
        Some err \<Rightarrow>
          failure (\<not> (err_is err ErrCanceled \<or> err_is err ErrDeadline)) (ErrWrap [Lit ''send request: ''] err)
      | None \<Rightarrow>
     (case api (ar_body res) of
        None \<Rightarrow>
          failure (500 \<le> status)
            (ErrText [Lit ''telegram HTTP '', Num status, Lit '': '', Str (trim_space (ar_body res))])
      | Some r \<Rightarrow>
          let code = (if tr_error_code r = 0 then status else tr_error_code r) in
          if status = 200 \<and> tr_ok r then success
          else if status = 429 \<or> code = 429 then telegramRateLimitOutcome r (ar_retry_after res)
          else if status = 400 \<or> code = 400 then telegramClientOutcome status r ''bad request''
          else if status = 401 \<or> code = 401 then telegramClientOutcome status r ''unauthorized''
          else if status = 403 \<or> code = 403 then telegramClientOutcome status r ''forbidden''
          else if status = 404 \<or> code = 404 then telegramClientOutcome status r ''not found''
          else if 500 \<le> status \<and> status < 600 then telegramRetryableOutcome status r
          else if 400 \<le> status \<and> status < 500 then telegramClientOutcome status r ''client error''
          else if tr_ok r then success
          else telegramClientOutcome status r ''api error''))"

text \<open>\<open>form\<close> is the URL encoding of a form.\<close>

definition telegram_request :: "((string \<times> string) list \<Rightarrow> string) \<Rightarrow> 'w telegram \<Rightarrow> string \<Rightarrow> request" where
  "telegram_request form n text =
     \<lparr>rq_target = tg_apiURL n @ ''/bot'' @ tg_token n @ ''/sendMessage'',
      rq_headers = [(''Content-Type'', ''application/x-www-form-urlencoded'')],
      rq_body = form [(''chat_id'', tg_chatID n), (''text'', text), (''parse_mode'', tg_parseMode n),
        (''disable_web_page_preview'', ''true'')]\<rparr>"

definition sendMessageOnce :: "((string \<times> string) list \<Rightarrow> string) \<Rightarrow> 'w telegram \<Rightarrow> string \<Rightarrow> ctx \<Rightarrow> 'w
    \<Rightarrow> attempt_result \<times> 'w" where
  "sendMessageOnce form n text = http_attempt (tg_client n) header_only (telegram_request form n text)"

record bot_tools =
  bt_form :: "(string \<times> string) list \<Rightarrow> string"
  bt_api :: "string \<Rightarrow> telegramResponse option"
  bt_text_of :: "go_error \<Rightarrow> string"
  bt_url_user :: "url \<Rightarrow> user_part"
  bt_url_string :: "url \<Rightarrow> user_part \<Rightarrow> string"

definition maskProxyURL :: "bot_tools \<Rightarrow> 'w tools \<Rightarrow> string \<Rightarrow> string" where
  "maskProxyURL bt ts = MaskProxyURL (tl_url_parse ts) (bt_url_user bt) (bt_url_string bt)"

definition proxy_field :: "bot_tools \<Rightarrow> 'w tools \<Rightarrow> 'w telegram \<Rightarrow> string \<times> attr" where
  "proxy_field bt ts n = (''proxy'', AttrStr (maskProxyURL bt ts (tg_proxyURL n)))"

definition telegram_retry_config :: "bot_tools \<Rightarrow> 'w tools \<Rightarrow> 'w telegram \<Rightarrow> 'w retry_config" where
  "telegram_retry_config bt ts n =
     \<lparr>hc_max_attempts = tg_maxAttempts n, hc_retry_delay = tg_retryDelay n,
      hc_max_retry_after = DefaultMaxRetryAfter, hc_multiplier = DefaultBackoffMultiplier,
      hc_sleep = Some (sleepContext (tl_env ts)), hc_component = telegram_name,
      hc_fields = [proxy_field bt ts n]\<rparr>"

definition sendMessageWithRetry :: "bot_tools \<Rightarrow> 'w tools \<Rightarrow> 'w telegram \<Rightarrow> ctx \<Rightarrow> string \<Rightarrow> 'w
    \<Rightarrow> go_error option \<times> 'w" where
  "sendMessageWithRetry bt ts n c text w =
     (case Do (tl_env ts) c (telegram_retry_config bt ts n) (classifyTelegramResponse (bt_api bt))
             (sendMessageOnce (bt_form bt) n text) w of
        (r, _, w) \<Rightarrow> (map_option (redactErr (bt_text_of bt) n) r, w))"

definition telegram_sendBatch :: "bot_tools \<Rightarrow> 'w tools \<Rightarrow> 'w telegram \<Rightarrow> ctx \<Rightarrow> update_available list \<Rightarrow> 'w
    \<Rightarrow> go_error option \<times> 'w" where
  "telegram_sendBatch bt ts n c events w =
     (case telegram_renderDigest ts n events of
        Inl err \<Rightarrow> (Some err, e_log (tl_env ts) (render_failed telegram_name [proxy_field bt ts n] err) w)
      | Inr text \<Rightarrow>
          if trim_space text = [] then (None, w)
          else case sendMessageWithRetry bt ts n c text w of
            (r, w) \<Rightarrow> log_failure (tl_env ts) (notify_failed telegram_name [count_field events, proxy_field bt ts n])
              (map_option (redactErr (bt_text_of bt) n) r, w))"

definition telegram_Notify :: "bot_tools \<Rightarrow> 'w tools \<Rightarrow> 'w telegram \<Rightarrow> ctx \<Rightarrow> update_available list \<Rightarrow> 'w
    \<Rightarrow> go_error option \<times> 'w" where
  "telegram_Notify bt ts n =
     notify_by_mode (tg_mode n) (telegram_sendBatch bt ts n) (telegram_sendBatch bt ts n)"

section \<open>The channel\<close>

definition telegram_post :: "bot_tools \<Rightarrow> 'w tools \<Rightarrow> 'w telegram \<Rightarrow> ctx \<Rightarrow> string \<Rightarrow> 'w \<Rightarrow> go_error option \<times> 'w" where
  "telegram_post bt ts n c text w =
     (case sendMessageWithRetry bt ts n c text w of (r, w) \<Rightarrow> (map_option (redactErr (bt_text_of bt) n) r, w))"

text \<open>A message counts as accepted when the server answered it with a decodable \<open>ok\<close>.\<close>

definition accepted_by_api :: "bot_tools \<Rightarrow> 'w telegram \<Rightarrow> ctx \<Rightarrow> string \<Rightarrow> bool" where
  "accepted_by_api bt n c text \<longleftrightarrow>
     (\<exists>w w' resp body r. ht_do (tg_client n) c (telegram_request (bt_form bt) n text) w = (Inr resp, w')
        \<and> read_limited (hr_body resp) = Inr body \<and> bt_api bt body = Some r \<and> tr_ok r)"

lemma classifyTelegram_success:
  "oc_err (classifyTelegramResponse api now res) = None \<Longrightarrow> ar_err res = None \<and> (\<exists>r. api (ar_body res) = Some r \<and> tr_ok r)"
  by (auto simp: classifyTelegramResponse_def Let_def failure_def success_def telegramRateLimitOutcome_def
      telegramRetryableOutcome_def telegramClientOutcome_def split: option.splits if_splits)

lemma telegram_post_accepted:
  assumes "telegram_post bt ts n c text w = (None, w')"
  shows "accepted_by_api bt n c text"
proof -
  from assms obtain warned where "Do (tl_env ts) c (telegram_retry_config bt ts n) (classifyTelegramResponse (bt_api bt))
      (sendMessageOnce (bt_form bt) n text) w = (None, warned, w')"
    by (auto simp: telegram_post_def sendMessageWithRetry_def split: prod.splits)
  then obtain w0 res where
    "sendMessageOnce (bt_form bt) n text c w0 = (res, w')"
    "oc_err (classifyTelegramResponse (bt_api bt) (e_now (tl_env ts) w') res) = None"
    by (rule Do_success)
  with http_attempt_accepted [of "tg_client n" header_only "telegram_request (bt_form bt) n text" c w0 res w']
    classifyTelegram_success show ?thesis
    unfolding accepted_by_api_def sendMessageOnce_def by metis
qed

lemma telegram_post_Do:
  "telegram_post bt ts n c text w =
     (case Do (tl_env ts) c (telegram_retry_config bt ts n) (classifyTelegramResponse (bt_api bt))
             (sendMessageOnce (bt_form bt) n text) w of
        (r, _, w) \<Rightarrow> (map_option (redactErr (bt_text_of bt) n \<circ> redactErr (bt_text_of bt) n) r, w))"
  by (simp add: telegram_post_def sendMessageWithRetry_def option.map_comp split: prod.splits)

lemma telegram_post_below:
  "observes lg (tl_env ts) \<Longrightarrow> quiet_client lg (tg_client n) \<Longrightarrow> below lg LevelError (telegram_post bt ts n c text)"
  unfolding telegram_post_Do [abs_def]
  by (rule Do_below) (simp_all add: http_attempt_quiet telegram_retry_config_def sendMessageOnce_def)

interpretation telegram_channel: push_channel "tg_mode n"
    "\<lambda>_ events. and_then (telegram_renderDigest ts n events) (\<lambda>text. Inr [text])" "\<lambda>text. trim_space text = []"
    "telegram_post bt ts n" "\<lambda>_. telegram_sendBatch bt ts n" "telegram_Notify bt ts n" "accepted_by_api bt n"
    "tl_env ts" "\<lambda>us err. [render_failed telegram_name [proxy_field bt ts n] err]"
    "\<lambda>us. notify_failed telegram_name [count_field us, proxy_field bt ts n]"
  for bt ts n
proof
  show "accepted_by_api bt n c m" if "telegram_post bt ts n c m w = (None, w')" for c m w w'
    using that by (rule telegram_post_accepted)
  show "telegram_sendBatch bt ts n c us w
      = (case and_then (telegram_renderDigest ts n us) (\<lambda>text. Inr [text]) of
           Inl err \<Rightarrow> (Some err, fold (e_log (tl_env ts)) [render_failed telegram_name [proxy_field bt ts n] err] w)
         | Inr ms \<Rightarrow> log_failure (tl_env ts) (notify_failed telegram_name [count_field us, proxy_field bt ts n])
             (post_all (\<lambda>text. trim_space text = []) (telegram_post bt ts n) c ms w))" for c us w
    by (auto simp: telegram_sendBatch_def telegram_post_def and_then_def log_failure_def
        split: sum.splits option.splits prod.splits)
  show "telegram_Notify bt ts n c us w
      = notify_by_mode (tg_mode n) (telegram_sendBatch bt ts n) (telegram_sendBatch bt ts n) c us w" for c us w
    by (simp add: telegram_Notify_def)
qed

section \<open>Masking: facts\<close>

lemma sublist_around: "c \<notin> set x \<Longrightarrow> sublist x (a @ c # b) \<Longrightarrow> sublist x a \<or> sublist x b"
  by (auto simp: sublist_append sublist_Cons_right prefix_Cons)

lemma prefix_before: "c \<notin> set x \<Longrightarrow> prefix x (a @ c # b) \<Longrightarrow> prefix x a"
  by (auto simp: prefix_append prefix_Cons)

lemma prefix_not_last: "x \<noteq> [] \<Longrightarrow> last x \<noteq> c \<Longrightarrow> prefix x (a @ [c]) \<Longrightarrow> prefix x a"
  by (auto simp: prefix_snoc)

lemma sublist_not_last: "x \<noteq> [] \<Longrightarrow> last x \<noteq> c \<Longrightarrow> sublist x (a @ [c]) \<Longrightarrow> sublist x a"
  by (auto simp: sublist_append sublist_Cons_right prefix_Cons suffix_def)

text \<open>
  A replacement that keeps a beginning \<open>p\<close> of what it replaces, followed by a colon and stars, brings
  no text \<open>x\<close> into the result that has no star and does not end in a colon; and of what it replaces
  nothing is left.
\<close>

definition maskable :: "string \<Rightarrow> bool" where
  "maskable x \<longleftrightarrow> x \<noteq> [] \<and> CHR ''*'' \<notin> set x \<and> last x \<noteq> CHR '':''"

definition mask_of :: "string \<Rightarrow> string" where "mask_of p = p @ CHR '':'' # stars"

lemma mask_of_append: "mask_of p @ r = (p @ [CHR '':'']) @ CHR ''*'' # (''**'' @ r)"
  by (simp add: mask_of_def stars_def)

lemma prefix_mask: "maskable x \<Longrightarrow> prefix x (mask_of p @ r) \<Longrightarrow> prefix x p"
  unfolding mask_of_append maskable_def by (blast dest: prefix_before intro: prefix_not_last)

lemma sublist_mask: "maskable x \<Longrightarrow> sublist x (mask_of p @ r) \<Longrightarrow> sublist x p \<or> sublist x r"
proof -
  assume x: "maskable x" and sub: "sublist x (mask_of p @ r)"
  from sublist_around [OF _ sub [unfolded mask_of_append]] x
  consider "sublist x (p @ [CHR '':''])" | "sublist x (''**'' @ r)" by (auto simp: maskable_def)
  then show ?thesis
  proof cases
    case 1
    with x sublist_not_last show ?thesis by (auto simp: maskable_def)
  next
    case 2
    with x show ?thesis by (auto simp: maskable_def sublist_Cons_right prefix_Cons)
  qed
qed

lemma replace_all_Nil [simp]: "replace_all old new [] = []"
  by (simp add: replace_all.simps [of old new "[]"])

lemma replace_all_miss [simp]:
  "old \<noteq> [] \<Longrightarrow> \<not> has_prefix (h # r) old \<Longrightarrow> replace_all old new (h # r) = h # replace_all old new r"
  by (simp add: replace_all.simps [of old new "h # r"])

lemma replace_prefix:
  assumes "has_prefix old p"
  shows "maskable x \<Longrightarrow> prefix x (replace_all old (mask_of p) s) \<Longrightarrow> prefix x s"
proof (induction s arbitrary: x rule: length_induct)
  case (1 s)
  consider (same) "s = [] \<or> old = []" | (hit) "s \<noteq> []" "old \<noteq> []" "has_prefix s old"
    | (step) "s \<noteq> []" "old \<noteq> []" "\<not> has_prefix s old" by blast
  then show ?case
  proof cases
    case same
    with 1(3) show ?thesis by (simp add: replace_all.simps [of old _ s])
  next
    case hit
    with 1(2,3) have "prefix x p" by (auto simp: replace_all.simps [of old _ s] dest: prefix_mask)
    with assms hit(3) show ?thesis by (auto simp: has_prefix_iff)
  next
    case step
    then obtain h rest where s: "s = h # rest" by (cases s) auto
    with 1(2,3) step obtain x' where x: "x = h # x'" "prefix x' (replace_all old (mask_of p) rest)"
      by (cases x) (auto simp: maskable_def)
    show ?thesis
    proof (cases "x' = []")
      case False
      with x 1(2) have "maskable x'" by (simp add: maskable_def)
      with 1(1) x(2) s have "prefix x' rest" by auto
      with x(1) s show ?thesis by simp
    qed (simp add: x(1) s)
  qed
qed

lemma replace_sublist:
  assumes "has_prefix old p"
  shows "maskable x \<Longrightarrow> sublist x (replace_all old (mask_of p) s) \<Longrightarrow> sublist x s"
proof (induction s rule: length_induct)
  case (1 s)
  consider (same) "s = [] \<or> old = []" | (hit) "s \<noteq> []" "old \<noteq> []" "has_prefix s old"
    | (step) "s \<noteq> []" "old \<noteq> []" "\<not> has_prefix s old" by blast
  then show ?case
  proof cases
    case same
    with 1(3) show ?thesis by (simp add: replace_all.simps [of old _ s])
  next
    case hit
    with 1(2,3) consider "sublist x p" | "sublist x (replace_all old (mask_of p) (drop (length old) s))"
      by (auto simp: replace_all.simps [of old _ s] dest: sublist_mask)
    then show ?thesis
    proof cases
      case 1
      with assms hit(3) show ?thesis by (auto simp: has_prefix_iff sublist_append)
    next
      case 2
      moreover have "length (drop (length old) s) < length s" using hit by simp
      ultimately have "sublist x (drop (length old) s)" using 1 by blast
      then show ?thesis by (meson sublist_drop sublist_order.order_trans)
    qed
  next
    case step
    then obtain h rest where s: "s = h # rest" by (cases s) auto
    with 1(3) step consider "prefix x (replace_all old (mask_of p) s)" | "sublist x (replace_all old (mask_of p) rest)"
      by (auto simp: sublist_Cons_right)
    then show ?thesis
    proof cases
      case 1
      with replace_prefix [OF assms \<open>maskable x\<close>] show ?thesis by blast
    next
      case 2
      with 1(1,2) s have "sublist x rest" by auto
      with s show ?thesis by (simp add: sublist_Cons_right)
    qed
  qed
qed

lemma replace_gone:
  assumes "has_prefix old p" and "p \<noteq> old" and "maskable old"
  shows "\<not> sublist old (replace_all old (mask_of p) s)"
proof (induction s rule: length_induct)
  case (1 s)
  have old: "old \<noteq> []" using assms(3) by (simp add: maskable_def)
  consider (same) "s = []" | (hit) "s \<noteq> []" "has_prefix s old" | (step) "s \<noteq> []" "\<not> has_prefix s old" by blast
  then show ?case
  proof cases
    case same
    with old show ?thesis by simp
  next
    case hit
    have "\<not> sublist old p"
      using assms(1,2) sublist_length_le [of old p] by (auto simp: has_prefix_iff)
    moreover have "length (drop (length old) s) < length s" using hit old by simp
    ultimately show ?thesis
      using 1 hit old by (auto simp: replace_all.simps [of old _ s] dest!: sublist_mask [OF assms(3)])
  next
    case step
    then obtain h rest where s: "s = h # rest" by (cases s) auto
    have "\<not> prefix old (replace_all old (mask_of p) s)"
      using replace_prefix [OF assms(1,3)] step(2) by (auto simp: has_prefix_iff prefix_def)
    moreover have "\<not> sublist old (replace_all old (mask_of p) rest)" using 1 s by simp
    ultimately show ?thesis
      using step old s by (simp add: sublist_Cons_right)
  qed
qed

text \<open>The shape of a bot token: digits, a colon and a secret of letters, digits, dashes and underscores.\<close>

definition token_shaped :: "string \<Rightarrow> bool" where
  "token_shaped token \<longleftrightarrow>
     (case cut token CHR '':'' of
        None \<Rightarrow> False
      | Some (ident, secret) \<Rightarrow> ident \<noteq> [] \<and> list_all is_digit ident \<and> secret \<noteq> [] \<and> list_all unreserved secret)"

lemma cut_Some: "cut s c = Some (a, b) \<Longrightarrow> s = a @ c # b"
proof -
  assume "cut s c = Some (a, b)"
  then have "c \<in> set s" and a: "a = takeWhile (\<lambda>x. x \<noteq> c) s" and b: "b = tl (dropWhile (\<lambda>x. x \<noteq> c) s)"
    by (auto simp: cut_def split: if_splits)
  then have "dropWhile (\<lambda>x. x \<noteq> c) s = c # b"
    by (metis (mono_tags, lifting) dropWhile_eq_Nil_conv hd_dropWhile list.collapse)
  then show ?thesis using takeWhile_dropWhile_id [of "\<lambda>x. x \<noteq> c" s] a by simp
qed

lemma QueryEscape_unreserved [simp]: "list_all unreserved s \<Longrightarrow> QueryEscape s = s"
  by (induction s) (simp_all add: QueryEscape_def)

lemma PathEscape_unreserved [simp]: "list_all unreserved s \<Longrightarrow> PathEscape s = s"
  by (induction s) (simp_all add: PathEscape_def)

lemma escape_append: "QueryEscape (s @ r) = QueryEscape s @ QueryEscape r" "PathEscape (s @ r) = PathEscape s @ PathEscape r"
  by (simp_all add: QueryEscape_def PathEscape_def)

lemma not_unreserved: "\<not> unreserved CHR ''*''" "\<not> unreserved CHR '':''" "\<not> unreserved CHR ''%''"
  by code_simp+

lemma escape_colon:
  "QueryEscape (CHR '':'' # s) = ''%3A'' @ QueryEscape s" "PathEscape (CHR '':'' # s) = CHR '':'' # PathEscape s"
proof -
  have "percent CHR '':'' = ''%3A''" by code_simp
  then show "QueryEscape (CHR '':'' # s) = ''%3A'' @ QueryEscape s" by (simp add: QueryEscape_def not_unreserved)
  show "PathEscape (CHR '':'' # s) = CHR '':'' # PathEscape s" by (simp add: PathEscape_def)
qed

lemma token_parts:
  assumes "token_shaped token"
  obtains ident secret where "token = ident @ CHR '':'' # secret" "maskToken token = mask_of ident"
    "QueryEscape token = ident @ ''%3A'' @ secret" "PathEscape token = token"
    "ident \<noteq> []" "secret \<noteq> []" "list_all unreserved ident" "list_all unreserved secret"
proof -
  from assms obtain ident secret where c: "cut token CHR '':'' = Some (ident, secret)"
    and ok: "ident \<noteq> []" "list_all is_digit ident" "secret \<noteq> []" "list_all unreserved secret"
    by (auto simp: token_shaped_def split: option.splits)
  have t: "token = ident @ CHR '':'' # secret" using c by (rule cut_Some)
  have u: "list_all unreserved ident" using ok(2) by (auto simp: list_all_iff unreserved_def)
  have "maskToken token = mask_of ident" using c ok(1) t by (simp add: maskToken_def mask_of_def)
  then show thesis using that t ok u by (simp add: escape_append escape_colon)
qed

lemma unreserved_maskable:
  "list_all unreserved secret \<Longrightarrow> secret \<noteq> [] \<Longrightarrow> CHR ''*'' \<notin> set p \<Longrightarrow> maskable (p @ secret)"
  using not_unreserved by (auto simp: maskable_def list_all_iff dest: last_in_set)

lemma unreserved_no_star: "list_all unreserved s \<Longrightarrow> CHR ''*'' \<notin> set s"
  using not_unreserved by (auto simp: list_all_iff)

lemma mask_form_no_new:
  assumes "has_prefix enc p" and "maskable x" and "sublist x (mask_form enc (mask_of p) s)"
  shows "sublist x s"
proof -
  have "bot @ mask_of p = mask_of (bot @ p)" and "has_prefix (bot @ enc) (bot @ p)"
    using assms(1) by (auto simp: mask_of_def has_prefix_iff)
  with assms replace_sublist [of _ _ x] show ?thesis unfolding mask_form_def by metis
qed

lemma mask_form_gone:
  "has_prefix enc p \<Longrightarrow> p \<noteq> enc \<Longrightarrow> maskable enc \<Longrightarrow> \<not> sublist enc (mask_form enc (mask_of p) s)"
  unfolding mask_form_def by (rule replace_gone)

lemma maskSecrets_correct:
  assumes "token_shaped token"
  shows "\<not> sublist token (maskSecrets s token) \<and> \<not> sublist (QueryEscape token) (maskSecrets s token)"
proof -
  from assms obtain ident secret where t: "token = ident @ CHR '':'' # secret" "maskToken token = mask_of ident"
    "QueryEscape token = ident @ ''%3A'' @ secret" "PathEscape token = token"
    "ident \<noteq> []" "secret \<noteq> []" "list_all unreserved ident" "list_all unreserved secret"
    by (rule token_parts)
  have star: "CHR ''*'' \<notin> set ident" by (rule unreserved_no_star [OF t(7)])
  have mt: "maskable token" using unreserved_maskable [OF t(8,6), of "ident @ '':''"] star t(1) by simp
  have mq: "maskable (QueryEscape token)"
    using unreserved_maskable [OF t(8,6), of "ident @ ''%3A''"] star t(3) by simp
  have p: "has_prefix token ident" "has_prefix (QueryEscape token) ident" "ident \<noteq> token" "ident \<noteq> QueryEscape token"
    unfolding t(3) by (auto simp: t(1) has_prefix_iff)
  have q: "QueryEscape token \<noteq> token" unfolding t(3) by (simp add: t(1))
  let ?s = "mask_form token (maskToken token) s"
  have "maskSecrets s token = (if s = [] then [] else mask_form (QueryEscape token) (maskToken token) ?s)"
    using q t(4) mt by (simp add: maskSecrets_def maskable_def Let_def)
  moreover have "\<not> sublist token (mask_form (QueryEscape token) (maskToken token) ?s)"
    using mask_form_no_new [OF p(2) mt] mask_form_gone [OF p(1,3) mt] unfolding t(2) by blast
  moreover have "\<not> sublist (QueryEscape token) (mask_form (QueryEscape token) (maskToken token) ?s)"
    using mask_form_gone [OF p(2,4) mq] unfolding t(2) .
  ultimately show ?thesis using mt mq by (auto simp: maskable_def)
qed

section \<open>Properties\<close>

lemma sendBatch_error:
  assumes "telegram_sendBatch bt ts n c us w = (Some err, w')"
  shows "telegram_renderDigest ts n us = Inl err \<or> (\<exists>text. err = ErrText [Str (maskSecrets text (tg_token n))])"
  using assms
  by (auto simp: telegram_sendBatch_def redactErr_def log_failure_def split: sum.splits if_splits prod.splits option.splits)

lemma send_each_error:
  "send_each send c us w = (Some err, w') \<Longrightarrow> \<exists>u w1 w2. u \<in> set us \<and> send c [u] w1 = (Some err, w2)"
  by (induction us arbitrary: w) (fastforce split: prod.splits option.splits)+

text \<open>
  C29. The bot token does not leak through errors: for a token of the usual shape, an error of a
  notification is an error of rendering the message, or its text contains the token neither
  literally nor URL-encoded, whatever the text said before masking.
\<close>

theorem telegram_token_masked:
  assumes "token_shaped (tg_token n)" and "telegram_Notify bt ts n c us w = (Some err, w')"
  shows "(\<exists>us'. telegram_renderDigest ts n us' = Inl err)
    \<or> (\<exists>msg. err = ErrText [Str msg] \<and> \<not> sublist (tg_token n) msg \<and> \<not> sublist (QueryEscape (tg_token n)) msg)"
proof -
  from assms(2) obtain us' w1 w2 where "telegram_sendBatch bt ts n c us' w1 = (Some err, w2)"
    by (auto simp: telegram_Notify_def notify_by_mode_def split: if_splits dest: send_each_error)
  from sendBatch_error [OF this] show ?thesis using maskSecrets_correct [OF assms(1)] by blast
qed

definition sample_bot_tools :: bot_tools where
  "sample_bot_tools = \<lparr>bt_form = concat \<circ> map snd, bt_api = \<lambda>_. None, bt_text_of = \<lambda>_. ''Post: bot7:ab failed'',
    bt_url_user = \<lambda>_. None, bt_url_string = \<lambda>u _. url_host u\<rparr>"

definition bot_on :: "'w client \<Rightarrow> int \<Rightarrow> 'w telegram" where
  [simp]: "bot_on cl attempts =
     \<lparr>tg_token = ''7:ab'', tg_chatID = ''1'', tg_parseMode = parse_mode_html, tg_apiURL = default_api_url,
      tg_proxyURL = [], tg_instance = ''n'', tg_mode = modeDigest, tg_itemTmpl = \<lambda>d. Inr ''x'',
      tg_digestTmpl = \<lambda>d. Inr (dg_items d), tg_client = cl, tg_maxAttempts = attempts, tg_retryDelay = second\<rparr>"

definition sample_telegram :: "int telegram" where "sample_telegram = bot_on (sample_client 500) 1"

theorem telegram_token_masked_witness:
  "\<exists>err w'. telegram_Notify sample_bot_tools sample_tools sample_telegram None [undefined] 0 = (Some err, w')
     \<and> ((\<exists>us'. telegram_renderDigest sample_tools sample_telegram us' = Inl err)
        \<or> (\<exists>msg. err = ErrText [Str msg] \<and> \<not> sublist ''7:ab'' msg \<and> \<not> sublist (QueryEscape ''7:ab'') msg))"
proof -
  have token: "token_shaped (tg_token sample_telegram)" "tg_token sample_telegram = ''7:ab''" by code_simp+
  have "telegram_renderDigest sample_tools sample_telegram [u] = Inr ''x''" for u
    by (simp add: telegram_renderDigest_def render_digest_def sample_telegram_def and_then_def wrap_error_def
        trim_right_byte_def)
  moreover have "trim_space ''x'' \<noteq> []" by code_simp
  moreover have "fst (sendMessageWithRetry sample_bot_tools sample_tools sample_telegram None ''x'' 0) \<noteq> None"
    by (simp add: sendMessageWithRetry_def Do_def withDefaults_def telegram_retry_config_def sample_telegram_def
        sample_tools_def sample_client_def sendMessageOnce_def http_attempt_def read_limited_def telegram_request_def Let_def
        clock_env_def classifyTelegramResponse_def sample_bot_tools_def failure_def)
  then obtain err w1 where "sendMessageWithRetry sample_bot_tools sample_tools sample_telegram None ''x'' 0 = (Some err, w1)"
    by (metis not_None_eq prod.collapse)
  moreover have "tg_mode sample_telegram = modeDigest" by (simp add: sample_telegram_def)
  ultimately obtain err w' where
    "telegram_Notify sample_bot_tools sample_tools sample_telegram None [undefined] 0 = (Some err, w')"
    by (simp add: telegram_Notify_def notify_by_mode_def telegram_sendBatch_def)
  with telegram_token_masked [OF token(1) this] token(2) show ?thesis by auto
qed

text \<open>
  C30. The warning before a retry does show it: when the client fails to send a message (its error
  quotes the address of the request, as the errors of \<open>net/http\<close> do) and another attempt is allowed, the
  first line logged is a warning whose error contains the bot token, while the error that is returned
  and logged at the end does not.
\<close>

theorem telegram_retry_shows_token:
  fixes bt :: bot_tools
  assumes "observes lg (tl_env ts)" and "quiet_client lg (tg_client n)" and "e_err (tl_env ts) c w = None"
    and "telegram_renderDigest ts n us = Inr text" and "trim_space text \<noteq> []" and "1 < tg_maxAttempts n"
  defines "rq \<equiv> telegram_request (bt_form bt) n text"
  assumes "ht_new_request (tg_client n) (rq_target rq) = None" and "ht_do (tg_client n) c rq w = (Inl err, w1)"
    and "err = ErrUrl op (rq_target rq) cause" and "\<not> err_is err ErrCanceled" and "\<not> err_is err ErrDeadline"
    and "sublist (rq_target rq) (bt_text_of bt err)"
    and "sublist (bt_text_of bt err) (bt_text_of bt (ErrWrap [Lit ''send request: ''] err))"
    and "telegram_sendBatch bt ts n c us w = (r, w')" and "token_shaped (tg_token n)"
  shows "(\<exists>info shown rest. lg w' = lg w @ LogLine LevelWarn ''telegram attempt failed, retrying'' info # rest
      \<and> (''error'', AttrErr shown) \<in> set info \<and> sublist (tg_token n) (bt_text_of bt shown))
    \<and> (\<forall>final. r = Some final \<longrightarrow> (\<exists>msg. final = ErrText [Str msg] \<and> \<not> sublist (tg_token n) msg
      \<and> lg w' \<noteq> [] \<and> last (lg w') = notify_failed telegram_name [count_field us, proxy_field bt ts n] final))"
proof -
  let ?Do = "Do (tl_env ts) c (telegram_retry_config bt ts n) (classifyTelegramResponse (bt_api bt))
    (sendMessageOnce (bt_form bt) n text) w"
  let ?cfg = "withDefaults (tl_env ts) (telegram_retry_config bt ts n)" and ?err = "ErrWrap [Lit ''send request: ''] err"
  obtain r0 warned w2 where run: "?Do = (r0, warned, w2)" by (metis prod_cases3)
  have "sendMessageOnce (bt_form bt) n text c w = (no_response err, w1)"
    using assms(8,9) by (simp add: sendMessageOnce_def http_attempt_def rq_def)
  from Do_first_warning [OF run assms(3) this, of ?err] assms(6,11,12) obtain delay retries where
    "warned = RetryNote 1 delay ?err # retries"
    by (auto simp: classifyTelegramResponse_def no_response_def failure_def Let_def telegram_retry_config_def)
  moreover have "lg w2 = lg w @ map (retry_line ?cfg) warned"
    using Do_log [OF run assms(1)] http_attempt_quiet [OF assms(2)]
    by (simp add: sendMessageOnce_def telegram_retry_config_def)
  moreover have "hc_component ?cfg = telegram_name" by (simp add: withDefaults_def telegram_retry_config_def telegram_name_def)
  ultimately obtain info rest where first: "lg w2 = lg w @ LogLine LevelWarn ''telegram attempt failed, retrying'' info # rest"
    "(''error'', AttrErr ?err) \<in> set info" by (auto simp: telegram_name_def)
  have "rq_target rq = (tg_apiURL n @ ''/bot'') @ tg_token n @ ''/sendMessage''" by (simp add: rq_def telegram_request_def)
  then have "sublist (tg_token n) (rq_target rq)" by (simp only: sublist_appendI)
  then have shown: "sublist (tg_token n) (bt_text_of bt ?err)"
    using assms(13,14) by (meson sublist_order.order_trans)
  from run assms(4,5,15) have sent: "(r, w') = log_failure (tl_env ts)
      (notify_failed telegram_name [count_field us, proxy_field bt ts n])
      (map_option (redactErr (bt_text_of bt) n \<circ> redactErr (bt_text_of bt) n) r0, w2)"
    by (simp add: telegram_sendBatch_def sendMessageWithRetry_def option.map_comp)
  show ?thesis
  proof (cases r0)
    case None
    with sent first shown show ?thesis by auto
  next
    case (Some e0)
    with sent first shown assms(1) maskSecrets_correct [OF assms(16)] show ?thesis by (auto simp: redactErr_def)
  qed
qed

text \<open>A client whose connection always fails, and errors printed as \<open>net/http\<close> and \<open>fmt\<close> print them.\<close>

definition dead_client :: "'w client" where
  "dead_client = \<lparr>ht_new_request = \<lambda>_. None, ht_do = \<lambda>c rq w. (Inl (ErrUrl ''Post'' (rq_target rq) ErrEOF), w)\<rparr>"

definition piece_text :: "piece \<Rightarrow> string" where
  "piece_text p = (case p of Lit s \<Rightarrow> s | Str s \<Rightarrow> s | Quoted s \<Rightarrow> CHR 0x22 # s @ [CHR 0x22] | Num n \<Rightarrow> itoa n)"

fun error_text :: "go_error \<Rightarrow> string" where
  "error_text (ErrText ps) = concat (map piece_text ps)"
| "error_text (ErrWrap ps err) = concat (map piece_text ps) @ error_text err"
| "error_text (ErrUrl op target err) = op @ '' '' @ CHR 0x22 # target @ CHR 0x22 # '': '' @ error_text err"
| "error_text err = []"

definition shown_bot :: bot_tools where
  "shown_bot = sample_bot_tools\<lparr>bt_text_of := error_text\<rparr>"

theorem telegram_retry_shows_token_witness:
  "\<exists>w' r info shown rest. telegram_sendBatch shown_bot (tools_on noted_env) (bot_on dead_client 2) None [undefined] (0, []) = (r, w')
     \<and> snd w' = LogLine LevelWarn ''telegram attempt failed, retrying'' info # rest
     \<and> (''error'', AttrErr shown) \<in> set info \<and> sublist ''7:ab'' (error_text shown)"
proof -
  let ?n = "bot_on dead_client 2 :: (int \<times> log_line list) telegram" and ?ts = "tools_on noted_env"
  obtain r w' where send: "telegram_sendBatch shown_bot ?ts ?n None [undefined] (0, []) = (r, w')"
    by (rule prod.exhaust)
  have rendered: "telegram_renderDigest ?ts ?n [undefined] = Inr ''x''"
    by (simp add: telegram_renderDigest_def render_digest_def and_then_def wrap_error_def trim_right_byte_def)
  let ?rq = "telegram_request (bt_form shown_bot) ?n ''x''"
  let ?err = "ErrUrl ''Post'' (rq_target ?rq) ErrEOF"
  have "trim_space ''x'' \<noteq> []" "token_shaped (tg_token ?n)" by code_simp+
  moreover have "observes snd (tl_env ?ts)" "quiet_client snd (tg_client ?n)" "e_err (tl_env ?ts) None (0, []) = None"
    by (simp_all add: quiet_client_def quiet_def dead_client_def) (simp add: noted_env_def clock_env_def)
  moreover have "ht_new_request (tg_client ?n) (rq_target ?rq) = None"
    "ht_do (tg_client ?n) None ?rq (0, []) = (Inl ?err, (0, []))" "\<not> err_is ?err ErrCanceled" "\<not> err_is ?err ErrDeadline"
    by (simp_all add: dead_client_def err_is_def err_matches_def)
  moreover have "sublist (rq_target ?rq) (bt_text_of shown_bot ?err)"
    "sublist (bt_text_of shown_bot ?err) (bt_text_of shown_bot (ErrWrap [Lit ''send request: ''] ?err))"
    by (simp_all add: shown_bot_def sublist_append sublist_Cons_right)
  ultimately show ?thesis
    using telegram_retry_shows_token [of snd ?ts ?n None "(0, [])" "[undefined]" "''x''" shown_bot ?err "(0, [])" "''Post''" ErrEOF r w'] rendered send
    by (fastforce simp: shown_bot_def)
qed

end
