(* ===== verification/DiscordText.thy ===== *)
theory DiscordText
  imports Format
begin

text \<open>
  What a Discord message says (\<open>internal/notifier/discord/embed.go\<close> and the text part of
  \<open>payload.go\<close>): embeds and plain content, cut to the limits of the Discord API. All lengths are in
  bytes, as in the code.
\<close>

definition defaultEmbedColor :: int where "defaultEmbedColor = 3447003"
definition maxEmbedDescription :: nat where "maxEmbedDescription = 4096"
definition maxEmbedTitle :: nat where "maxEmbedTitle = 256"
definition maxEmbedsPerMessage :: nat where "maxEmbedsPerMessage = 10"
definition maxEmbedTotalChars :: nat where "maxEmbedTotalChars = 6000"
definition maxContentLen :: nat where "maxContentLen = 2000"
definition embedItemSeparator :: string where "embedItemSeparator = newline @ newline"

lemmas discord_limits_defs = maxEmbedDescription_def maxEmbedTitle_def maxEmbedsPerMessage_def
  maxEmbedTotalChars_def maxContentLen_def

record embed =
  em_title :: string
  em_description :: string
  em_color :: int

definition embedCharCount :: "embed \<Rightarrow> nat" where
  "embedCharCount e = length (em_title e) + length (em_description e)"

definition truncateRunes :: "string \<Rightarrow> nat \<Rightarrow> string" where
  "truncateRunes s n = (if length s \<le> n then s else take n s)"

definition itemLine :: "item_data \<Rightarrow> string" where
  "itemLine d =
     ''**'' @ EscapeMarkdown (it_container d) @ ''**: '' @ EscapeMarkdown (it_change d) @
     (if it_url d \<noteq> [] then newline @ EscapeMarkdown (it_url d) else [])"

definition digestTitle :: "string \<Rightarrow> nat \<Rightarrow> string" where
  "digestTitle inst count =
     (let inst = EscapeMarkdown inst in
      if count \<le> 1 then truncateRunes (package_mark @ inst) maxEmbedTitle
      else truncateRunes (package_mark @ inst @ dash_mark @ itoa_nat count @ '' updates'') maxEmbedTitle)"

section \<open>Embeds\<close>

definition simpleEmbed :: "url_parser \<Rightarrow> update_available \<Rightarrow> string \<Rightarrow> int \<Rightarrow> embed" where
  "simpleEmbed url_parse u instanceName color =
     (let d = ItemFromEvent url_parse instanceName u False in
      \<lparr>em_title = truncateRunes (package_mark @ EscapeMarkdown (it_instance d)) maxEmbedTitle,
       em_description = truncateRunes (itemLine d) maxEmbedDescription, em_color = color\<rparr>)"

definition buildSimpleEmbeds :: "url_parser \<Rightarrow> update_available list \<Rightarrow> string \<Rightarrow> int \<Rightarrow> embed list" where
  "buildSimpleEmbeds url_parse events instanceName color =
     map (\<lambda>u. simpleEmbed url_parse u instanceName color) events"

text \<open>
  The lines of a digest are collected in a chunk; a full chunk becomes an embed, and the first embed
  carries the title. The length of the title that a line is checked against is read once, before a
  flush may have used the title up.
\<close>

record splitting =
  sp_embeds :: "embed list"
  sp_first :: bool
  sp_chunk :: "string list"

definition flush :: "string \<Rightarrow> int \<Rightarrow> splitting \<Rightarrow> splitting" where
  "flush title color s =
     (if sp_chunk s = [] then s
      else
        s\<lparr>sp_embeds := sp_embeds s @
            [\<lparr>em_title = (if sp_first s then truncateRunes title maxEmbedTitle else []),
              em_description = truncateRunes (join embedItemSeparator (sp_chunk s)) maxEmbedDescription,
              em_color = color\<rparr>],
          sp_first := False, sp_chunk := []\<rparr>)"

definition split_line :: "string \<Rightarrow> int \<Rightarrow> string \<Rightarrow> splitting \<Rightarrow> splitting" where
  "split_line title color line s =
     (let candidate = (if sp_chunk s \<noteq> [] then join embedItemSeparator (sp_chunk s @ [line]) else line);
          titleLen = (if sp_first s then length title else 0);
          s = (if maxEmbedDescription < length candidate + titleLen \<and> sp_chunk s \<noteq> [] then flush title color s else s);
          s = s\<lparr>sp_chunk := sp_chunk s @ [line]\<rparr>
      in if maxEmbedDescription < length (join embedItemSeparator (sp_chunk s)) + titleLen
         then flush title color s else s)"

definition splitDigestLinesIntoEmbeds :: "string \<Rightarrow> string list \<Rightarrow> int \<Rightarrow> embed list" where
  "splitDigestLinesIntoEmbeds title lines color =
     (if lines = [] then []
      else sp_embeds (flush title color
        (fold (split_line title color) lines \<lparr>sp_embeds = [], sp_first = True, sp_chunk = []\<rparr>)))"

definition digest_lines :: "url_parser \<Rightarrow> update_available list \<Rightarrow> string \<Rightarrow> string list" where
  "digest_lines url_parse events instanceName =
     map (\<lambda>u. itemLine (ItemFromEvent url_parse instanceName u False)) events"

definition buildDigestEmbeds :: "url_parser \<Rightarrow> update_available list \<Rightarrow> string \<Rightarrow> int \<Rightarrow> embed list" where
  "buildDigestEmbeds url_parse events instanceName color =
     (if events = [] then []
      else splitDigestLinesIntoEmbeds (digestTitle instanceName (length events))
        (digest_lines url_parse events instanceName) color)"

text \<open>Embeds are packed into messages; a message is closed when the next embed would exceed a limit.\<close>

fun pack_from :: "embed list \<Rightarrow> embed list \<Rightarrow> nat \<Rightarrow> embed list list" where
  "pack_from [] current chars = (if current \<noteq> [] then [current] else [])"
| "pack_from (e # es) current chars =
     (if current \<noteq> [] \<and> (maxEmbedsPerMessage \<le> length current \<or> maxEmbedTotalChars < chars + embedCharCount e)
      then current # pack_from es [e] (embedCharCount e)
      else pack_from es (current @ [e]) (chars + embedCharCount e))"

definition packEmbedsIntoMessages :: "embed list \<Rightarrow> embed list list" where
  "packEmbedsIntoMessages embeds = (if embeds = [] then [] else pack_from embeds [] 0)"

section \<open>Plain content\<close>

text \<open>
  The only caller passes \<open>maxContentLen\<close>, which replaces the parameter \<open>maxLen\<close>. The cut is after the
  last line break of the window if that leaves more than half of it.
\<close>

definition nl :: char where "nl = CHR 0x0A"

definition content_cut :: "string \<Rightarrow> nat" where
  "content_cut text =
     (case last_index (take maxContentLen text) nl of
        Some idx \<Rightarrow> if maxContentLen div 2 < idx then Suc idx else maxContentLen
      | None \<Rightarrow> maxContentLen)"

lemma content_cut_pos: "0 < content_cut text"
  by (simp add: content_cut_def maxContentLen_def split: option.splits)

function content_chunks :: "string \<Rightarrow> string list" where
  "content_chunks text =
     (if text = [] then []
      else if length text \<le> maxContentLen then [text]
      else trim_right_byte nl (take (content_cut text) text) #
        content_chunks (trim_left_byte nl (drop (content_cut text) text)))"
  by pat_completeness auto
termination
proof (relation "measure length")
  fix s :: string
  assume "s \<noteq> []"
  have "length (trim_left_byte nl (drop (content_cut s) s)) \<le> length s - content_cut s"
    using length_trim_left_byte [of nl "drop (content_cut s) s"] by simp
  also have "\<dots> < length s" using \<open>s \<noteq> []\<close> content_cut_pos [of s] by simp
  finally show "(trim_left_byte nl (drop (content_cut s) s), s) \<in> measure length" by simp
qed simp

declare content_chunks.simps [simp del]

definition splitContent :: "string \<Rightarrow> string list" where
  "splitContent text =
     (if text = [] then [] else if length text \<le> maxContentLen then [text] else content_chunks text)"

definition renderContentText :: "url_parser \<Rightarrow> update_available list \<Rightarrow> string \<Rightarrow> bool \<Rightarrow> go_error + string" where
  "renderContentText url_parse events instanceName simple =
     (if simple then
        (case events of
           [u] \<Rightarrow>
             let d = ItemFromEvent url_parse instanceName u False in
             Inr (package_mark @ ''**'' @ EscapeMarkdown (it_instance d) @ ''**'' @ newline @ itemLine d)
         | _ \<Rightarrow> Inl (ErrText [Lit ''simple content expects one event, got '', Num (int (length events))]))
      else
        Inr (join newline (digestTitle instanceName (length events) # digest_lines url_parse events instanceName)))"

section \<open>Facts\<close>

lemma join_append:
  "xs \<noteq> [] \<Longrightarrow> ys \<noteq> [] \<Longrightarrow> join sep (xs @ ys) = join sep xs @ sep @ join sep ys"
  by (induction xs rule: induct_list012) (simp_all add: join_Cons)

lemma join_concat: "[] \<notin> set css \<Longrightarrow> join sep (map (join sep) css) = join sep (concat css)"
proof (induction css)
  case (Cons cs css)
  show ?case
  proof (cases css)
    case (Cons ds dss)
    then have "cs \<noteq> []" "concat css \<noteq> []" "css \<noteq> []" using \<open>[] \<notin> set (cs # css)\<close> by auto
    with Cons.IH Cons.prems show ?thesis by (simp add: join_Cons join_append)
  qed simp
qed simp

lemma length_truncateRunes: "length (truncateRunes s n) \<le> n"
  by (simp add: truncateRunes_def)

lemma truncateRunes_short: "length s \<le> n \<Longrightarrow> truncateRunes s n = s"
  by (simp add: truncateRunes_def)

text \<open>
  What the Discord API takes: titles of 256 and descriptions of 4096 characters, and in one message at
  least one and at most 10 embeds with 6000 characters together, or a content of 2000 characters. The code
  counts bytes, which are at least as many.
\<close>

definition embed_fits :: "embed \<Rightarrow> bool" where
  "embed_fits e \<longleftrightarrow> length (em_title e) \<le> 256 \<and> length (em_description e) \<le> 4096"

definition message_fits :: "embed list \<Rightarrow> bool" where
  "message_fits m \<longleftrightarrow> m \<noteq> [] \<and> length m \<le> 10 \<and> list_all embed_fits m
     \<and> (\<Sum>e\<leftarrow>m. length (em_title e) + length (em_description e)) \<le> 6000"

lemma cut_fits:
  "length (truncateRunes s maxEmbedTitle) \<le> 256" "length (truncateRunes s maxEmbedDescription) \<le> 4096"
  using length_truncateRunes [of s maxEmbedTitle] length_truncateRunes [of s maxEmbedDescription]
  by (simp_all add: discord_limits_defs)

lemma simple_fits: "list_all embed_fits (buildSimpleEmbeds up events inst color)"
  by (auto simp: buildSimpleEmbeds_def simpleEmbed_def embed_fits_def cut_fits Let_def list_all_iff)

lemma flush_fits: "list_all embed_fits (sp_embeds s) \<Longrightarrow> list_all embed_fits (sp_embeds (flush title color s))"
  by (auto simp: flush_def embed_fits_def cut_fits)

lemma split_line_fits:
  "list_all embed_fits (sp_embeds s) \<Longrightarrow> list_all embed_fits (sp_embeds (split_line title color line s))"
  by (auto simp: split_line_def Let_def intro!: flush_fits)

lemma split_lines_fit:
  "list_all embed_fits (sp_embeds s) \<Longrightarrow> list_all embed_fits (sp_embeds (fold (split_line title color) ls s))"
  by (induction ls arbitrary: s) (simp_all add: split_line_fits)

lemma digest_fits: "list_all embed_fits (buildDigestEmbeds up events inst color)"
  by (auto simp: buildDigestEmbeds_def splitDigestLinesIntoEmbeds_def intro!: flush_fits split_lines_fit)

lemma pack_from_fits:
  "list_all embed_fits es \<Longrightarrow> current = [] \<or> message_fits current
     \<Longrightarrow> chars = sum_list (map embedCharCount current) \<Longrightarrow> list_all message_fits (pack_from es current chars)"
proof (induction es current chars rule: pack_from.induct)
  case (2 e es current chars)
  have one: "message_fits [e]"
    using 2(3) by (simp add: message_fits_def embed_fits_def embedCharCount_def discord_limits_defs)
  show ?case
  proof (cases "current \<noteq> [] \<and> (maxEmbedsPerMessage \<le> length current \<or> maxEmbedTotalChars < chars + embedCharCount e)")
    case True
    with 2(1) [OF True] 2(3-5) one show ?thesis by auto
  next
    case False
    then have "message_fits (current @ [e])"
      using 2(3-5) one by (auto simp: message_fits_def embedCharCount_def discord_limits_defs not_le not_less)
    with 2(2) [OF False] 2(3-5) False show ?thesis by auto
  qed
qed auto

lemma pack_fits: "list_all embed_fits es \<Longrightarrow> list_all message_fits (packEmbedsIntoMessages es)"
  by (simp add: packEmbedsIntoMessages_def pack_from_fits)

lemma pack_from_concat: "concat (pack_from es current chars) = current @ es"
  by (induction es current chars rule: pack_from.induct) auto

lemma pack_concat: "concat (packEmbedsIntoMessages es) = es"
  by (simp add: packEmbedsIntoMessages_def pack_from_concat)

lemma content_cut_le: "content_cut s \<le> maxContentLen"
proof (cases "last_index (take maxContentLen s) nl")
  case (Some i)
  with last_index_split [OF Some] show ?thesis by (simp add: content_cut_def)
qed (simp add: content_cut_def)

lemma trim_right_filter: "filter (\<lambda>c. c \<noteq> nl) (trim_right_byte nl s) = filter (\<lambda>c. c \<noteq> nl) s"
  by (induction s rule: rev_induct) (auto simp: trim_right_byte_def)

lemma trim_left_filter: "filter (\<lambda>c. c \<noteq> nl) (trim_left_byte nl s) = filter (\<lambda>c. c \<noteq> nl) s"
  by (induction s) (auto simp: trim_left_byte_def)

lemma content_chunks_correct:
  "list_all (\<lambda>c. length c \<le> maxContentLen) (content_chunks s)
    \<and> filter (\<lambda>c. c \<noteq> nl) (concat (content_chunks s)) = filter (\<lambda>c. c \<noteq> nl) s"
proof (induction s rule: content_chunks.induct)
  case (1 s)
  show ?case
  proof (cases "s = [] \<or> length s \<le> maxContentLen")
    case False
    have "length (trim_right_byte nl (take (content_cut s) s)) \<le> maxContentLen"
      using length_trim_right_byte [of nl "take (content_cut s) s"] content_cut_le [of s] by simp
    moreover have "filter (\<lambda>c. c \<noteq> nl) (take (content_cut s) s) @ filter (\<lambda>c. c \<noteq> nl) (drop (content_cut s) s)
        = filter (\<lambda>c. c \<noteq> nl) s"
      by (simp flip: filter_append)
    ultimately show ?thesis
      using 1 False content_chunks.simps [of s] by (simp add: trim_right_filter trim_left_filter)
  qed (auto simp: content_chunks.simps [of s])
qed

lemma splitContent_correct:
  "list_all (\<lambda>c. length c \<le> maxContentLen) (splitContent s)
    \<and> filter (\<lambda>c. c \<noteq> nl) (concat (splitContent s)) = filter (\<lambda>c. c \<noteq> nl) s"
  using content_chunks_correct [of s] by (simp add: splitContent_def)


text \<open>
  How far a digest has got: \<open>css\<close> are the lines of the finished embeds, the rest is in the chunk, and
  the chunk fits an embed.
\<close>

definition split_inv :: "string \<Rightarrow> string list \<Rightarrow> splitting \<Rightarrow> bool" where
  "split_inv title seen s \<longleftrightarrow>
     (\<exists>css. [] \<notin> set css \<and> concat css @ sp_chunk s = seen
        \<and> map em_description (sp_embeds s) = map (join embedItemSeparator) css
        \<and> map em_title (sp_embeds s) = take (length css) (title # replicate (length css - 1) [])
        \<and> (sp_first s \<longleftrightarrow> css = []))
     \<and> length (join embedItemSeparator (sp_chunk s)) \<le> maxEmbedDescription"

lemma flush_inv:
  assumes "split_inv title seen s" and "length title \<le> maxEmbedTitle"
  shows "split_inv title seen (flush title color s)" and "sp_chunk (flush title color s) = []"
proof -
  show "sp_chunk (flush title color s) = []" by (simp add: flush_def)
  show "split_inv title seen (flush title color s)"
  proof (cases "sp_chunk s = []")
    case False
    from assms obtain css where css: "[] \<notin> set css" "concat css @ sp_chunk s = seen"
      "map em_description (sp_embeds s) = map (join embedItemSeparator) css"
      "map em_title (sp_embeds s) = take (length css) (title # replicate (length css - 1) [])"
      "sp_first s \<longleftrightarrow> css = []"
      and fits: "length (join embedItemSeparator (sp_chunk s)) \<le> maxEmbedDescription"
      by (auto simp: split_inv_def)
    let ?css = "css @ [sp_chunk s]"
    have "title # replicate (length css - 1) [] @ [[]] = title # replicate (length css) []" if "css \<noteq> []"
      using that by (cases css) (simp_all add: replicate_append_same)
    with css(4,5) assms(2)
    have titles: "map em_title (sp_embeds (flush title color s)) = take (length ?css) (title # replicate (length ?css - 1) [])"
      using False by (cases css) (auto simp: flush_def truncateRunes_short replicate_append_same)
    have "[] \<notin> set ?css \<and> concat ?css @ sp_chunk (flush title color s) = seen
        \<and> map em_description (sp_embeds (flush title color s)) = map (join embedItemSeparator) ?css
        \<and> (sp_first (flush title color s) \<longleftrightarrow> ?css = [])"
      using css False fits by (auto simp: flush_def truncateRunes_short)
    moreover have "length (join embedItemSeparator (sp_chunk (flush title color s))) \<le> maxEmbedDescription"
      using False by (simp add: flush_def)
    ultimately show ?thesis using titles unfolding split_inv_def by (intro conjI exI [of _ ?css]) auto
  qed (use assms in \<open>simp add: flush_def\<close>)
qed

lemma split_inv_add:
  "split_inv title seen s \<Longrightarrow> length (join embedItemSeparator (sp_chunk s @ [line])) \<le> maxEmbedDescription
    \<Longrightarrow> split_inv title (seen @ [line]) (s\<lparr>sp_chunk := sp_chunk s @ [line]\<rparr>)"
  unfolding split_inv_def by fastforce

lemma split_line_inv:
  assumes inv: "split_inv title seen s" and title: "length title \<le> maxEmbedTitle"
    and line: "length line \<le> maxEmbedDescription"
  shows "split_inv title (seen @ [line]) (split_line title color line s)"
proof -
  let ?long = "maxEmbedDescription < length (join embedItemSeparator (sp_chunk s @ [line])) + (if sp_first s then length title else 0)"
  define t where "t = (if ?long \<and> sp_chunk s \<noteq> [] then flush title color s else s)"
  have t: "split_inv title seen t" using inv title by (simp add: t_def flush_inv)
  have "length (join embedItemSeparator (sp_chunk t @ [line])) \<le> maxEmbedDescription"
    using line flush_inv(2) [OF inv title, of color] by (auto simp: t_def not_less split: if_splits)
  from split_inv_add [OF t this] have u: "split_inv title (seen @ [line]) (t\<lparr>sp_chunk := sp_chunk t @ [line]\<rparr>)" .
  have candidate: "(if sp_chunk s \<noteq> [] then join embedItemSeparator (sp_chunk s @ [line]) else line)
      = join embedItemSeparator (sp_chunk s @ [line])" by simp
  have "split_line title color line s =
      (let u = t\<lparr>sp_chunk := sp_chunk t @ [line]\<rparr> in
       if maxEmbedDescription < length (join embedItemSeparator (sp_chunk u)) + (if sp_first s then length title else 0)
       then flush title color u else u)"
    unfolding split_line_def Let_def t_def candidate ..
  then show ?thesis using u flush_inv(1) [OF u title] by (simp add: Let_def)
qed

lemma split_lines_inv:
  "split_inv title seen s \<Longrightarrow> length title \<le> maxEmbedTitle \<Longrightarrow> \<forall>l\<in>set ls. length l \<le> maxEmbedDescription
    \<Longrightarrow> split_inv title (seen @ ls) (fold (split_line title color) ls s)"
proof (induction ls arbitrary: seen s)
  case (Cons l ls)
  from Cons.prems split_line_inv have "split_inv title (seen @ [l]) (split_line title color l s)" by simp
  from Cons.IH [OF this] Cons.prems show ?case by simp
qed simp

lemma splitDigest_complete:
  assumes "lines \<noteq> []" and "length title \<le> maxEmbedTitle" and "\<forall>l\<in>set lines. length l \<le> maxEmbedDescription"
  shows "\<exists>css. [] \<notin> set css \<and> concat css = lines
    \<and> map em_description (splitDigestLinesIntoEmbeds title lines color) = map (join embedItemSeparator) css
    \<and> map em_title (splitDigestLinesIntoEmbeds title lines color) = title # replicate (length css - 1) []"
proof -
  let ?start = "\<lparr>sp_embeds = [], sp_first = True, sp_chunk = []\<rparr>"
  let ?s = "flush title color (fold (split_line title color) lines ?start)"
  have "split_inv title [] ?start" by (simp add: split_inv_def)
  from split_lines_inv [OF this assms(2,3)] have "split_inv title lines (fold (split_line title color) lines ?start)" by simp
  from flush_inv [OF this assms(2), of color] obtain css where css: "[] \<notin> set css" "concat css = lines"
    "map em_description (sp_embeds ?s) = map (join embedItemSeparator) css"
    "map em_title (sp_embeds ?s) = take (length css) (title # replicate (length css - 1) [])"
    unfolding split_inv_def by force
  moreover have "css \<noteq> []" using css(2) assms(1) by auto
  ultimately show ?thesis using assms(1)
    by (intro exI [of _ css]) (cases css; simp add: splitDigestLinesIntoEmbeds_def)
qed

section \<open>Properties\<close>

text \<open>
  C33. A digest is complete: when every update's line fits an embed by itself, the embeds of all
  messages together hold every line exactly once, in order and uncut, and the first embed alone
  carries the title.
\<close>

theorem discord_digest_complete:
  assumes "events \<noteq> []" and "\<forall>l\<in>set (digest_lines up events inst). length l \<le> 4096"
  shows "let embeds = concat (packEmbedsIntoMessages (buildDigestEmbeds up events inst color)) in
    \<exists>css. [] \<notin> set css \<and> concat css = digest_lines up events inst
      \<and> map em_description embeds = map (join embedItemSeparator) css
      \<and> map em_title embeds = digestTitle inst (length events) # replicate (length css - 1) []"
proof -
  have "length (digestTitle inst (length events)) \<le> maxEmbedTitle"
    by (simp add: digestTitle_def Let_def length_truncateRunes)
  from splitDigest_complete [OF _ this, of "digest_lines up events inst" color] assms show ?thesis
    by (simp add: pack_concat buildDigestEmbeds_def digest_lines_def maxEmbedDescription_def)
qed

definition demo_event :: update_available where
  "demo_event = \<lparr>u_container = \<lparr>c_id = ''c1'', c_name = ''web_1'', c_image_ref = ''r.io/a:1.0'', c_labels = []\<rparr>,
     u_host = ''r.io'', u_repo = ''a'', u_current_tag = ''1.0'', u_latest_tag = ''2.0'', u_bump = BumpMajor,
     u_local_digest = [], u_remote_digest = [], u_checked_at = 0\<rparr>"

lemma demo_event_lines:
  "\<forall>l\<in>set (digest_lines (\<lambda>_. Inl ErrEOF) [demo_event, demo_event] ''n''). length l \<le> 4096"
  by code_simp

theorem discord_digest_complete_witness:
  "\<exists>css. concat css = digest_lines (\<lambda>_. Inl ErrEOF) [demo_event, demo_event] ''n''
     \<and> map em_description (concat (packEmbedsIntoMessages (buildDigestEmbeds (\<lambda>_. Inl ErrEOF) [demo_event, demo_event] ''n'' 1)))
       = map (join embedItemSeparator) css"
  using discord_digest_complete [OF _ demo_event_lines, of 1] unfolding Let_def by blast

end
