(* ===== verification/Discord.thy ===== *)
theory Discord
  imports NotifierBase DiscordText
begin

text \<open>
  The Discord notifier (\<open>internal/notifier/discord/discord.go\<close> and the JSON part of \<open>payload.go\<close>):
  configuration, the bodies of a batch and their delivery. The record \<open>discord_tools\<close> holds the JSON
  encoder, the decoder of the \<open>retry_after\<close> field and the HTTP client with a timeout.
\<close>

definition discord_name :: string where "discord_name = ''discord''"

record 'w discord =
  dc_endpoint :: url
  dc_host :: string
  dc_instance :: string
  dc_mode :: string
  dc_format :: string
  dc_color :: int
  dc_username :: string
  dc_tmpl :: "(item_data template \<times> payload template) option"
  dc_client :: "'w client"
  dc_maxAttempts :: int
  dc_retryDelay :: duration

record webhookEmbed =
  we_title :: string
  we_description :: string
  we_color :: int

record webhookPayload =
  wp_content :: string
  wp_username :: string
  wp_embeds :: "webhookEmbed list"

record 'w discord_tools =
  dt_json :: "webhookPayload \<Rightarrow> go_error + string"
  dt_retry_after :: "string \<Rightarrow> rat option"
  dt_client :: "duration \<Rightarrow> 'w client"

section \<open>Configuration\<close>

definition discord_requireString :: "cfg_map \<Rightarrow> string \<Rightarrow> go_error + string" where
  "discord_requireString = require_string discord_name"

definition discord_optionalString :: "cfg_map \<Rightarrow> string \<Rightarrow> string \<Rightarrow> string" where
  "discord_optionalString = optional_string"

definition discord_optionalTemplate :: "cfg_map \<Rightarrow> string \<Rightarrow> string" where
  "discord_optionalTemplate cfg key = optional_template cfg key [] (\<lambda>s. s)"

definition discord_optionalDuration :: "(string \<Rightarrow> go_error + duration) \<Rightarrow> cfg_map \<Rightarrow> string \<Rightarrow> duration
    \<Rightarrow> go_error + duration" where
  "discord_optionalDuration = optional_duration discord_name"

definition discord_validateRetries :: "string \<Rightarrow> int \<Rightarrow> go_error + int" where
  "discord_validateRetries = non_negative discord_name"

definition validateColor :: "string \<Rightarrow> int \<Rightarrow> go_error + int" where
  "validateColor = non_negative discord_name"

definition discord_optionalInt :: "cfg_map \<Rightarrow> string \<Rightarrow> int \<Rightarrow> go_error + int" where
  "discord_optionalInt cfg key = optional_int discord_name (discord_validateRetries key) cfg key"

definition optionalColor :: "cfg_map \<Rightarrow> string \<Rightarrow> int \<Rightarrow> go_error + int" where
  "optionalColor cfg key = optional_int discord_name (validateColor key) cfg key"

definition discord_maxAttempts :: "int \<Rightarrow> int" where "discord_maxAttempts = max_attempts"

definition discord_host :: string where "discord_host = ''discord.com''"
definition discordapp_host :: string where "discordapp_host = ''discordapp.com''"

definition isDiscordHost :: "string \<Rightarrow> bool" where
  "isDiscordHost host =
     (let host = to_lower (trim_space host) in
      host = discord_host \<or> host = discordapp_host
      \<or> has_suffix host (CHR ''.'' # discord_host) \<or> has_suffix host (CHR ''.'' # discordapp_host))"

definition key_format :: string where "key_format = ''format''"
definition key_color :: string where "key_color = ''color''"
definition key_username :: string where "key_username = ''username''"
definition formatEmbed :: string where "formatEmbed = ''embed''"
definition formatContent :: string where "formatContent = ''content''"

definition discord_New :: "'w discord_tools \<Rightarrow> 'w tools \<Rightarrow> cfg_map \<Rightarrow> go_error + 'w discord" where
  "discord_New dt ts cfg =
     and_then (discord_requireString cfg key_url) (\<lambda>rawURL.
     and_then (wrap_error [Lit ''discord config: url: ''] (tl_url_parse ts rawURL)) (\<lambda>endpoint.
     if url_scheme endpoint \<noteq> https then Inl (config_error discord_name [Lit ''url scheme must be https''])
     else if url_host endpoint = [] then Inl (config_error discord_name [Lit ''url must include a host''])
     else if \<not> isDiscordHost (url_hostname endpoint) then
       Inl (config_error discord_name [Lit ''url host must be a Discord domain''])
     else
     let mode = discord_optionalString cfg key_mode modeDigest in
     if \<not> mode_ok mode then Inl (mode_error_for discord_name)
     else
     let formatName = discord_optionalString cfg key_format formatEmbed in
     if formatName \<noteq> formatEmbed \<and> formatName \<noteq> formatContent then
       Inl (config_error discord_name [Lit ''format must be '', Quoted formatEmbed, Lit '' or '', Quoted formatContent])
     else
     and_then (optionalColor cfg key_color defaultEmbedColor) (\<lambda>color.
     let body = discord_optionalTemplate cfg key_template in
     and_then (if body \<noteq> [] then
                 wrap_error [Lit ''discord config: template: '']
                   (case tl_web_template ts body of Inl err \<Rightarrow> Inl err | Inr t \<Rightarrow> Inr (Some t))
               else Inr None) (\<lambda>tmpl.
     and_then (discord_optionalDuration (tl_duration ts) cfg key_timeout defaultTimeout) (\<lambda>timeout.
     and_then (discord_optionalInt cfg key_retries DefaultRetries) (\<lambda>retries.
     and_then (discord_optionalDuration (tl_duration ts) cfg key_retry_delay DefaultRetryDelay) (\<lambda>retryDelay.
     Inr \<lparr>dc_endpoint = endpoint, dc_host = url_hostname endpoint,
          dc_instance = discord_optionalString cfg key_instance [], dc_mode = mode, dc_format = formatName,
          dc_color = color, dc_username = discord_optionalString cfg key_username [], dc_tmpl = tmpl,
          dc_client = dt_client dt timeout, dc_maxAttempts = discord_maxAttempts retries,
          dc_retryDelay = retryDelay\<rparr>)))))))"

section \<open>The bodies of a batch\<close>

definition payloadFromEmbeds :: "(webhookPayload \<Rightarrow> go_error + string) \<Rightarrow> embed list \<Rightarrow> string \<Rightarrow> go_error + string" where
  "payloadFromEmbeds json embeds username =
     json \<lparr>wp_content = [], wp_username = username,
       wp_embeds = map (\<lambda>e. \<lparr>we_title = em_title e, we_description = em_description e, we_color = em_color e\<rparr>) embeds\<rparr>"

text \<open>The loops that encode one body after the other and stop at the first error.\<close>

fun collect :: "('a \<Rightarrow> 'e + 'b) \<Rightarrow> 'a list \<Rightarrow> 'e + 'b list" where
  "collect f [] = Inr []"
| "collect f (x # xs) = and_then (f x) (\<lambda>y. and_then (collect f xs) (\<lambda>ys. Inr (y # ys)))"

definition buildContentMessages :: "(webhookPayload \<Rightarrow> go_error + string) \<Rightarrow> url_parser \<Rightarrow> update_available list
    \<Rightarrow> string \<Rightarrow> string \<Rightarrow> bool \<Rightarrow> go_error + string list" where
  "buildContentMessages json url_parse events instanceName username simple =
     and_then (renderContentText url_parse events instanceName simple) (\<lambda>text.
       collect (\<lambda>chunk. wrap_error [Lit ''marshal content payload: '']
           (json \<lparr>wp_content = chunk, wp_username = username, wp_embeds = []\<rparr>))
         (splitContent text))"

definition renderTemplateBodies :: "'w tools \<Rightarrow> 'w discord \<Rightarrow> item_data template \<times> payload template
    \<Rightarrow> update_available list \<Rightarrow> go_error + string list" where
  "renderTemplateBodies ts n tmpl events =
     and_then (wrap_error [Lit ''execute template: '']
         (if dc_mode n = modeSimple then
            fst tmpl (ItemFromEvent (tl_url_parse ts) (dc_instance n) (hd events) False)
          else snd tmpl (PayloadFromEvents (tl_url_parse ts) (dc_instance n) events))) (\<lambda>body. Inr [body])"

definition renderBodies :: "'w discord_tools \<Rightarrow> 'w tools \<Rightarrow> 'w discord \<Rightarrow> update_available list
    \<Rightarrow> go_error + string list" where
  "renderBodies dt ts n events =
     (case dc_tmpl n of
        Some tmpl \<Rightarrow> renderTemplateBodies ts n tmpl events
      | None \<Rightarrow>
          let simple = (dc_mode n = modeSimple) in
          if dc_format n = formatContent then
            buildContentMessages (dt_json dt) (tl_url_parse ts) events (dc_instance n) (dc_username n) simple
          else
            collect (\<lambda>batch. payloadFromEmbeds (dt_json dt) batch (dc_username n))
              (packEmbedsIntoMessages
                (if simple then buildSimpleEmbeds (tl_url_parse ts) events (dc_instance n) (dc_color n)
                 else buildDigestEmbeds (tl_url_parse ts) events (dc_instance n) (dc_color n))))"

section \<open>Delivery\<close>

definition retryAfterFromJSON :: "(string \<Rightarrow> rat option) \<Rightarrow> string \<Rightarrow> string" where
  "retryAfterFromJSON decode body =
     (case decode body of
        None \<Rightarrow> []
      | Some r \<Rightarrow>
          if r \<le> 0 then []
          else let seconds = float_to_int r in itoa (if seconds < 1 then 1 else seconds))"

definition discord_retry_after :: "(string \<Rightarrow> rat option) \<Rightarrow> http_response \<Rightarrow> string \<Rightarrow> string" where
  "discord_retry_after decode resp body =
     (if hr_retry_after resp = [] \<and> hr_status resp = 429 then retryAfterFromJSON decode body
      else hr_retry_after resp)"

definition discordClassifier :: "(string \<Rightarrow> int option) \<Rightarrow> int \<Rightarrow> attempt_result \<Rightarrow> outcome" where
  "discordClassifier = DefaultClassifier"

definition discord_request :: "'w tools \<Rightarrow> 'w discord \<Rightarrow> string \<Rightarrow> request" where
  "discord_request ts n body =
     \<lparr>rq_target = tl_url_string ts (dc_endpoint n),
      rq_headers = [(''Content-Type'', ''application/json'')], rq_body = body\<rparr>"

definition discord_retry_config :: "'w tools \<Rightarrow> 'w discord \<Rightarrow> 'w retry_config" where
  "discord_retry_config ts n =
     \<lparr>hc_max_attempts = dc_maxAttempts n, hc_retry_delay = dc_retryDelay n,
      hc_max_retry_after = DefaultMaxRetryAfter, hc_multiplier = DefaultBackoffMultiplier,
      hc_sleep = Some (sleepContext (tl_env ts)), hc_component = discord_name,
      hc_fields = [host_field (dc_host n)]\<rparr>"

definition discord_postWithRetry :: "'w discord_tools \<Rightarrow> 'w tools \<Rightarrow> 'w discord \<Rightarrow> ctx \<Rightarrow> string \<Rightarrow> 'w
    \<Rightarrow> go_error option \<times> 'w" where
  "discord_postWithRetry dt ts n c body w =
     (case Do (tl_env ts) c (discord_retry_config ts n) (discordClassifier (tl_http_time ts))
             (http_attempt (dc_client n) (discord_retry_after (dt_retry_after dt)) (discord_request ts n body)) w of
        (r, _, w) \<Rightarrow> (r, w))"

definition discord_sendBatch :: "'w discord_tools \<Rightarrow> 'w tools \<Rightarrow> 'w discord \<Rightarrow> ctx \<Rightarrow> update_available list \<Rightarrow> 'w
    \<Rightarrow> go_error option \<times> 'w" where
  "discord_sendBatch dt ts n c events w =
     (case renderBodies dt ts n events of
        Inl err \<Rightarrow> (Some err, e_log (tl_env ts) (render_failed discord_name [host_field (dc_host n)] err) w)
      | Inr bodies \<Rightarrow>
          log_failure (tl_env ts) (notify_failed discord_name [host_field (dc_host n), count_field events])
            (post_all (\<lambda>body. trim_space body = []) (discord_postWithRetry dt ts n) c bodies w))"

definition discord_Notify :: "'w discord_tools \<Rightarrow> 'w tools \<Rightarrow> 'w discord \<Rightarrow> ctx \<Rightarrow> update_available list \<Rightarrow> 'w
    \<Rightarrow> go_error option \<times> 'w" where
  "discord_Notify dt ts n =
     notify_by_mode (dc_mode n) (discord_sendBatch dt ts n) (discord_sendBatch dt ts n)"

lemma discord_post_below:
  "observes lg (tl_env ts) \<Longrightarrow> quiet_client lg (dc_client n) \<Longrightarrow> below lg LevelError (discord_postWithRetry dt ts n c body)"
  unfolding discord_postWithRetry_def [abs_def]
  by (rule Do_below [where f = "\<lambda>r. r"]) (simp_all add: http_attempt_quiet discord_retry_config_def)

interpretation discord_channel: push_channel "dc_mode n" "\<lambda>_. renderBodies dt ts n" "\<lambda>body. trim_space body = []"
    "discord_postWithRetry dt ts n" "\<lambda>_. discord_sendBatch dt ts n" "discord_Notify dt ts n"
    "\<lambda>c body. taken_by_server (dc_client n) c (discord_request ts n body)"
    "tl_env ts" "\<lambda>us err. [render_failed discord_name [host_field (dc_host n)] err]"
    "\<lambda>us. notify_failed discord_name [host_field (dc_host n), count_field us]"
  for dt ts n
proof
  show "taken_by_server (dc_client n) c (discord_request ts n m)"
    if "discord_postWithRetry dt ts n c m w = (None, w')" for c m w w'
    using that by (auto simp: discord_postWithRetry_def discordClassifier_def split: prod.splits intro: Do_taken)
  show "discord_sendBatch dt ts n c us w = (case renderBodies dt ts n us of
        Inl err \<Rightarrow> (Some err, fold (e_log (tl_env ts)) [render_failed discord_name [host_field (dc_host n)] err] w)
      | Inr ms \<Rightarrow> log_failure (tl_env ts) (notify_failed discord_name [host_field (dc_host n), count_field us])
          (post_all (\<lambda>body. trim_space body = []) (discord_postWithRetry dt ts n) c ms w))" for c us w
    by (simp add: discord_sendBatch_def split: sum.splits)
  show "discord_Notify dt ts n c us w
      = notify_by_mode (dc_mode n) (discord_sendBatch dt ts n) (discord_sendBatch dt ts n) c us w" for c us w
    by (simp add: discord_Notify_def)
qed

section \<open>Facts\<close>

lemma collect_Inr: "collect f xs = Inr ys \<longleftrightarrow> list_all2 (\<lambda>x y. f x = Inr y) xs ys"
  by (induction xs arbitrary: ys) (auto simp: list_all2_Cons1)

text \<open>A Discord notifier only ever talks to Discord, over TLS.\<close>

lemma discord_New_endpoint:
  "discord_New dt ts cfg = Inr n \<Longrightarrow> url_scheme (dc_endpoint n) = https \<and> isDiscordHost (url_hostname (dc_endpoint n))"
  by (auto simp: discord_New_def Let_def split: if_splits)

text \<open>The limits of the Discord API for a whole payload.\<close>

definition payload_fits :: "webhookPayload \<Rightarrow> bool" where
  "payload_fits p \<longleftrightarrow> length (wp_content p) \<le> 2000 \<and> length (wp_embeds p) \<le> 10
     \<and> (\<Sum>e\<leftarrow>wp_embeds p. length (we_title e) + length (we_description e)) \<le> 6000
     \<and> (\<forall>e\<in>set (wp_embeds p). length (we_title e) \<le> 256 \<and> length (we_description e) \<le> 4096)"

definition embed_payload :: "string \<Rightarrow> embed list \<Rightarrow> webhookPayload" where
  "embed_payload username m = \<lparr>wp_content = [], wp_username = username,
     wp_embeds = map (\<lambda>e. \<lparr>we_title = em_title e, we_description = em_description e, we_color = em_color e\<rparr>) m\<rparr>"

lemma message_payload_fits: "message_fits m \<Longrightarrow> payload_fits (embed_payload username m) \<and> wp_embeds (embed_payload username m) \<noteq> []"
  by (auto simp: message_fits_def payload_fits_def embed_payload_def embed_fits_def list_all_iff comp_def)

lemma embed_bodies:
  assumes "collect (\<lambda>m. payloadFromEmbeds json m username) ms = Inr bodies" and "list_all message_fits ms"
  shows "\<exists>ps. list_all2 (\<lambda>p body. json p = Inr body) ps bodies \<and> list_all (\<lambda>p. payload_fits p \<and> wp_embeds p \<noteq> []) ps"
proof (intro exI conjI)
  show "list_all2 (\<lambda>p body. json p = Inr body) (map (embed_payload username) ms) bodies"
    using assms(1) by (simp add: collect_Inr list.rel_map payloadFromEmbeds_def embed_payload_def)
  show "list_all (\<lambda>p. payload_fits p \<and> wp_embeds p \<noteq> []) (map (embed_payload username) ms)"
    using assms(2) message_payload_fits by (fastforce simp: list_all_iff)
qed

lemma content_bodies:
  assumes "collect (\<lambda>chunk. wrap_error m (json \<lparr>wp_content = chunk, wp_username = username, wp_embeds = []\<rparr>))
      (splitContent content) = Inr bodies"
  shows "\<exists>ps. list_all2 (\<lambda>p body. json p = Inr body) ps bodies \<and> list_all payload_fits ps
    \<and> filter (\<lambda>c. c \<noteq> nl) (concat (map wp_content ps)) = filter (\<lambda>c. c \<noteq> nl) content"
proof (intro exI conjI)
  let ?p = "\<lambda>chunk. \<lparr>wp_content = chunk, wp_username = username, wp_embeds = []\<rparr>"
  have "wrap_error m x = Inr y \<longleftrightarrow> x = Inr y" for x :: "go_error + string" and y
    by (cases x) (simp_all add: wrap_error_def)
  with assms show "list_all2 (\<lambda>p body. json p = Inr body) (map ?p (splitContent content)) bodies"
    by (simp add: collect_Inr list.rel_map)
  show "list_all payload_fits (map ?p (splitContent content))"
    using splitContent_correct [of content] by (auto simp: payload_fits_def list_all_iff maxContentLen_def)
  show "filter (\<lambda>c. c \<noteq> nl) (concat (map wp_content (map ?p (splitContent content)))) = filter (\<lambda>c. c \<noteq> nl) content"
    using splitContent_correct [of content] by (simp add: comp_def)
qed

section \<open>Properties\<close>

text \<open>
  C32. What Discord is sent by default fits what it accepts: without a template every body of a batch is
  the JSON of a payload within the limits of the API, a content of at most 2000 characters and at most 10
  embeds of together at most 6000, with titles of at most 256 and descriptions of at most 4096; an embed
  message has at least one embed, and in content format the pieces together lose nothing of the text but
  line breaks. (A template of the user replaces all this and is sent as it renders.)
\<close>

theorem discord_limits:
  assumes "dc_tmpl n = None" and "renderBodies dt ts n events = Inr bodies"
  shows "\<exists>ps. list_all2 (\<lambda>p body. dt_json dt p = Inr body) ps bodies \<and> list_all payload_fits ps
    \<and> (dc_format n \<noteq> formatContent \<longrightarrow> list_all (\<lambda>p. wp_embeds p \<noteq> []) ps)
    \<and> (dc_format n = formatContent \<longrightarrow> (\<exists>content.
        renderContentText (tl_url_parse ts) events (dc_instance n) (dc_mode n = modeSimple) = Inr content
        \<and> filter (\<lambda>c. c \<noteq> nl) (concat (map wp_content ps)) = filter (\<lambda>c. c \<noteq> nl) content))"
proof (cases "dc_format n = formatContent")
  case True
  with assms obtain content where
    "renderContentText (tl_url_parse ts) events (dc_instance n) (dc_mode n = modeSimple) = Inr content"
    "collect (\<lambda>chunk. wrap_error [Lit ''marshal content payload: '']
        (dt_json dt \<lparr>wp_content = chunk, wp_username = dc_username n, wp_embeds = []\<rparr>)) (splitContent content) = Inr bodies"
    by (auto simp: renderBodies_def buildContentMessages_def and_then_def split: sum.splits)
  with content_bodies [OF this(2)] True show ?thesis by auto
next
  case False
  have "list_all message_fits (packEmbedsIntoMessages
      (if dc_mode n = modeSimple then buildSimpleEmbeds (tl_url_parse ts) events (dc_instance n) (dc_color n)
       else buildDigestEmbeds (tl_url_parse ts) events (dc_instance n) (dc_color n)))"
    by (simp add: pack_fits simple_fits digest_fits)
  from embed_bodies [OF _ this, of "dt_json dt" "dc_username n" bodies] assms False show ?thesis
    by (auto simp: renderBodies_def Let_def list_all_iff)
qed

definition sample_discord_tools :: "'w discord_tools" where
  "sample_discord_tools = \<lparr>dt_json = \<lambda>p. Inr (wp_content p @ concat (map we_title (wp_embeds p))),
     dt_retry_after = \<lambda>_. None, dt_client = \<lambda>_. sample_client 204\<rparr>"

definition sample_discord :: "'w discord" where
  "sample_discord = \<lparr>dc_endpoint = sample_url, dc_host = discord_host, dc_instance = ''n'', dc_mode = modeDigest,
     dc_format = formatEmbed, dc_color = 1, dc_username = [], dc_tmpl = None, dc_client = sample_client 204,
     dc_maxAttempts = 1, dc_retryDelay = second\<rparr>"

theorem discord_limits_witness:
  "\<exists>bodies ps. renderBodies sample_discord_tools sample_tools sample_discord [demo_event, demo_event] = Inr bodies
     \<and> list_all payload_fits ps \<and> length bodies = length ps \<and> list_all (\<lambda>p. wp_embeds p \<noteq> []) ps"
proof -
  have ok: "collect (\<lambda>m. Inr (f m)) ms = Inr (map f ms)" for f :: "embed list \<Rightarrow> string" and ms
    by (induction ms) (simp_all add: and_then_def)
  have format: "dc_format (sample_discord :: int discord) \<noteq> formatContent" "dc_tmpl (sample_discord :: int discord) = None"
    by (simp_all add: sample_discord_def formatEmbed_def formatContent_def)
  then have "\<exists>bodies. renderBodies sample_discord_tools sample_tools sample_discord [demo_event, demo_event] = Inr bodies"
    by (simp add: renderBodies_def sample_discord_tools_def payloadFromEmbeds_def ok Let_def)
  then obtain bodies where
    run: "renderBodies sample_discord_tools sample_tools sample_discord [demo_event, demo_event] = Inr bodies" by blast
  with discord_limits [OF format(2) run] format(1) show ?thesis by (metis list_all2_lengthD)
qed

end
