(* ===== verification/Stdout.thy ===== *)
theory Stdout
  imports Format Diagnostics
begin

text \<open>
  The stdout notifier (\<open>internal/notifier/stdout/stdout.go\<close>): one log line per update. \<open>emit\<close> hands a line
  to the log.
\<close>

definition sha256_mark :: string where "sha256_mark = ''sha256:''"

definition stdout_shortDigest :: "string \<Rightarrow> string" where
  "stdout_shortDigest d = sha256_mark @ shortHex d @ ellipsis"

definition logOne :: "update_available \<Rightarrow> log_line" where
  "logOne u =
     (let image_ref = u_repo u @ '':'' @ u_current_tag u in
      if u_latest_tag u \<noteq> [] then
        LogLine LevelInfo ''container update''
          [(''container'', AttrStr (c_name (u_container u))), (''image'', AttrStr image_ref),
           (''latest'', AttrStr (u_latest_tag u)), (''host'', AttrStr (u_host u))]
      else
        LogLine LevelInfo ''container update''
          [(''container'', AttrStr (c_name (u_container u))), (''image'', AttrStr image_ref),
           (''host'', AttrStr (u_host u)), (''local'', AttrStr (stdout_shortDigest (u_local_digest u))),
           (''remote'', AttrStr (stdout_shortDigest (u_remote_digest u)))])"

fun stdout_Notify :: "(log_line \<Rightarrow> 'w \<Rightarrow> 'w) \<Rightarrow> 'c \<Rightarrow> update_available list \<Rightarrow> 'w \<Rightarrow> go_error option \<times> 'w" where
  "stdout_Notify emit c [] w = (None, w)"
| "stdout_Notify emit c (u # us) w = stdout_Notify emit c us (emit (logOne u) w)"

lemma stdout_Notify_lines: "stdout_Notify emit c us w = (None, fold emit (map logOne us) w)"
  by (induction us arbitrary: w) simp_all

end
