(* ===== verification/Notifiers.thy ===== *)
theory Notifiers
  imports App Gotify Ntfy Webhook Telegram Discord Stdout
begin

text \<open>
  The notifier plugins together (\<open>internal/notifier/notifier.go\<close> and the \<open>init\<close> functions of its plugins):
  the table of factories the application builds its notifiers from, and what a delivered pass means
  for the servers behind them.
\<close>

record 'w plugin_env =
  px_tools :: "'w tools"
  px_gotify_json :: "gotify_message \<Rightarrow> go_error + string"
  px_ntfy_json :: "ntfy_message \<Rightarrow> go_error + string"
  px_webhook_json :: "payload \<Rightarrow> go_error + string"
  px_discord :: "'w discord_tools"
  px_bot :: bot_tools

datatype 'w plugin =
    StdoutPlugin
  | GotifyPlugin "'w gotify"
  | NtfyPlugin "'w ntfy"
  | WebhookPlugin "'w webhook"
  | TelegramPlugin "'w telegram"
  | DiscordPlugin "'w discord"

fun plugin_Notify :: "'w plugin_env \<Rightarrow> 'w plugin \<Rightarrow> ctx \<Rightarrow> update_available list \<Rightarrow> 'w \<Rightarrow> go_error option \<times> 'w" where
  "plugin_Notify px StdoutPlugin = stdout_Notify (e_log (tl_env (px_tools px)))"
| "plugin_Notify px (GotifyPlugin n) = gotify_Notify (px_gotify_json px) (px_tools px) n"
| "plugin_Notify px (NtfyPlugin n) = ntfy_Notify (px_ntfy_json px) (px_tools px) n"
| "plugin_Notify px (WebhookPlugin n) = webhook_Notify (px_webhook_json px) (px_tools px) n"
| "plugin_Notify px (TelegramPlugin n) = telegram_Notify (px_bot px) (px_tools px) n"
| "plugin_Notify px (DiscordPlugin n) = discord_Notify (px_discord px) (px_tools px) n"

text \<open>What every \<open>init\<close> registers. \<open>map_sum\<close> wraps the constructed notifier into the interface.\<close>

definition factories :: "'w plugin_env \<Rightarrow> (string \<times> (cfg_map \<Rightarrow> go_error + 'w plugin)) list" where
  "factories px =
     [(''stdout'', \<lambda>cfg. Inr StdoutPlugin),
      (gotify_name, \<lambda>cfg. map_sum id GotifyPlugin (gotify_New (px_tools px) cfg)),
      (ntfy_name, \<lambda>cfg. map_sum id NtfyPlugin (ntfy_New (px_tools px) cfg)),
      (webhook_name, \<lambda>cfg. map_sum id WebhookPlugin (webhook_New (px_tools px) cfg)),
      (telegram_name, \<lambda>cfg. map_sum id TelegramPlugin (telegram_New (px_tools px) cfg)),
      (discord_name, \<lambda>cfg. map_sum id DiscordPlugin (discord_New (px_discord px) (px_tools px) cfg))]"

definition notifier_New :: "'w plugin_env \<Rightarrow> string \<Rightarrow> cfg_map \<Rightarrow> go_error + 'w plugin" where
  "notifier_New px name cfg =
     (case map_of (factories px) name of
        None \<Rightarrow> Inl (ErrText [Lit ''unknown notifier '', Quoted name])
      | Some factory \<Rightarrow> factory cfg)"

definition slot_of :: "'w plugin_env \<Rightarrow> 'w plugin \<Rightarrow> 'w notifierSlot" where
  "slot_of px p = \<lparr>ns_typ = [], ns_Notify = plugin_Notify px p\<rparr>"

definition make_slot :: "'w plugin_env \<Rightarrow> string \<Rightarrow> cfg_map \<Rightarrow> go_error + 'w notifierSlot" where
  "make_slot px name cfg = map_sum id (slot_of px) (notifier_New px name cfg)"

section \<open>What the servers accepted\<close>

text \<open>
  The batches a plugin makes of the updates it is given, and when such a batch was handed over: every
  message rendered from it was accepted by the server, blank messages aside.
\<close>

fun plugin_mode :: "'w plugin \<Rightarrow> string" where
  "plugin_mode StdoutPlugin = modeDigest"
| "plugin_mode (GotifyPlugin n) = go_mode n"
| "plugin_mode (NtfyPlugin n) = nt_mode n"
| "plugin_mode (WebhookPlugin n) = wh_mode n"
| "plugin_mode (TelegramPlugin n) = tg_mode n"
| "plugin_mode (DiscordPlugin n) = dc_mode n"

fun plugin_accepted :: "'w plugin_env \<Rightarrow> 'w plugin \<Rightarrow> ctx \<Rightarrow> update_available list \<Rightarrow> bool" where
  "plugin_accepted px StdoutPlugin c us \<longleftrightarrow> True"
| "plugin_accepted px (GotifyPlugin n) c us \<longleftrightarrow>
     handed_over (go_mode n) (\<lambda>_. gotify_bodies (px_gotify_json px) (px_tools px) n) (\<lambda>_. False)
       (\<lambda>c body. taken_by_server (go_client n) c (gotify_request (px_tools px) n body)) c us"
| "plugin_accepted px (NtfyPlugin n) c us \<longleftrightarrow>
     handed_over (nt_mode n) (ntfy_bodies (px_ntfy_json px) (px_tools px) n) (\<lambda>_. False)
       (\<lambda>c body. taken_by_server (nt_client n) c (ntfy_request (px_tools px) n body)) c us"
| "plugin_accepted px (WebhookPlugin n) c us \<longleftrightarrow>
     handed_over (wh_mode n)
       (\<lambda>_ us. and_then (webhook_renderBody (px_webhook_json px) (px_tools px) n us) (\<lambda>body. Inr [body]))
       (\<lambda>body. trim_space body = [])
       (\<lambda>c body. taken_by_server (wh_client n) c (webhook_request (px_tools px) n body)) c us"
| "plugin_accepted px (TelegramPlugin n) c us \<longleftrightarrow>
     handed_over (tg_mode n) (\<lambda>_ us. and_then (telegram_renderDigest (px_tools px) n us) (\<lambda>t. Inr [t]))
       (\<lambda>t. trim_space t = []) (accepted_by_api (px_bot px) n) c us"
| "plugin_accepted px (DiscordPlugin n) c us \<longleftrightarrow>
     handed_over (dc_mode n) (\<lambda>_. renderBodies (px_discord px) (px_tools px) n) (\<lambda>body. trim_space body = [])
       (\<lambda>c body. taken_by_server (dc_client n) c (discord_request (px_tools px) n body)) c us"

lemma plugin_delivers:
  "plugin_Notify px p c us w = (None, w') \<Longrightarrow> \<forall>b\<in>set (batches (plugin_mode p) us). plugin_accepted px p c b"
  by (cases p) (auto dest: gotify_channel.notify_delivers ntfy_channel.notify_delivers
      webhook_channel.notify_delivers telegram_channel.notify_delivers discord_channel.notify_delivers)

text \<open>A plugin stands for a configured notifier when its constructor made it from the configuration.\<close>

definition plugin_for :: "'w plugin_env \<Rightarrow> string \<Rightarrow> plugin_config \<Rightarrow> 'w plugin \<Rightarrow> bool" where
  "plugin_for px inst nc p \<longleftrightarrow>
     notifier_New px (pc_type nc) (set_key instance_key (AStr inst) (copyPluginConfig (pc_config nc))) = Inr p"

lemma notifiers_from_slots:
  "notifiers_from (make_slot px) inst i ncs = Inr slots \<Longrightarrow> nc \<in> set ncs
    \<Longrightarrow> \<exists>p slot. plugin_for px inst nc p \<and> slot \<in> set slots \<and> ns_Notify slot = plugin_Notify px p"
proof (induction ncs arbitrary: i slots)
  case (Cons x ncs)
  let ?cfg = "set_key instance_key (AStr inst) (copyPluginConfig (pc_config x))"
  from Cons.prems(1) obtain slot rest where s: "make_slot px (pc_type x) ?cfg = Inr slot"
      and rest: "notifiers_from (make_slot px) inst (Suc i) ncs = Inr rest" and slots: "slots = slot\<lparr>ns_typ := pc_type x\<rparr> # rest"
    by (auto split: sum.splits)
  show ?case
  proof (cases "nc = x")
    case True
    from s obtain p where "notifier_New px (pc_type x) ?cfg = Inr p" "slot = slot_of px p"
      by (auto simp: make_slot_def map_sum_def split: sum.splits)
    with True slots show ?thesis unfolding plugin_for_def by (auto simp: slot_of_def)
  next
    case False
    with Cons.IH [OF rest] Cons.prems(2) slots show ?thesis by auto
  qed
qed simp

lemma deliver_all_each:
  "\<forall>r\<in>set (fst (deliver_all slots c batch w)). r = None \<Longrightarrow> slot \<in> set slots
    \<Longrightarrow> \<exists>w1 w2. ns_Notify slot c batch w1 = (None, w2)"
proof (induction slots arbitrary: w)
  case (Cons x slots)
  obtain r w1 where x: "ns_Notify x c batch w = (r, w1)" by fastforce
  obtain rs w2 where d: "deliver_all slots c batch w1 = (rs, w2)" by fastforce
  from Cons.prems(1) x d have "r = None" "\<forall>r\<in>set rs. r = None" by auto
  with Cons.IH [of w1] Cons.prems(2) x d show ?case by auto
qed simp

section \<open>What is logged\<close>

text \<open>The HTTP client of a plugin logs nothing by itself.\<close>

fun plugin_quiet :: "('w \<Rightarrow> log_line list) \<Rightarrow> 'w plugin \<Rightarrow> bool" where
  "plugin_quiet lg StdoutPlugin \<longleftrightarrow> True"
| "plugin_quiet lg (GotifyPlugin n) \<longleftrightarrow> quiet_client lg (go_client n)"
| "plugin_quiet lg (NtfyPlugin n) \<longleftrightarrow> quiet_client lg (nt_client n)"
| "plugin_quiet lg (WebhookPlugin n) \<longleftrightarrow> quiet_client lg (wh_client n)"
| "plugin_quiet lg (TelegramPlugin n) \<longleftrightarrow> quiet_client lg (tg_client n)"
| "plugin_quiet lg (DiscordPlugin n) \<longleftrightarrow> quiet_client lg (dc_client n)"

text \<open>The errors that are returned without a line of their own: a message that could not be encoded.\<close>

definition encode_error :: "go_error \<Rightarrow> bool" where
  "encode_error err \<longleftrightarrow> (\<exists>cause. err = ErrWrap [Lit ''gotify encode: ''] cause \<or> err = ErrWrap [Lit ''ntfy encode: ''] cause)"

definition says_error :: "go_error \<Rightarrow> log_line list \<Rightarrow> bool" where
  "says_error err ls \<longleftrightarrow> (\<exists>what info. ls = [LogLine LevelError what (info @ [(''error'', AttrErr err)])])"

lemma says_error_simps [simp]:
  "says_error err [render_failed name info err]" "says_error err [notify_failed name info err]" "\<not> says_error err []"
  by (auto simp: says_error_def render_failed_def notify_failed_def)

lemma gotify_silent: "gotify_bodies json ts n us = Inl err \<Longrightarrow> \<not> isl (gotify_renderDigest ts n us) \<Longrightarrow> encode_error err"
  by (auto simp: gotify_bodies_def and_then_def wrap_error_def encode_error_def split: sum.splits if_splits)

lemma ntfy_silent: "ntfy_bodies json ts n b us = Inl err \<Longrightarrow> \<not> isl (ntfy_renderDigest ts n us) \<Longrightarrow> encode_error err"
  by (auto simp: ntfy_bodies_def and_then_def wrap_error_def encode_error_def split: sum.splits if_splits)

definition told :: "go_error \<Rightarrow> log_line list \<Rightarrow> bool" where
  "told err fs \<longleftrightarrow> says_error err fs \<or> (fs = [] \<and> encode_error err)"

section \<open>Properties\<close>

text \<open>
  C28. What the daemon remembers as announced was accepted: when a scheduled pass turns an update it
  found from new into known, then for every configured notifier the messages rendered from the batches
  of this pass, which contain the update, were accepted by the notifier's server (with a 2xx answer;
  Telegram: with \<open>ok\<close>), blank messages aside.
\<close>

theorem announced_was_accepted:
  assumes "notifiers_from (make_slot px) inst 0 ncs = Inr (ap_notifiers app)"
    and "runPass n app c True scheduled s = Some (r, s')"
    and "RunOnce n (ap_engine app) c (rs_diag s) (rs_world s) = Some (Inr (ups, ks, cp), d, w)"
    and "u \<in> set ups" and "isNew (rs_store s) u" and "\<not> isNew (rs_store s') u"
  shows "\<forall>nc\<in>set ncs. \<exists>p. plugin_for px inst nc p
    \<and> u \<in> set (concat (batches (plugin_mode p) (fst (Filter (rs_store s) ups))))
    \<and> (\<forall>b\<in>set (batches (plugin_mode p) (fst (Filter (rs_store s) ups))). plugin_accepted px p c b)"
proof
  fix nc assume "nc \<in> set ncs"
  from notifiers_from_slots [OF assms(1) this] obtain p slot where p: "plugin_for px inst nc p"
    "slot \<in> set (ap_notifiers app)" "ns_Notify slot = plugin_Notify px p" by blast
  have "all_delivered app c (fst (Filter (rs_store s) ups)) w"
    using undelivered_keeps [OF assms(2,3) _ assms(5)] assms(6) by blast
  with deliver_all_each p(2,3) obtain w1 w2 where "plugin_Notify px p c (fst (Filter (rs_store s) ups)) w1 = (None, w2)"
    unfolding all_delivered_def by metis
  from plugin_delivers [OF this] p(1) assms(4,5)
  show "\<exists>p. plugin_for px inst nc p
    \<and> u \<in> set (concat (batches (plugin_mode p) (fst (Filter (rs_store s) ups))))
    \<and> (\<forall>b\<in>set (batches (plugin_mode p) (fst (Filter (rs_store s) ups))). plugin_accepted px p c b)"
    unfolding batches_concat by (intro exI [of _ p]) (auto simp: Filter_def)
qed

text \<open>
  C31. A failed delivery is logged once, at its end: whatever a notifier logs before - its updates, or
  the warnings of its retries - is below the error level; a delivery without an error ends there, and
  an error is the last field of one last line at the error level. Only a message that Gotify or ntfy
  cannot encode is returned without such a line.
\<close>

theorem failed_delivery_logged:
  assumes "observes lg (tl_env (px_tools px))" and "plugin_quiet lg p" and "plugin_Notify px p c us w = (r, w')"
  shows "\<exists>ls fs. lg w' = lg w @ ls @ fs \<and> (\<forall>l\<in>set ls. line_level l < LevelError)
    \<and> (case r of None \<Rightarrow> fs = [] | Some err \<Rightarrow> told err fs)"
proof (cases p)
  case StdoutPlugin
  have "lg (fold (e_log (tl_env (px_tools px))) ls w) = lg w @ ls" for ls
    using assms(1) by (induction ls arbitrary: w) simp_all
  moreover have "line_level (logOne u) < LevelError" for u
    by (simp add: logOne_def Let_def less_level_def level_num_def)
  ultimately show ?thesis
    using assms(3) StdoutPlugin by (intro exI [of _ "map logOne us"] exI [of _ "[]"]) (auto simp: stdout_Notify_lines)
next
  case (GotifyPlugin n)
  show ?thesis
    by (rule gotify_channel.notify_says [OF assms(1) gotify_post_below [OF assms(1)]])
      (use assms(2,3) GotifyPlugin gotify_silent in \<open>auto simp: told_def\<close>)
next
  case (NtfyPlugin n)
  show ?thesis
    by (rule ntfy_channel.notify_says [OF assms(1) ntfy_post_below [OF assms(1)]])
      (use assms(2,3) NtfyPlugin ntfy_silent in \<open>auto simp: told_def\<close>)
next
  case (WebhookPlugin n)
  show ?thesis
    by (rule webhook_channel.notify_says [OF assms(1) webhook_post_below [OF assms(1)]])
      (use assms(2,3) WebhookPlugin in \<open>auto simp: told_def\<close>)
next
  case (TelegramPlugin n)
  show ?thesis
    by (rule telegram_channel.notify_says [OF assms(1) telegram_post_below [OF assms(1)]])
      (use assms(2,3) TelegramPlugin in \<open>auto simp: told_def\<close>)
next
  case (DiscordPlugin n)
  show ?thesis
    by (rule discord_channel.notify_says [OF assms(1) discord_post_below [OF assms(1)]])
      (use assms(2,3) DiscordPlugin in \<open>auto simp: told_def\<close>)
qed

definition plugins_on :: "'w env \<Rightarrow> 'w plugin_env" where
  [simp]: "plugins_on e =
     \<lparr>px_tools = tools_on e, px_gotify_json = \<lambda>m. Inr (gm_message m), px_ntfy_json = \<lambda>m. Inr (nm_message m),
      px_webhook_json = \<lambda>p. Inr ''x'',
      px_discord = \<lparr>dt_json = \<lambda>p. Inr (wp_content p), dt_retry_after = \<lambda>_. None, dt_client = \<lambda>_. sample_client 200\<rparr>,
      px_bot = sample_bot_tools\<rparr>"

theorem failed_delivery_logged_witness:
  "\<exists>err w' ls fs. plugin_Notify (plugins_on noted_env) (TelegramPlugin (bot_on (sample_client 500) 1)) None [undefined] (0, [])
     = (Some err, w') \<and> snd w' = ls @ fs \<and> told err fs"
proof -
  let ?px = "plugins_on noted_env" and ?n = "bot_on (sample_client 500) 1 :: (int \<times> log_line list) telegram"
  have "telegram_renderDigest (px_tools ?px) ?n [u] = Inr ''x''" for u
    by (simp add: telegram_renderDigest_def render_digest_def and_then_def wrap_error_def trim_right_byte_def)
  moreover have "trim_space ''x'' \<noteq> []" by code_simp
  moreover have "fst (sendMessageWithRetry (px_bot ?px) (px_tools ?px) ?n None ''x'' (0, [])) \<noteq> None"
    by (simp add: sendMessageWithRetry_def Do_def withDefaults_def telegram_retry_config_def sample_client_def
        sendMessageOnce_def http_attempt_def read_limited_def telegram_request_def Let_def noted_env_def clock_env_def
        classifyTelegramResponse_def sample_bot_tools_def failure_def)
  moreover have "tg_mode ?n = modeDigest" by simp
  ultimately have "fst (telegram_Notify (px_bot ?px) (px_tools ?px) ?n None [undefined] (0, [])) \<noteq> None"
    by (auto simp: telegram_Notify_def notify_by_mode_def telegram_sendBatch_def log_failure_def
        simp del: plugins_on_def bot_on_def split: option.splits prod.splits)
  then obtain err w' where run: "plugin_Notify ?px (TelegramPlugin ?n) None [undefined] (0, []) = (Some err, w')"
    by (metis not_None_eq plugin_Notify.simps(5) prod.collapse)
  from failed_delivery_logged [of snd ?px "TelegramPlugin ?n", OF _ _ run] run show ?thesis by auto
qed

definition sample_plugins :: "int plugin_env" where "sample_plugins = plugins_on clock_env"

definition sample_notifiers :: "plugin_config list" where
  "sample_notifiers = [\<lparr>pc_type = ''webhook'', pc_config = [(''url'', AStr ''u'')]\<rparr>]"

lemma sample_webhook:
  "\<exists>n. webhook_New sample_tools [(''url'', AStr ''u''), (''instance_name'', AStr ''n'')] = Inr n
     \<and> wh_client n = sample_client 200 \<and> wh_tmpl n = None \<and> wh_mode n = modeDigest \<and> 0 < wh_maxAttempts n"
proof -
  have u: "trim_space ''u'' = ''u''" by code_simp
  show ?thesis
    by (simp add: webhook_New_def and_then_def wrap_error_def Let_def webhook_requireString_def require_string_def
        key_url_def u sample_tools_def sample_url_def webhook_scheme_def webhook_optionalString_def
        optional_string_def key_mode_def mode_ok_def modeDigest_def webhook_optionalTemplate_def optional_template_def
        key_template_def parseHeaders_def key_headers_def webhook_optionalDuration_def optional_duration_def
        key_timeout_def webhook_optionalInt_def optional_int_def key_retries_def DefaultRetries_def
        key_retry_delay_def key_proxy_def webhook_maxAttempts_def max_attempts_def)
qed

lemma sample_slots:
  "\<exists>slots. notifiers_from (make_slot sample_plugins) ''n'' 0 sample_notifiers = Inr slots
     \<and> (\<forall>us w. us \<noteq> [] \<longrightarrow> (\<forall>r\<in>set (fst (deliver_all slots None us w)). r = None))"
proof -
  obtain n where n: "webhook_New sample_tools [(''url'', AStr ''u''), (''instance_name'', AStr ''n'')] = Inr n"
    "wh_client n = sample_client 200" "wh_tmpl n = None" "wh_mode n = modeDigest" "0 < wh_maxAttempts n"
    using sample_webhook by blast
  from n(5) obtain k where k: "nat (wh_maxAttempts n) = Suc k" using gr0_implies_Suc by force
  have "fst (webhook_postWithRetry sample_tools n None b w) = None" for b w
    using n(5) by (simp add: webhook_postWithRetry_def Do_def withDefaults_def webhook_retry_config_def k n(2)
        sample_client_def sample_tools_def clock_env_def http_attempt_def read_limited_def DefaultClassifier_def success_def Let_def
        split: prod.splits)
  then have post: "\<exists>w'. webhook_postWithRetry sample_tools n None b w = (None, w')" for b w
    by (metis prod.collapse)
  let ?p = "WebhookPlugin n"
  have "trim_space ''x'' \<noteq> []" by code_simp
  with post [unfolded sample_tools_def tools_on_def] have deliver: "\<exists>w'. plugin_Notify sample_plugins ?p None us w = (None, w')" if "us \<noteq> []" for us w
    using that by (simp add: webhook_Notify_def notify_by_mode_def n(3,4) webhook_sendBatch_def webhook_renderBody_def
        sample_plugins_def)
  have "notifier_New sample_plugins ''webhook'' [(''url'', AStr ''u''), (''instance_name'', AStr ''n'')] = Inr ?p"
    using n(1) [unfolded sample_tools_def tools_on_def]
    by (simp add: notifier_New_def factories_def sample_plugins_def gotify_name_def ntfy_name_def webhook_name_def)
  then have "notifiers_from (make_slot sample_plugins) ''n'' 0 sample_notifiers
      = Inr [(slot_of sample_plugins ?p)\<lparr>ns_typ := ''webhook''\<rparr>]"
    by (simp add: sample_notifiers_def make_slot_def copyPluginConfig_def instance_key_def)
  moreover have "\<forall>r\<in>set (fst (deliver_all [(slot_of sample_plugins ?p)\<lparr>ns_typ := ''webhook''\<rparr>] None us w)). r = None"
    if "us \<noteq> []" for us w
    using deliver [OF that, of w] by (auto simp: slot_of_def split: prod.splits)
  ultimately show ?thesis by blast
qed

theorem announced_was_accepted_witness:
  "\<exists>p. plugin_for sample_plugins ''n'' (hd sample_notifiers) p
     \<and> (\<forall>b\<in>set (batches (plugin_mode p) [tagged_update]). plugin_accepted sample_plugins p None b)"
proof -
  obtain slots where slots: "notifiers_from (make_slot sample_plugins) ''n'' 0 sample_notifiers = Inr slots"
    and ok: "us \<noteq> [] \<longrightarrow> (\<forall>r\<in>set (fst (deliver_all slots None us w)). r = None)" for us w
    using sample_slots by blast
  let ?app = "(demo_app None)\<lparr>ap_notifiers := slots\<rparr>"
  obtain d w where once: "RunOnce 1 (ap_engine ?app) None (rs_diag demo_state) (rs_world demo_state)
      = Some (Inr ([tagged_update], [''web|ghcr.io/a/b''], True), d, w)"
    using tagged_pass [of demo_diag] by auto
  obtain r s' where p: "runPass 1 ?app None True scheduled demo_state = Some (r, s')"
    using runPass_defined [OF once] by blast
  have new: "isNew (rs_store demo_state) tagged_update"
    by (simp add: isNew_def demo_state_def emptyData_def)
  then have f: "fst (Filter (rs_store demo_state) [tagged_update]) = [tagged_update]" by (simp add: Filter_def)
  have "fst (Filter (rs_store s') [tagged_update]) = []"
    using delivered_known [OF p once] ok [of "[tagged_update]" w] by (simp add: f all_delivered_def tagged_repos)
  then have "\<not> isNew (rs_store s') tagged_update" by (simp add: Filter_def split: if_splits)
  from announced_was_accepted [OF _ p once _ new this, of sample_plugins "''n''" sample_notifiers] slots f
  show ?thesis by (auto simp: sample_notifiers_def)
qed

end
