(* ===== verification/HangTrace.thy ===== *)
theory HangTrace
  imports World HttpRetry
begin

text \<open>
  The record of a registry request (\<open>internal/registry/oci/hang_trace.go\<close> and \<open>errors.go\<close>): its trace
  events, the phase it has reached, the snapshot of it, and the sink that collects the snapshots of one
  listing. The transport that records requests is in \<open>RegistryHttp\<close>. \<open>text_of\<close> is the text of an error.
\<close>

section \<open>Errors\<close>

fun index_from :: "nat \<Rightarrow> string \<Rightarrow> string \<Rightarrow> nat option" where
  "index_from i [] p = (if p = [] then Some i else None)"
| "index_from i (c # s) p = (if has_prefix (c # s) p then Some i else index_from (Suc i) s p)"

definition index_of :: "string \<Rightarrow> string \<Rightarrow> nat option" where "index_of s p = index_from 0 s p"

definition is_url_error :: "go_error \<Rightarrow> bool" where
  "is_url_error e = (case e of ErrUrl _ _ _ \<Rightarrow> True | _ \<Rightarrow> False)"

text \<open>A nil cause of a \<open>url.Error\<close> does not occur in the model's errors.\<close>

definition sanitizeRegistryErr :: "(go_error \<Rightarrow> string) \<Rightarrow> go_error option \<Rightarrow> string" where
  "sanitizeRegistryErr text_of err =
     (case err of
        None \<Rightarrow> []
      | Some e \<Rightarrow>
          (case find is_url_error (err_chain e) of
             Some (ErrUrl op u cause) \<Rightarrow> op @ '' '' @ u @ '': '' @ text_of cause
           | _ \<Rightarrow> text_of e))"

definition header_timeout_text :: string where "header_timeout_text = ''timeout awaiting response headers''"

definition isResponseHeaderTimeout :: "(go_error \<Rightarrow> string) \<Rightarrow> go_error option \<Rightarrow> bool" where
  "isResponseHeaderTimeout text_of err =
     (case err of
        None \<Rightarrow> False
      | Some e \<Rightarrow> \<not> err_is e ErrCanceled \<and> index_of (text_of e) header_timeout_text \<noteq> None)"

section \<open>The recorder of one request\<close>

text \<open>
  A connection is its number, under TLS with the number of the connection it runs over, if there is one
  (\<open>NetConn\<close>). \<open>GotConn\<close> reports one with its remote address, or none.
\<close>

datatype net_conn = PlainConn nat | TLSConn nat "nat option"

datatype trip_event =
    DNSStart | DNSDone | ConnectStart | ConnectDone string "go_error option"
  | TLSHandshakeStart | TLSHandshakeDone "go_error option"
  | GotConn bool bool duration "(net_conn \<times> string) option"
  | WroteRequest | GotFirstResponseByte

record trip_recorder =
  tr_start :: int
  tr_host :: string
  tr_path :: string
  tr_phase :: string
  tr_dns :: "int option"
  tr_connect :: "int option"
  tr_tls :: "int option"
  tr_gotConn :: "int option"
  tr_wrote :: "int option"
  tr_first :: "int option"
  tr_reused :: bool
  tr_wasIdle :: bool
  tr_idle :: duration
  tr_remote :: string
  tr_conn :: "net_conn option"

definition ph_dial :: string where "ph_dial = ''dial''"
definition ph_dns :: string where "ph_dns = ''dns''"
definition ph_connect :: string where "ph_connect = ''connect''"
definition ph_tls :: string where "ph_tls = ''tls''"
definition ph_got_conn :: string where "ph_got_conn = ''got_conn''"
definition ph_waiting :: string where "ph_waiting = ''waiting_headers''"
definition ph_body :: string where "ph_body = ''reading_body''"

definition new_recorder :: "int \<Rightarrow> string \<Rightarrow> string \<Rightarrow> trip_recorder" where
  "new_recorder now host path =
     \<lparr>tr_start = now, tr_host = host, tr_path = path, tr_phase = ph_dial, tr_dns = None, tr_connect = None,
      tr_tls = None, tr_gotConn = None, tr_wrote = None, tr_first = None, tr_reused = False, tr_wasIdle = False,
      tr_idle = 0, tr_remote = [], tr_conn = None\<rparr>"

fun clientTrace :: "int \<Rightarrow> trip_event \<Rightarrow> trip_recorder \<Rightarrow> trip_recorder" where
  "clientTrace now DNSStart r = r\<lparr>tr_dns := Some now, tr_phase := ph_dns\<rparr>"
| "clientTrace now DNSDone r = r\<lparr>tr_phase := ph_connect\<rparr>"
| "clientTrace now ConnectStart r =
     r\<lparr>tr_connect := (case tr_connect r of None \<Rightarrow> Some now | Some t \<Rightarrow> Some t), tr_phase := ph_connect\<rparr>"
| "clientTrace now (ConnectDone addr err) r =
     r\<lparr>tr_remote := addr, tr_phase := (if err \<noteq> None then ph_connect else ph_tls)\<rparr>"
| "clientTrace now TLSHandshakeStart r = r\<lparr>tr_tls := Some now, tr_phase := ph_tls\<rparr>"
| "clientTrace now (TLSHandshakeDone err) r = r\<lparr>tr_phase := (if err \<noteq> None then ph_tls else ph_got_conn)\<rparr>"
| "clientTrace now (GotConn reused wasIdle idle conn) r =
     r\<lparr>tr_gotConn := Some now, tr_reused := reused, tr_wasIdle := wasIdle, tr_idle := idle,
       tr_conn := (case conn of None \<Rightarrow> tr_conn r | Some (n, _) \<Rightarrow> Some n),
       tr_remote := (case conn of None \<Rightarrow> tr_remote r | Some (_, a) \<Rightarrow> a), tr_phase := ph_got_conn\<rparr>"
| "clientTrace now WroteRequest r = r\<lparr>tr_wrote := Some now, tr_phase := ph_waiting\<rparr>"
| "clientTrace now GotFirstResponseByte r = r\<lparr>tr_first := Some now, tr_phase := ph_body\<rparr>"

definition trace_all :: "(int \<times> trip_event) list \<Rightarrow> trip_recorder \<Rightarrow> trip_recorder" where
  "trace_all evs r = fold (\<lambda>(now, ev). clientTrace now ev) evs r"

section \<open>Snapshots and the sink\<close>

record trip_snapshot =
  sn_host :: string
  sn_path :: string
  sn_phase :: string
  sn_duration :: duration
  sn_reused :: bool
  sn_wasIdle :: bool
  sn_idle :: duration
  sn_remote :: string
  sn_err :: string

definition snapshot :: "(go_error \<Rightarrow> string) \<Rightarrow> int \<Rightarrow> go_error option \<Rightarrow> trip_recorder \<Rightarrow> trip_snapshot" where
  "snapshot text_of now err r =
     \<lparr>sn_host = tr_host r, sn_path = tr_path r, sn_phase = (if tr_phase r = [] then ph_dial else tr_phase r),
      sn_duration = saturate (now - tr_start r), sn_reused = tr_reused r, sn_wasIdle = tr_wasIdle r,
      sn_idle = tr_idle r, sn_remote = tr_remote r, sn_err = sanitizeRegistryErr text_of err\<rparr>"

record trip_sink =
  sk_trips :: int
  sk_last :: trip_snapshot

definition record_trip :: "trip_snapshot \<Rightarrow> trip_sink \<Rightarrow> trip_sink" where
  "record_trip snap s = \<lparr>sk_trips = sk_trips s + 1, sk_last = snap\<rparr>"

text \<open>\<open>Duration.Milliseconds\<close> truncates.\<close>

definition milliseconds :: "duration \<Rightarrow> int" where
  "milliseconds d = (if 0 \<le> d then d div 1000000 else - (- d div 1000000))"

definition flag_text :: "bool \<Rightarrow> string" where "flag_text b = (if b then ''true'' else ''false'')"

definition slogAttrs :: "trip_sink option \<Rightarrow> (string \<times> attr) list" where
  "slogAttrs sink =
     (case sink of
        None \<Rightarrow> []
      | Some s \<Rightarrow>
          if sk_trips s = 0 then []
          else
            [(''http_trips'', AttrNum (sk_trips s)), (''last_phase'', AttrStr (sn_phase (sk_last s))),
             (''last_ms'', AttrNum (milliseconds (sn_duration (sk_last s)))),
             (''last_path'', AttrStr (sn_path (sk_last s))), (''reused'', AttrStr (flag_text (sn_reused (sk_last s))))]
            @ (if sn_wasIdle (sk_last s) then [(''idle_ms'', AttrNum (milliseconds (sn_idle (sk_last s))))] else [])
            @ (if sn_remote (sk_last s) \<noteq> [] then [(''remote'', AttrStr (sn_remote (sk_last s)))] else []))"

definition new_sink :: trip_sink where
  "new_sink =
     \<lparr>sk_trips = 0,
      sk_last = \<lparr>sn_host = [], sn_path = [], sn_phase = [], sn_duration = 0, sn_reused = False, sn_wasIdle = False,
        sn_idle = 0, sn_remote = [], sn_err = []\<rparr>\<rparr>"

section \<open>What is logged of a request\<close>

definition cut_at :: "string \<Rightarrow> string \<Rightarrow> string option" where
  "cut_at path mark = map_option (\<lambda>i. take i path) (index_of path mark)"

definition repoFromRegistryPath :: "string \<Rightarrow> string" where
  "repoFromRegistryPath path =
     (let path = trim_prefix path ''/v2/'' in
      case cut_at path ''/tags/list'' of Some repo \<Rightarrow> repo | None \<Rightarrow>
     (case cut_at path ''/manifests/'' of Some repo \<Rightarrow> repo | None \<Rightarrow>
     (case cut_at path ''/blobs/'' of Some repo \<Rightarrow> repo | None \<Rightarrow> path)))"

text \<open>What the debug line of a request says.\<close>

definition snapshot_attrs :: "trip_snapshot \<Rightarrow> (string \<times> attr) list" where
  "snapshot_attrs s =
     [(''host'', AttrStr (sn_host s)), (''path'', AttrStr (sn_path s)), (''phase'', AttrStr (sn_phase s)),
      (''duration'', AttrNum (sn_duration s)), (''reused'', AttrStr (flag_text (sn_reused s)))]
     @ (if sn_wasIdle s then [(''idle_ms'', AttrNum (milliseconds (sn_idle s)))] else [])
     @ (if sn_remote s \<noteq> [] then [(''remote'', AttrStr (sn_remote s))] else [])
     @ (if sn_err s \<noteq> [] then [(''err'', AttrStr (sn_err s))] else [])"

section \<open>Facts\<close>

lemma phase_known:
  assumes "r = trace_all evs (new_recorder now host path)"
  shows "tr_phase r \<in> {ph_dial, ph_dns, ph_connect, ph_tls, ph_got_conn, ph_waiting, ph_body}"
proof -
  have step: "tr_phase (clientTrace t ev r) \<in> {ph_dns, ph_connect, ph_tls, ph_got_conn, ph_waiting, ph_body}" for t ev r
    by (cases ev) auto
  have "tr_phase r \<in> insert ph_dial {ph_dns, ph_connect, ph_tls, ph_got_conn, ph_waiting, ph_body}
      \<Longrightarrow> tr_phase (trace_all evs r) \<in> insert ph_dial {ph_dns, ph_connect, ph_tls, ph_got_conn, ph_waiting, ph_body}" for r
    unfolding trace_all_def
  proof (induction evs arbitrary: r)
    case (Cons e evs)
    obtain t ev where e: "e = (t, ev)" by fastforce
    from Cons.IH [of "clientTrace t ev r"] step [of t ev r] show ?case by (auto simp: e)
  qed simp
  from this [of "new_recorder now host path"] assms show ?thesis by (simp add: new_recorder_def)
qed

end
