(* ===== verification/RegistryHttp.thy ===== *)
theory RegistryHttp
  imports Transport HangTrace
begin

text \<open>
  The HTTP stack of a registry client (\<open>internal/registry/oci/retry_after.go\<close> and the transport of
  \<open>hang_trace.go\<close>): a transport of \<open>net/http\<close>, inside one that keeps the \<open>Retry-After\<close> of a 429, inside one
  that records every request, tells a sink and the debug log about it, and closes a connection on which
  the server does not answer. What \<open>net/http\<close> itself does is the record \<open>net\<close>.
\<close>

section \<open>Requests, responses and the network\<close>

record 'w logger =
  lg_debug :: bool
  lg_put :: "log_line \<Rightarrow> 'w \<Rightarrow> 'w"

text \<open>
  The context of a request: its deadline, the logger it carries, and whether it points to the sink of the
  call it belongs to. The sink itself is shared by all requests of the call and is kept beside the world.
\<close>

record 'w trip_ctx =
  cx_ctx :: ctx
  cx_sink :: bool
  cx_log :: "'w logger option"

record 'w traced =
  td_world :: 'w
  td_sink :: trip_sink

record http_call =
  hq_method :: string
  hq_host :: string
  hq_path :: string
  hq_query :: string

record 'w http_request = http_call + hq_ctx :: "'w trip_ctx"

text \<open>
  A response with its header lines, their names in canonical form; \<open>rr_captured\<close> is the value that the
  context of its request carries after the capturing transport.
\<close>

record registry_response =
  rr_status :: int
  rr_header :: "(string \<times> string) list"
  rr_body :: string
  rr_captured :: "duration option"

definition header_get :: "registry_response \<Rightarrow> string \<Rightarrow> string" where
  "header_get resp name = (case map_of (rr_header resp) name of None \<Rightarrow> [] | Some v \<Rightarrow> v)"

text \<open>
  What the runtime and \<open>net/http\<close> offer: the default logger's debug switch, the text of an error,
  \<open>http.ParseTime\<close>, one request through a transport, with the trace events it raises, each at its time,
  closing a connection, and closing the idle connections of a transport that can do that.
\<close>

record 'w net =
  nt_env :: "'w env"
  nt_debug :: bool
  nt_text_of :: "go_error \<Rightarrow> string"
  nt_http_time :: "string \<Rightarrow> int option"
  nt_send :: "round_tripper \<Rightarrow> 'w http_request \<Rightarrow> 'w
    \<Rightarrow> (int \<times> trip_event) list \<times> (go_error + registry_response) \<times> 'w"
  nt_close :: "nat \<Rightarrow> 'w \<Rightarrow> 'w"
  nt_close_idle :: "round_tripper \<Rightarrow> ('w \<Rightarrow> 'w) option"

definition slog_Default :: "'w net \<Rightarrow> 'w logger" where
  "slog_Default nt = \<lparr>lg_debug = nt_debug nt, lg_put = e_log (nt_env nt)\<rparr>"

definition withHTTPTripSink :: "'w trip_ctx \<Rightarrow> 'w logger option \<Rightarrow> 'w trip_ctx" where
  "withHTTPTripSink c lg =
     (let c = c\<lparr>cx_sink := True\<rparr> in case lg of None \<Rightarrow> c | Some l \<Rightarrow> c\<lparr>cx_log := Some l\<rparr>)"

definition httpTripSinkFrom :: "'w trip_ctx \<Rightarrow> 'w traced \<Rightarrow> trip_sink option" where
  "httpTripSinkFrom c td = (if cx_sink c then Some (td_sink td) else None)"

definition httpTripLogFrom :: "'w trip_ctx \<Rightarrow> 'w logger option" where
  "httpTripLogFrom c = cx_log c"

section \<open>Retry-After\<close>

definition blank_char :: "char \<Rightarrow> bool" where "blank_char c \<longleftrightarrow> c = CHR '' '' \<or> c = CHR 0x09"

definition trimHeaderValue :: "string \<Rightarrow> string" where
  "trimHeaderValue s = rev (dropWhile blank_char (rev (dropWhile blank_char s)))"

definition parseRetryAfterHeader :: "(string \<Rightarrow> int option) \<Rightarrow> int \<Rightarrow> string \<Rightarrow> duration" where
  "parseRetryAfterHeader http_time now raw =
     (let raw = trimHeaderValue raw;
          date = (case http_time raw of
                    Some t \<Rightarrow> if saturate (t - now) < 0 then 0 else saturate (t - now)
                  | None \<Rightarrow> 0)
      in if raw = [] then 0
         else case atoi raw of
           Some seconds \<Rightarrow> if 0 \<le> seconds then dur_mul seconds second else date
         | None \<Rightarrow> date)"

text \<open>A transport as a step: the trace events of the request, its answer and the state after it.\<close>

type_synonym 'w tripper = "'w http_request \<Rightarrow> 'w traced
    \<Rightarrow> (int \<times> trip_event) list \<times> (go_error + registry_response) \<times> 'w traced"

definition retry_after_header :: string where "retry_after_header = ''Retry-After''"

definition captured :: "(string \<Rightarrow> int option) \<Rightarrow> int \<Rightarrow> go_error + registry_response \<Rightarrow> go_error + registry_response" where
  "captured http_time now answer =
     (case answer of
        Inl err \<Rightarrow> Inl err
      | Inr resp \<Rightarrow>
          Inr (if rr_status resp \<noteq> 429 then resp
               else resp\<lparr>rr_captured := Some (parseRetryAfterHeader http_time now (header_get resp retry_after_header))\<rparr>))"

definition capture_RoundTrip :: "'w net \<Rightarrow> 'w tripper \<Rightarrow> 'w tripper" where
  "capture_RoundTrip nt base req td =
     (case base req td of
        (evs, answer, td) \<Rightarrow> (evs, captured (nt_http_time nt) (e_now (nt_env nt) (td_world td)) answer, td))"

definition retryAfterFromRequest :: "registry_response \<Rightarrow> duration" where
  "retryAfterFromRequest resp = (case rr_captured resp of None \<Rightarrow> 0 | Some d \<Rightarrow> d)"

section \<open>Tracing\<close>

text \<open>The sink of the request's context, if any, gets the snapshot.\<close>

definition tell_sink :: "'w trip_ctx \<Rightarrow> trip_snapshot \<Rightarrow> 'w traced \<Rightarrow> 'w traced" where
  "tell_sink c snap td =
     (case httpTripSinkFrom c td of None \<Rightarrow> td | Some sink \<Rightarrow> td\<lparr>td_sink := record_trip snap sink\<rparr>)"

text \<open>The connection that is closed for a traced one: the one under TLS, if there is one.\<close>

definition hung_socket :: "net_conn \<Rightarrow> nat" where
  "hung_socket conn = (case conn of TLSConn n (Some inner) \<Rightarrow> inner | TLSConn n None \<Rightarrow> n | PlainConn n \<Rightarrow> n)"

definition closeHungConn :: "'w net \<Rightarrow> net_conn option \<Rightarrow> 'w \<Rightarrow> 'w" where
  "closeHungConn nt conn w = (case conn of None \<Rightarrow> w | Some conn \<Rightarrow> nt_close nt (hung_socket conn) w)"

definition evictHungHTTP2Conn :: "'w net \<Rightarrow> 'w http_request \<Rightarrow> trip_recorder \<Rightarrow> go_error option \<Rightarrow> 'w logger option
    \<Rightarrow> 'w \<Rightarrow> 'w" where
  "evictHungHTTP2Conn nt req r err lg w =
     (if tr_conn r = None \<or> err = None then w
      else if e_err (nt_env nt) (cx_ctx (hq_ctx req)) w \<noteq> None then w
      else if \<not> isResponseHeaderTimeout (nt_text_of nt) err then w
      else
        let w = closeHungConn nt (tr_conn r) w;
            lg = (case lg of None \<Rightarrow> slog_Default nt | Some l \<Rightarrow> l)
        in lg_put lg (LogLine LevelDebug ''evicted hung http2 connection''
             [(''remote'', AttrStr (tr_remote r)), (''repo'', AttrStr (repoFromRegistryPath (tr_path r)))]) w)"

definition answer_err :: "go_error + 'a \<Rightarrow> go_error option" where
  "answer_err answer = (case answer of Inl err \<Rightarrow> Some err | Inr _ \<Rightarrow> None)"

definition hang_RoundTrip :: "'w net \<Rightarrow> 'w tripper \<Rightarrow> 'w tripper" where
  "hang_RoundTrip nt base req td =
     (let lg = (case httpTripLogFrom (hq_ctx req) of None \<Rightarrow> slog_Default nt | Some l \<Rightarrow> l);
          r = new_recorder (e_now (nt_env nt) (td_world td)) (hq_host req) (hq_path req)
      in case base req td of
        (evs, answer, td) \<Rightarrow>
          (let r = trace_all evs r; err = answer_err answer;
               snap = snapshot (nt_text_of nt) (e_now (nt_env nt) (td_world td)) err r;
               td = tell_sink (hq_ctx req) snap td;
               w = (if lg_debug lg then lg_put lg (LogLine LevelDebug ''registry_http'' (snapshot_attrs snap)) (td_world td)
                    else td_world td)
           in (evs, answer, td\<lparr>td_world := evictHungHTTP2Conn nt req r err (Some lg) w\<rparr>)))"

section \<open>The stack\<close>

datatype wrapped = HangTraced wrapped | RetryAfterCaptured wrapped | Base round_tripper

definition withRetryAfterCapture :: "round_tripper \<Rightarrow> wrapped option \<Rightarrow> wrapped" where
  "withRetryAfterCapture http_default base =
     RetryAfterCaptured (case base of None \<Rightarrow> Base http_default | Some t \<Rightarrow> t)"

definition withHangTrace :: "wrapped option \<Rightarrow> wrapped option" where
  "withHangTrace base = (case base of None \<Rightarrow> None | Some t \<Rightarrow> Some (HangTraced t))"

text \<open>
  Every transport hands the request on with its trace hooks, so that the events reach all recorders
  around it.
\<close>

primrec round_trip :: "'w net \<Rightarrow> wrapped \<Rightarrow> 'w tripper" where
  "round_trip nt (Base rt) =
     (\<lambda>req td. case nt_send nt rt req (td_world td) of (evs, answer, w) \<Rightarrow> (evs, answer, td\<lparr>td_world := w\<rparr>))"
| "round_trip nt (RetryAfterCaptured t) = capture_RoundTrip nt (round_trip nt t)"
| "round_trip nt (HangTraced t) = hang_RoundTrip nt (round_trip nt t)"

text \<open>What a caller of the transport sees.\<close>

type_synonym 'w http_do = "'w http_request \<Rightarrow> 'w traced \<Rightarrow> (go_error + registry_response) \<times> 'w traced"

definition RoundTrip :: "'w net \<Rightarrow> wrapped \<Rightarrow> 'w http_do" where
  "RoundTrip nt t req td = (case round_trip nt t req td of (_, answer, td) \<Rightarrow> (answer, td))"

text \<open>
  The interface of transports that can close their idle connections: the tracing transport has the method
  and forwards it if the transport inside has it; the capturing transport does not have it.
\<close>

primrec idle_closer :: "'w net \<Rightarrow> wrapped \<Rightarrow> ('w \<Rightarrow> 'w) option" where
  "idle_closer nt (Base rt) = nt_close_idle nt rt"
| "idle_closer nt (RetryAfterCaptured t) = None"
| "idle_closer nt (HangTraced t) =
     Some (\<lambda>w. case idle_closer nt t of None \<Rightarrow> w | Some close \<Rightarrow> close w)"

section \<open>Library calls\<close>

text \<open>
  A call into the registry library acts on the world only by requests, through the transport it was given
  and with the context of the call, and by pauses between its own retries, which do not look at the
  context. What it sends next depends on the answers; every call comes to an end.
\<close>

datatype 'a lib_call =
    Return 'a
  | Send http_call "go_error + registry_response \<Rightarrow> 'a lib_call"
  | Pause duration "'a lib_call"

definition with_ctx :: "'w trip_ctx \<Rightarrow> http_call \<Rightarrow> 'w http_request" where
  "with_ctx c q =
     \<lparr>hq_method = hq_method q, hq_host = hq_host q, hq_path = hq_path q, hq_query = hq_query q, hq_ctx = c\<rparr>"

primrec run_call :: "'w env \<Rightarrow> 'w http_do \<Rightarrow> 'w trip_ctx \<Rightarrow> 'a lib_call \<Rightarrow> 'w traced \<Rightarrow> 'a \<times> 'w traced" where
  "run_call e tp c (Return x) = (\<lambda>td. (x, td))"
| "run_call e tp c (Send q k) =
     (\<lambda>td. case tp (with_ctx c q) td of (answer, td) \<Rightarrow> run_call e tp c (k answer) td)"
| "run_call e tp c (Pause d k) =
     (\<lambda>td. run_call e tp c k (td\<lparr>td_world := snd (sleepContext e None d (td_world td))\<rparr>))"

section \<open>Facts\<close>

lemma run_call_map: "run_call e tp c (map_lib_call f call) td = map_prod f id (run_call e tp c call td)"
  by (induction call arbitrary: td) (simp_all split: prod.split)

lemma run_call_set: "fst (run_call e tp c call td) \<in> set_lib_call call"
proof (induction call arbitrary: td)
  case (Send q k)
  obtain answer td1 where "tp (with_ctx c q) td = (answer, td1)" by fastforce
  with Send.IH [OF rangeI [of k answer], of td1] show ?case by auto
qed simp_all

lemma with_ctx_simps [simp]:
  "hq_ctx (with_ctx c q) = c" "hq_host (with_ctx c q) = hq_host q" "hq_path (with_ctx c q) = hq_path q"
  by (simp_all add: with_ctx_def)

text \<open>The production stack never forwards the closing of idle connections.\<close>

lemma CloseIdleConnections_lost:
  "idle_closer nt (HangTraced (withRetryAfterCapture d base)) = Some (\<lambda>w. w)"
  by (simp add: withRetryAfterCapture_def)

lemma answer_err_simps [simp]: "answer_err (Inl err) = Some err" "answer_err (Inr resp) = None"
  by (simp_all add: answer_err_def)

lemma answer_err_captured [simp]: "answer_err (captured ht now answer) = answer_err answer"
  by (simp add: captured_def split: sum.split)

text \<open>
  What the network and the logger do takes no negative time; then neither does a request, whatever
  wraps the transport, nor a call of the library.
\<close>

definition log_mono :: "'w env \<Rightarrow> 'w logger \<Rightarrow> bool" where
  "log_mono e lg \<longleftrightarrow> (\<forall>l w. e_now e w \<le> e_now e (lg_put lg l w))"

definition net_mono :: "'w net \<Rightarrow> bool" where
  "net_mono nt \<longleftrightarrow>
     (\<forall>rt req w. e_now (nt_env nt) w \<le> e_now (nt_env nt) (snd (snd (nt_send nt rt req w))))
   \<and> (\<forall>n w. e_now (nt_env nt) w \<le> e_now (nt_env nt) (nt_close nt n w))
   \<and> log_mono (nt_env nt) (slog_Default nt)"

definition ctx_mono :: "'w env \<Rightarrow> 'w trip_ctx \<Rightarrow> bool" where
  "ctx_mono e c \<longleftrightarrow> (case cx_log c of None \<Rightarrow> True | Some lg \<Rightarrow> log_mono e lg)"

definition tripper_mono :: "'w env \<Rightarrow> 'w tripper \<Rightarrow> bool" where
  "tripper_mono e tp \<longleftrightarrow> (\<forall>req td evs answer td'. ctx_mono e (hq_ctx req) \<longrightarrow> tp req td = (evs, answer, td') \<longrightarrow>
     e_now e (td_world td) \<le> e_now e (td_world td'))"

lemma tripper_monoD:
  "tripper_mono e tp \<Longrightarrow> ctx_mono e (hq_ctx req) \<Longrightarrow> tp req td = (evs, answer, td')
    \<Longrightarrow> e_now e (td_world td) \<le> e_now e (td_world td')"
  by (auto simp: tripper_mono_def)

lemma tell_sink_world [simp]: "td_world (tell_sink c snap td) = td_world td"
  by (simp add: tell_sink_def split: option.split)

lemma evict_mono:
  assumes "net_mono nt" and "log_mono (nt_env nt) lg"
  shows "e_now (nt_env nt) w \<le> e_now (nt_env nt) (evictHungHTTP2Conn nt req r err (Some lg) w)"
proof -
  have close: "e_now (nt_env nt) w \<le> e_now (nt_env nt) (closeHungConn nt conn w)" for conn
    using assms(1) by (simp add: closeHungConn_def net_mono_def split: option.split)
  have "e_now (nt_env nt) (closeHungConn nt conn w) \<le> e_now (nt_env nt) (lg_put lg l (closeHungConn nt conn w))" for conn l
    using assms(2) by (simp add: log_mono_def)
  with close show ?thesis by (auto simp: evictHungHTTP2Conn_def Let_def intro: order_trans)
qed

lemma hang_mono:
  fixes nt :: "'w net"
  assumes "net_mono nt" and "tripper_mono (nt_env nt) base"
  shows "tripper_mono (nt_env nt) (hang_RoundTrip nt base)"
  unfolding tripper_mono_def
proof (intro allI impI)
  fix req :: "'w http_request" and td evs answer td'
  assume ctx: "ctx_mono (nt_env nt) (hq_ctx req)" and run: "hang_RoundTrip nt base req td = (evs, answer, td')"
  define lg where "lg = (case httpTripLogFrom (hq_ctx req) of None \<Rightarrow> slog_Default nt | Some l \<Rightarrow> l)"
  have lg: "log_mono (nt_env nt) lg"
    using ctx assms(1) by (simp add: lg_def ctx_mono_def httpTripLogFrom_def net_mono_def split: option.splits)
  obtain evs1 answer1 td1 where base: "base req td = (evs1, answer1, td1)" using prod_cases3 by blast
  have "e_now (nt_env nt) (td_world td) \<le> e_now (nt_env nt) (td_world td1)"
    by (rule tripper_monoD [OF assms(2) ctx base])
  moreover have "e_now (nt_env nt) (td_world td1) \<le> e_now (nt_env nt) (if lg_debug lg then lg_put lg l (td_world td1) else td_world td1)" for l
    using lg by (simp add: log_mono_def)
  ultimately have "e_now (nt_env nt) (td_world td)
      \<le> e_now (nt_env nt) (evictHungHTTP2Conn nt req r err (Some lg) (if lg_debug lg then lg_put lg l (td_world td1) else td_world td1))" for r err l
    using evict_mono [OF assms(1) lg] by (meson order_trans)
  then show "e_now (nt_env nt) (td_world td) \<le> e_now (nt_env nt) (td_world td')"
    using run by (auto simp: hang_RoundTrip_def lg_def [symmetric] base Let_def simp del: if_split)
qed

text \<open>
  The contract of a transport around another one: it passes on the trace events and the error, if there is
  one, and takes no negative time if what it wraps does not.
\<close>

locale transport_layer =
  fixes nt :: "'w net" and wrap :: "'w tripper \<Rightarrow> 'w tripper"
  assumes wrap_events: "fst (wrap base req td) = fst (base req td)"
    and wrap_error: "answer_err (fst (snd (wrap base req td))) = answer_err (fst (snd (base req td)))"
    and wrap_mono: "net_mono nt \<Longrightarrow> tripper_mono (nt_env nt) base \<Longrightarrow> tripper_mono (nt_env nt) (wrap base)"
begin

definition passes_on :: "'w tripper \<Rightarrow> bool" where
  "passes_on inner \<longleftrightarrow> (\<forall>req td. \<exists>rt w. fst (inner req td) = fst (nt_send nt rt req w)
     \<and> answer_err (fst (snd (inner req td))) = answer_err (fst (snd (nt_send nt rt req w))))"

lemma wrap_passes_on: "passes_on inner \<Longrightarrow> passes_on (wrap inner)"
  by (simp add: passes_on_def wrap_events wrap_error)

end

interpretation capture: transport_layer nt "capture_RoundTrip nt" for nt
proof
  fix base :: "'a tripper" and req td
  show "fst (capture_RoundTrip nt base req td) = fst (base req td)"
    and "answer_err (fst (snd (capture_RoundTrip nt base req td))) = answer_err (fst (snd (base req td)))"
    by (simp_all add: capture_RoundTrip_def split: prod.split)
qed (auto simp: tripper_mono_def capture_RoundTrip_def split: prod.splits)

interpretation hang: transport_layer nt "hang_RoundTrip nt" for nt
proof
  fix base :: "'a tripper" and req td
  show "fst (hang_RoundTrip nt base req td) = fst (base req td)"
    and "answer_err (fst (snd (hang_RoundTrip nt base req td))) = answer_err (fst (snd (base req td)))"
    by (simp_all add: hang_RoundTrip_def Let_def split: prod.split)
qed (rule hang_mono)

lemma round_trip_mono: "net_mono nt \<Longrightarrow> tripper_mono (nt_env nt) (round_trip nt t)"
proof (induction t)
  case (Base rt)
  have "e_now (nt_env nt) w \<le> e_now (nt_env nt) w'" if "nt_send nt rt req w = (evs, answer, w')" for req w evs answer w'
    using Base that unfolding net_mono_def by (metis snd_conv)
  then show ?case by (auto simp: tripper_mono_def split: prod.splits)
qed (simp_all add: hang.wrap_mono capture.wrap_mono)

text \<open>However the transports are stacked, the caller gets the network's error, or none.\<close>

lemma round_trip_error:
  "\<exists>rt w. answer_err (fst (RoundTrip nt t req td)) = answer_err (fst (snd (nt_send nt rt req w)))"
proof -
  have "hang.passes_on nt (round_trip nt t)"
  proof (induction t)
    case (RetryAfterCaptured t)
    then show ?case using capture.wrap_passes_on by (simp add: hang.passes_on_def capture.passes_on_def)
  next
    case (Base rt)
    have "fst (round_trip nt (Base rt) req td) = fst (nt_send nt rt req (td_world td))"
      "fst (snd (round_trip nt (Base rt) req td)) = fst (snd (nt_send nt rt req (td_world td)))" for req td
      by (simp_all split: prod.split)
    then show ?case unfolding hang.passes_on_def by metis
  qed (simp add: hang.wrap_passes_on)
  then obtain rt w where "answer_err (fst (snd (round_trip nt t req td))) = answer_err (fst (snd (nt_send nt rt req w)))"
    unfolding hang.passes_on_def by blast
  then show ?thesis by (intro exI [of _ rt] exI [of _ w]) (cases "round_trip nt t req td", simp add: RoundTrip_def)
qed

lemma run_call_mono:
  assumes "net_mono nt" and "env_laws (nt_env nt)" and "ctx_mono (nt_env nt) c"
    and "run_call (nt_env nt) (RoundTrip nt t) c call td = (x, td')"
  shows "e_now (nt_env nt) (td_world td) \<le> e_now (nt_env nt) (td_world td')"
  using assms(4)
proof (induction call arbitrary: td)
  case (Send q k)
  obtain evs answer td1 where rt: "round_trip nt t (with_ctx c q) td = (evs, answer, td1)" using prod_cases3 by blast
  from tripper_monoD [OF round_trip_mono [OF assms(1)] _ rt] assms(3)
  have "e_now (nt_env nt) (td_world td) \<le> e_now (nt_env nt) (td_world td1)" by simp
  also from Send rt have "\<dots> \<le> e_now (nt_env nt) (td_world td')" by (auto simp: RoundTrip_def)
  finally show ?case .
next
  case (Pause d k)
  have "e_now (nt_env nt) (td_world td) \<le> e_now (nt_env nt) (snd (sleepContext (nt_env nt) None d (td_world td)))"
    by (rule sleepContext_mono [OF assms(2)])
  also from Pause have "\<dots> \<le> e_now (nt_env nt) (td_world td')" by fastforce
  finally show ?case .
qed simp

section \<open>What a request leaves behind\<close>

text \<open>The logger of a request.\<close>

definition logger_of :: "'w net \<Rightarrow> 'w http_request \<Rightarrow> 'w logger" where
  "logger_of nt req = (case httpTripLogFrom (hq_ctx req) of None \<Rightarrow> slog_Default nt | Some l \<Rightarrow> l)"

text \<open>
  \<open>shut\<close> reads from the world the connections that were closed: closing one appends it, and logging
  changes neither them nor whether a context has ended.
\<close>

definition watches :: "('w \<Rightarrow> nat list) \<Rightarrow> 'w net \<Rightarrow> 'w logger \<Rightarrow> bool" where
  "watches shut nt lg \<longleftrightarrow>
     (\<forall>n w. shut (nt_close nt n w) = shut w @ [n])
   \<and> (\<forall>l w. shut (lg_put lg l w) = shut w \<and> (\<forall>c. e_err (nt_env nt) c (lg_put lg l w) = e_err (nt_env nt) c w))"

definition traced_rec :: "'w net \<Rightarrow> 'w http_request \<Rightarrow> (int \<times> trip_event) list \<Rightarrow> 'w \<Rightarrow> trip_recorder" where
  "traced_rec nt req evs w = trace_all evs (new_recorder (e_now (nt_env nt) w) (hq_host req) (hq_path req))"

definition hung :: "'w net \<Rightarrow> 'w http_request \<Rightarrow> go_error + 'a \<Rightarrow> 'w \<Rightarrow> bool" where
  "hung nt req answer w \<longleftrightarrow>
     e_err (nt_env nt) (cx_ctx (hq_ctx req)) w = None \<and> isResponseHeaderTimeout (nt_text_of nt) (answer_err answer)"

lemma evict_closed:
  assumes "watches shut nt lg"
  shows "shut (evictHungHTTP2Conn nt req r (answer_err answer) (Some lg) w) =
     shut w @ (case tr_conn r of None \<Rightarrow> [] | Some conn \<Rightarrow> if hung nt req answer w then [hung_socket conn] else [])"
  using assms
  by (auto simp: evictHungHTTP2Conn_def watches_def closeHungConn_def hung_def isResponseHeaderTimeout_def Let_def
      split: option.split)

lemma hang_outcome:
  assumes "base req td = (evs, answer, td1)"
  obtains w where "hang_RoundTrip nt base req td =
      (evs, answer, (tell_sink (hq_ctx req) (snapshot (nt_text_of nt) (e_now (nt_env nt) (td_world td1)) (answer_err answer)
        (traced_rec nt req evs (td_world td))) td1)\<lparr>td_world := w\<rparr>)"
    and "watches shut nt (logger_of nt req) \<Longrightarrow> shut w = shut (td_world td1)
      @ (case tr_conn (traced_rec nt req evs (td_world td)) of None \<Rightarrow> []
         | Some conn \<Rightarrow> if hung nt req answer (td_world td1) then [hung_socket conn] else [])"
proof
  let ?r = "traced_rec nt req evs (td_world td)" and ?lg = "logger_of nt req"
  let ?line = "LogLine LevelDebug ''registry_http'' (snapshot_attrs (snapshot (nt_text_of nt)
      (e_now (nt_env nt) (td_world td1)) (answer_err answer) ?r))"
  let ?w = "if lg_debug ?lg then lg_put ?lg ?line (td_world td1) else td_world td1"
  show "hang_RoundTrip nt base req td =
      (evs, answer, (tell_sink (hq_ctx req) (snapshot (nt_text_of nt) (e_now (nt_env nt) (td_world td1)) (answer_err answer)
        ?r) td1)\<lparr>td_world := evictHungHTTP2Conn nt req ?r (answer_err answer) (Some ?lg) ?w\<rparr>)"
    by (simp add: hang_RoundTrip_def assms logger_of_def [symmetric] traced_rec_def Let_def)
  assume watch: "watches shut nt ?lg"
  then have "shut ?w = shut (td_world td1)" "hung nt req answer ?w = hung nt req answer (td_world td1)"
    by (simp_all add: watches_def hung_def)
  then show "shut (evictHungHTTP2Conn nt req ?r (answer_err answer) (Some ?lg) ?w) = shut (td_world td1)
      @ (case tr_conn ?r of None \<Rightarrow> [] | Some conn \<Rightarrow> if hung nt req answer (td_world td1) then [hung_socket conn] else [])"
    by (simp only: evict_closed [OF watch])
qed

text \<open>The stack of a registry client: the answer is the network's, with the delay captured.\<close>

abbreviation stack :: "round_tripper \<Rightarrow> wrapped" where
  "stack rt \<equiv> HangTraced (RetryAfterCaptured (Base rt))"

lemma stack_outcome:
  assumes "nt_send nt rt req (td_world td) = (evs, answer, w1)"
  obtains w where "RoundTrip nt (stack rt) req td =
      (captured (nt_http_time nt) (e_now (nt_env nt) w1) answer,
       (tell_sink (hq_ctx req) (snapshot (nt_text_of nt) (e_now (nt_env nt) w1) (answer_err answer)
         (traced_rec nt req evs (td_world td))) (td\<lparr>td_world := w1\<rparr>))\<lparr>td_world := w\<rparr>)"
    and "watches shut nt (logger_of nt req) \<Longrightarrow> shut w = shut w1
      @ (case tr_conn (traced_rec nt req evs (td_world td)) of None \<Rightarrow> []
         | Some conn \<Rightarrow> if hung nt req answer w1 then [hung_socket conn] else [])"
proof -
  let ?base = "capture_RoundTrip nt (round_trip nt (Base rt))"
  let ?answer = "captured (nt_http_time nt) (e_now (nt_env nt) w1) answer"
  have base: "?base req td = (evs, ?answer, td\<lparr>td_world := w1\<rparr>)" by (simp add: capture_RoundTrip_def assms)
  have hung: "hung nt req ?answer w = hung nt req answer w" for w by (simp add: hung_def)
  show ?thesis
    by (rule hang_outcome [of ?base req td evs ?answer _ nt shut, OF base], rule that)
      (simp_all add: RoundTrip_def hung cong: option.case_cong)
qed

section \<open>Counting requests\<close>

text \<open>
  \<open>sent\<close> reads from the world how many requests the network was asked for: closing a connection, logging
  and waiting do not change it.
\<close>

definition counts :: "('w \<Rightarrow> nat) \<Rightarrow> 'w net \<Rightarrow> bool" where
  "counts sent nt \<longleftrightarrow>
     (\<forall>rt req w. sent (snd (snd (nt_send nt rt req w))) = Suc (sent w)) \<and> (\<forall>n w. sent (nt_close nt n w) = sent w)
   \<and> (\<forall>l w. sent (e_log (nt_env nt) l w) = sent w) \<and> (\<forall>c d w. sent (snd (e_timer (nt_env nt) c d w)) = sent w)"

definition logs_default :: "'w net \<Rightarrow> 'w trip_ctx \<Rightarrow> bool" where
  "logs_default nt c \<longleftrightarrow> cx_log c = None \<or> cx_log c = Some (slog_Default nt)"

lemma evict_counts:
  "counts sent nt \<Longrightarrow> sent (evictHungHTTP2Conn nt req r err (Some (slog_Default nt)) w) = sent w"
  by (simp add: evictHungHTTP2Conn_def closeHungConn_def counts_def slog_Default_def Let_def split: option.split)

lemma trip_counts:
  assumes "counts sent nt" and "cx_sink (hq_ctx req)" and "logs_default nt (hq_ctx req)"
    and "RoundTrip nt (stack rt) req td = (answer, td')"
  shows "sent (td_world td') = Suc (sent (td_world td))" and "sk_trips (td_sink td') = sk_trips (td_sink td) + 1"
proof -
  have lg: "(case httpTripLogFrom (hq_ctx req) of None \<Rightarrow> slog_Default nt | Some l \<Rightarrow> l) = slog_Default nt"
    using assms(3) by (auto simp: logs_default_def httpTripLogFrom_def)
  obtain evs answer1 w1 where send: "nt_send nt rt req (td_world td) = (evs, answer1, w1)" using prod_cases3 by blast
  have "sent w1 = Suc (sent (td_world td))" using assms(1) send unfolding counts_def by (metis snd_conv)
  moreover have "sent (lg_put (slog_Default nt) l w) = sent w" for l w
    using assms(1) by (simp add: counts_def slog_Default_def)
  ultimately show "sent (td_world td') = Suc (sent (td_world td))" and "sk_trips (td_sink td') = sk_trips (td_sink td) + 1"
    using assms(2,4)
    by (auto simp: RoundTrip_def hang_RoundTrip_def capture_RoundTrip_def send lg Let_def evict_counts [OF assms(1)]
        tell_sink_def httpTripSinkFrom_def record_trip_def)
qed

lemma run_call_counts:
  assumes "counts sent nt" and "cx_sink c" and "logs_default nt c"
    and "run_call (nt_env nt) (RoundTrip nt (stack rt)) c call td = (x, td')"
  shows "sk_trips (td_sink td') - sk_trips (td_sink td) = int (sent (td_world td')) - int (sent (td_world td))"
  using assms(4)
proof (induction call arbitrary: td)
  case (Send q k)
  obtain answer td1 where rt: "RoundTrip nt (stack rt) (with_ctx c q) td = (answer, td1)" by fastforce
  with Send.prems have "run_call (nt_env nt) (RoundTrip nt (stack rt)) c (k answer) td1 = (x, td')" by simp
  from Send.IH [OF rangeI this] trip_counts [OF assms(1) _ _ rt] assms(2,3) show ?case by simp
next
  case (Pause d k)
  from Pause.IH [of "td\<lparr>td_world := snd (sleepContext (nt_env nt) None d (td_world td))\<rparr>"] Pause.prems assms(1)
  show ?case by (simp add: counts_def sleepContext_def split: if_splits)
qed simp

end
