(* ===== verification/Oci.thy ===== *)
theory Oci
  imports RegistryHttp RegistryPass App
begin

text \<open>
  The OCI registry client (\<open>internal/registry/oci/oci.go\<close>): its configuration, listing tags page by page,
  resolving a tag, and the translation of library errors into the registry sentinels, over the HTTP
  stack of \<open>RegistryHttp\<close>. The go-containerregistry library is the record \<open>remote\<close>.
\<close>

section \<open>Configuration\<close>

datatype authenticator = Anonymous | BasicAuth string string

record oci =
  oc_host :: string
  oc_auth :: authenticator
  oc_insecure :: bool
  oc_transport :: "round_tripper option"

definition oci_optionalString :: "cfg_map \<Rightarrow> string \<Rightarrow> string" where
  "oci_optionalString cfg key = (case map_of cfg key of Some (AStr s) \<Rightarrow> trim_space s | _ \<Rightarrow> [])"

definition optionalBool :: "cfg_map \<Rightarrow> string \<Rightarrow> bool \<Rightarrow> bool" where
  "optionalBool cfg key fallback = (case map_of cfg key of Some (ABool b) \<Rightarrow> b | _ \<Rightarrow> fallback)"

definition username_key :: string where "username_key = ''username''"
definition token_key :: string where "token_key = ''token''"
definition insecure_key :: string where "insecure_key = ''insecure''"

definition buildAuth :: "cfg_map \<Rightarrow> go_error + authenticator" where
  "buildAuth cfg =
     (let username = oci_optionalString cfg username_key; token = oci_optionalString cfg token_key in
      if username = [] \<and> token = [] then Inr Anonymous
      else if username = [] \<or> token = [] then
        Inl (ErrText [Lit ''oci config: username and token must both be set for private images''])
      else Inr (BasicAuth username token))"

definition oci_New :: "round_tripper \<Rightarrow> url_parser \<Rightarrow> (url \<Rightarrow> go_error option) \<Rightarrow> cfg_map \<Rightarrow> go_error + oci" where
  "oci_New std url_parse socks cfg =
     (let host = oci_optionalString cfg host_key in
      if host = [] then Inl (ErrText [Lit ''oci config: host is required''])
      else case buildAuth cfg of
        Inl err \<Rightarrow> Inl err
      | Inr auth \<Rightarrow>
          (case BuildTransport std url_parse socks (oci_optionalString cfg proxy_key) of
             Inl err \<Rightarrow> Inl (ErrWrap [Lit ''oci transport: ''] err)
           | Inr tp \<Rightarrow>
               Inr \<lparr>oc_host = host, oc_auth = auth, oc_insecure = optionalBool cfg insecure_key False,
                    oc_transport = Some (applyRegistryIOTimeouts std (HttpTransport tp))\<rparr>))"

section \<open>Errors\<close>

text \<open>The second field of \<open>ErrTransport\<close> is what \<open>retryAfterFromRequest\<close> reads from the failed request.\<close>

definition mapRegistryError :: "go_error \<Rightarrow> go_error" where
  "mapRegistryError err =
     (case find is_transport_error (err_chain err) of
        Some (ErrTransport status retry_after m) \<Rightarrow>
          if status = 404 then ErrNotFound
          else if status = 401 \<or> status = 403 then ErrUnauthorized
          else if status = 429 then RateLimitError retry_after err
          else err
      | _ \<Rightarrow> err)"

section \<open>Requests\<close>

text \<open>The options of a call: context, credentials and transport.\<close>

record 'w remote_opts =
  ro_ctx :: "'w trip_ctx"
  ro_auth :: authenticator
  ro_transport :: "wrapped option"

text \<open>How the library reads a name.\<close>

datatype name_option = WeakValidation | Insecure

definition nameOpts :: "oci \<Rightarrow> name_option list" where
  "nameOpts r = (let opts = [WeakValidation] in if oc_insecure r then opts @ [Insecure] else opts)"

text \<open>
  The library: reference checks with the options of a name, one manifest request, creating a
  puller, and a lister. Creating a lister fetches the first page. As long as \<open>HasNext\<close> holds (\<open>NextPage\<close>),
  \<open>Next\<close> gives a page or an error and the lister for the rest; a repository has finitely many pages.
\<close>

datatype lister = Exhausted | NextPage "((go_error + string list) \<times> lister) lib_call"

record remote =
  rm_reference :: "name_option list \<Rightarrow> string \<Rightarrow> go_error option"
  rm_repository :: "name_option list \<Rightarrow> string \<Rightarrow> go_error option"
  rm_get :: "name_option list \<Rightarrow> authenticator \<Rightarrow> string \<Rightarrow> (go_error + string) lib_call"
  rm_puller :: "authenticator \<Rightarrow> go_error option"
  rm_lister :: "name_option list \<Rightarrow> authenticator \<Rightarrow> string \<Rightarrow> (go_error + lister) lib_call"

text \<open>What the package links in; \<open>oe_std\<close> is \<open>remote.DefaultTransport\<close>, \<open>oe_http_default\<close> \<open>http.DefaultTransport\<close>.\<close>

record 'w oci_env =
  oe_std :: round_tripper
  oe_http_default :: round_tripper
  oe_url_parse :: url_parser
  oe_socks :: "url \<Rightarrow> go_error option"
  oe_remote :: remote
  oe_net :: "'w net"

abbreviation oe_env :: "'w oci_env \<Rightarrow> 'w env" where "oe_env oe \<equiv> nt_env (oe_net oe)"

definition base_transport :: "'w oci_env \<Rightarrow> oci \<Rightarrow> round_tripper" where
  "base_transport oe r =
     (case oc_transport r of None \<Rightarrow> applyRegistryIOTimeouts (oe_std oe) (oe_std oe) | Some rt \<Rightarrow> rt)"

definition remoteOpts :: "'w oci_env \<Rightarrow> oci \<Rightarrow> 'w trip_ctx \<Rightarrow> 'w remote_opts" where
  "remoteOpts oe r c =
     \<lparr>ro_ctx = c, ro_auth = oc_auth r,
      ro_transport = withHangTrace (Some (withRetryAfterCapture (oe_http_default oe) (Some (Base (base_transport oe r)))))\<rparr>"

text \<open>A call with its options; without a transport \<open>net/http\<close> uses its own.\<close>

definition do_call :: "'w oci_env \<Rightarrow> 'w remote_opts \<Rightarrow> 'a lib_call \<Rightarrow> 'w traced \<Rightarrow> 'a \<times> 'w traced" where
  "do_call oe opts =
     run_call (oe_env oe)
       (RoundTrip (oe_net oe) (case ro_transport opts of None \<Rightarrow> Base (oe_http_default oe) | Some t \<Rightarrow> t)) (ro_ctx opts)"

definition plain_ctx :: "ctx \<Rightarrow> 'w trip_ctx" where
  "plain_ctx c = \<lparr>cx_ctx = c, cx_sink = False, cx_log = None\<rparr>"

definition untold :: "'w \<Rightarrow> 'w traced" where "untold w = \<lparr>td_world = w, td_sink = new_sink\<rparr>"

definition tagDigestOnce :: "'w oci_env \<Rightarrow> oci \<Rightarrow> ctx \<Rightarrow> string \<Rightarrow> string \<Rightarrow> 'w \<Rightarrow> (go_error + string) \<times> 'w" where
  "tagDigestOnce oe r c repo tag w =
     (let ref = oc_host r @ ''/'' @ repo @ '':'' @ tag; opts = remoteOpts oe r (plain_ctx c) in
      case rm_reference (oe_remote oe) (nameOpts r) ref of
        Some err \<Rightarrow> (Inl (ErrWrap [Lit ''parse reference '', Str ref, Lit '': ''] err), w)
      | None \<Rightarrow>
          (case do_call oe opts (rm_get (oe_remote oe) (nameOpts r) (ro_auth opts) ref) (untold w) of
             (Inl err, td) \<Rightarrow> (Inl err, td_world td)
           | (Inr digest, td) \<Rightarrow> (Inr (trim_prefix digest ''sha256:''), td_world td)))"

definition oci_TagDigest :: "'w oci_env \<Rightarrow> oci \<Rightarrow> ctx \<Rightarrow> string \<Rightarrow> string \<Rightarrow> 'w \<Rightarrow> (go_error + string) \<times> 'w" where
  "oci_TagDigest oe r c repo tag w =
     (case tagDigestOnce oe r c repo tag w of
        (Inl err, w) \<Rightarrow> (Inl (mapRegistryError err), w)
      | (Inr digest, w) \<Rightarrow> (Inr digest, w))"

text \<open>
  The loop over the pages: the pages and tags so far, and, for the debug line, the time of every page
  request but the first, which the lister has made. The recursion is on the lister, through the call
  that gives its next page; the lemma \<open>list_pages_next\<close> below reads like the loop.
\<close>

record listing =
  ls_tags :: "string list"
  ls_pages :: int
  ls_sum :: duration
  ls_max :: duration

definition no_pages :: listing where
  "no_pages = \<lparr>ls_tags = [], ls_pages = 0, ls_sum = 0, ls_max = 0\<rparr>"

definition recordPage :: "duration \<Rightarrow> listing \<Rightarrow> listing" where
  "recordPage d l = l\<lparr>ls_sum := wrap64 (ls_sum l + d), ls_max := (if d > ls_max l then d else ls_max l)\<rparr>"

definition elapsed_since :: "'w oci_env \<Rightarrow> 'w traced \<Rightarrow> 'w traced \<Rightarrow> duration" where
  "elapsed_since oe td0 td = saturate (e_now (oe_env oe) (td_world td) - e_now (oe_env oe) (td_world td0))"

primrec list_pages :: "'w oci_env \<Rightarrow> bool \<Rightarrow> 'w remote_opts \<Rightarrow> lister \<Rightarrow> listing \<Rightarrow> 'w traced
    \<Rightarrow> go_error option \<times> listing \<times> 'w traced" where
  "list_pages oe debug opts Exhausted = (\<lambda>l td. (None, l, td))"
| "list_pages oe debug opts (NextPage next_page) = (\<lambda>l td.
     case do_call oe opts (map_lib_call (map_prod id (list_pages oe debug opts)) next_page) td of
       ((answer, continue), td') \<Rightarrow>
         (let l = (if debug \<and> 0 < ls_pages l then recordPage (elapsed_since oe td td') l else l) in
          case answer of
            Inl err \<Rightarrow> (Some err, l, td')
          | Inr page \<Rightarrow> continue (l\<lparr>ls_pages := ls_pages l + 1, ls_tags := ls_tags l @ page\<rparr>) td'))"

definition incomplete :: "(go_error \<Rightarrow> string) \<Rightarrow> string \<Rightarrow> listing \<Rightarrow> duration \<Rightarrow> go_error \<Rightarrow> trip_sink option \<Rightarrow> log_line" where
  "incomplete text_of repo l elapsed err sink =
     LogLine LevelDebug ''list_tags incomplete''
       ([(''repo'', AttrStr repo), (''pages'', AttrNum (ls_pages l)), (''tags'', AttrNum (int (length (ls_tags l)))),
         (''duration'', AttrNum elapsed), (''err'', AttrStr (sanitizeRegistryErr text_of (Some err)))] @ slogAttrs sink)"

definition complete :: "string \<Rightarrow> listing \<Rightarrow> duration \<Rightarrow> log_line" where
  "complete repo l elapsed =
     (let avg = (if ls_pages l \<le> 0 then 0 else if 0 \<le> ls_sum l then ls_sum l div ls_pages l
                else - (- ls_sum l div ls_pages l)) in
      LogLine LevelDebug ''list_tags''
        [(''repo'', AttrStr repo), (''pages'', AttrNum (ls_pages l)), (''tags'', AttrNum (int (length (ls_tags l)))),
         (''duration'', AttrNum elapsed), (''page_max_ms'', AttrNum (milliseconds (ls_max l))),
         (''page_avg_ms'', AttrNum (milliseconds avg))])"

text \<open>\<open>lg\<close> is the logger, if there is one; with debug logging the requests of the listing share a sink.\<close>

definition debug_of :: "'w logger option \<Rightarrow> bool" where
  "debug_of lg = (case lg of None \<Rightarrow> False | Some l \<Rightarrow> lg_debug l)"

definition listing_ctx :: "ctx \<Rightarrow> 'w logger option \<Rightarrow> 'w trip_ctx" where
  "listing_ctx c lg = (if debug_of lg then withHTTPTripSink (plain_ctx c) lg else plain_ctx c)"

definition debug_line :: "'w logger option \<Rightarrow> log_line \<Rightarrow> 'w \<Rightarrow> 'w" where
  "debug_line lg line w = (case lg of None \<Rightarrow> w | Some l \<Rightarrow> if lg_debug l then lg_put l line w else w)"

definition listTagsOnce :: "'w oci_env \<Rightarrow> oci \<Rightarrow> ctx \<Rightarrow> string \<Rightarrow> 'w logger option \<Rightarrow> 'w
    \<Rightarrow> (go_error + string list) \<times> 'w" where
  "listTagsOnce oe r c repo lg w =
     (let ref = oc_host r @ ''/'' @ repo; debug = debug_of lg;
          opts = remoteOpts oe r (listing_ctx c lg); text_of = nt_text_of (oe_net oe); start = untold w;
          lost = (\<lambda>l err td. (Inl err, debug_line lg
            (incomplete text_of repo l (elapsed_since oe start td) err (Some (td_sink td))) (td_world td)))
      in case rm_repository (oe_remote oe) (nameOpts r) ref of
        Some err \<Rightarrow> (Inl (ErrWrap [Lit ''parse repository '', Str ref, Lit '': ''] err), w)
      | None \<Rightarrow>
     (case rm_puller (oe_remote oe) (ro_auth opts) of
        Some err \<Rightarrow> (Inl err, w)
      | None \<Rightarrow>
     (case do_call oe opts (rm_lister (oe_remote oe) (nameOpts r) (ro_auth opts) ref) start of
        (Inl err, td) \<Rightarrow> lost no_pages err td
      | (Inr pages, td) \<Rightarrow>
          (let l = (if debug then recordPage (elapsed_since oe start td) no_pages else no_pages) in
           case list_pages oe debug opts pages l td of
             (Some err, l, td) \<Rightarrow> lost l err td
           | (None, l, td) \<Rightarrow>
               (Inr (ls_tags l), debug_line lg (complete repo l (elapsed_since oe start td)) (td_world td))))))"

definition listTags :: "'w oci_env \<Rightarrow> oci \<Rightarrow> ctx \<Rightarrow> string \<Rightarrow> 'w logger option \<Rightarrow> 'w
    \<Rightarrow> (go_error + string list) \<times> 'w" where
  "listTags oe r c repo lg w =
     (case listTagsOnce oe r c repo lg w of
        (Inl err, w) \<Rightarrow> (Inl (mapRegistryError err), w)
      | (Inr tags, w) \<Rightarrow> (Inr tags, w))"

definition oci_ListTags :: "'w oci_env \<Rightarrow> oci \<Rightarrow> ctx \<Rightarrow> string \<Rightarrow> 'w \<Rightarrow> (go_error + string list) \<times> 'w" where
  "oci_ListTags oe r c repo w = listTags oe r c repo (Some (slog_Default (oe_net oe))) w"

section \<open>The plugin\<close>

text \<open>The registry the engine sees; the table of \<open>registry.New\<close> has the single entry \<open>oci\<close>.\<close>

definition oci_registry :: "'w oci_env \<Rightarrow> oci \<Rightarrow> 'w registry" where
  "oci_registry oe r =
     \<lparr>reg_host = oc_host r, reg_ListTags = oci_ListTags oe r, reg_TagDigest = oci_TagDigest oe r\<rparr>"

definition registry_New :: "'w oci_env \<Rightarrow> 'w registry_factory" where
  "registry_New oe name cfg =
     (if name = oci_type then
        map_sum id (oci_registry oe) (oci_New (oe_std oe) (oe_url_parse oe) (oe_socks oe) cfg)
      else Inl (ErrText [Lit ''unknown registry '', Quoted name]))"

section \<open>Facts\<close>

text \<open>The answers of the pages put together: all tags in order, or the first error.\<close>

fun joined_pages :: "(go_error + string list) list \<Rightarrow> go_error + string list" where
  "joined_pages [] = Inr []"
| "joined_pages (Inl err # answers) = Inl err"
| "joined_pages (Inr page # answers) =
     (case joined_pages answers of Inl err \<Rightarrow> Inl err | Inr tags \<Rightarrow> Inr (page @ tags))"

lemma list_pages_next [simp]:
  "list_pages oe debug opts (NextPage next_page) l td =
     (case do_call oe opts next_page td of
       ((answer, rest), td') \<Rightarrow>
         (let l = (if debug \<and> 0 < ls_pages l then recordPage (elapsed_since oe td td') l else l) in
          case answer of
            Inl err \<Rightarrow> (Some err, l, td')
          | Inr page \<Rightarrow> list_pages oe debug opts rest (l\<lparr>ls_pages := ls_pages l + 1, ls_tags := ls_tags l @ page\<rparr>) td'))"
  by (simp add: do_call_def run_call_map split: prod.split)

declare list_pages.simps(2) [simp del]

text \<open>The answers of a lister, up to the first error.\<close>

primrec page_answers :: "'w oci_env \<Rightarrow> 'w remote_opts \<Rightarrow> lister \<Rightarrow> 'w traced \<Rightarrow> (go_error + string list) list" where
  "page_answers oe opts Exhausted = (\<lambda>td. [])"
| "page_answers oe opts (NextPage next_page) = (\<lambda>td.
     case do_call oe opts (map_lib_call (map_prod id (page_answers oe opts)) next_page) td of
       ((answer, rest), td') \<Rightarrow> answer # (case answer of Inl _ \<Rightarrow> [] | Inr _ \<Rightarrow> rest td'))"

lemma page_answers_next [simp]:
  "page_answers oe opts (NextPage next_page) td =
     (case do_call oe opts next_page td of
       ((answer, rest), td') \<Rightarrow> answer # (case answer of Inl _ \<Rightarrow> [] | Inr _ \<Rightarrow> page_answers oe opts rest td'))"
  by (simp add: do_call_def run_call_map split: prod.split)

declare page_answers.simps(2) [simp del]

text \<open>Induction over the pages: what holds for the rest of a lister after one page holds for the lister.\<close>

lemma lister_induct [case_names Exhausted NextPage]:
  assumes "P Exhausted"
    and "\<And>next_page. (\<And>td answer rest td'. do_call oe opts next_page td = ((answer, rest), td') \<Longrightarrow> P rest) \<Longrightarrow> P (NextPage next_page)"
  shows "P pages"
proof (induction pages)
  case (NextPage next_page)
  have "P rest" if call: "do_call oe opts next_page td = ((answer, rest), td')" for td answer rest td'
  proof (rule NextPage)
    show "(answer, rest) \<in> set_lib_call next_page"
      using call unfolding do_call_def by (metis fst_conv run_call_set)
  qed simp
  then show ?case by (rule assms(2))
qed (rule assms(1))

lemma list_pages_joined:
  "list_pages oe debug opts pages l td = (r, l', td') \<Longrightarrow>
     (case joined_pages (page_answers oe opts pages td) of
        Inl err \<Rightarrow> r = Some err | Inr tags \<Rightarrow> r = None \<and> ls_tags l' = ls_tags l @ tags)"
proof (induction pages arbitrary: l td rule: lister_induct [of _ oe opts])
  case (NextPage next_page)
  obtain answer rest td1 where call: "do_call oe opts next_page td = ((answer, rest), td1)"
    by (metis prod.exhaust)
  let ?l = "if debug \<and> 0 < ls_pages l then recordPage (elapsed_since oe td td1) l else l"
  have tags: "ls_tags ?l = ls_tags l" by (simp add: recordPage_def)
  show ?case
  proof (cases answer)
    case (Inr page)
    with NextPage.prems call
    have "list_pages oe debug opts rest (?l\<lparr>ls_pages := ls_pages ?l + 1, ls_tags := ls_tags ?l @ page\<rparr>) td1 = (r, l', td')"
      by (simp add: Let_def)
    from NextPage.IH [OF call this] show ?thesis
      using tags by (auto simp: call Inr split: sum.splits)
  qed (use NextPage.prems call in \<open>simp add: Let_def\<close>)
qed simp

lemma RateLimit_mapped:
  assumes "find is_transport_error (err_chain err) = Some (ErrTransport 429 ra m)"
  shows "mapRegistryError err = RateLimitError ra err" "isRateLimit (mapRegistryError err)"
    "RetryAfterFromError (mapRegistryError err) = (ra, True)"
proof -
  show e: "mapRegistryError err = RateLimitError ra err" using assms by (simp add: mapRegistryError_def)
  show "isRateLimit (mapRegistryError err)" "RetryAfterFromError (mapRegistryError err) = (ra, True)"
    unfolding e by (simp_all add: isRateLimit_def RetryAfterFromError_def is_rate_limit_error_def)
qed

lemma public_hosts_trim: "\<forall>h\<in>set publicRegistryHosts. trim_space h = h \<and> h \<noteq> []"
  by code_simp

text \<open>A client that limits the time for connecting, for the TLS handshake and for the response headers.\<close>

definition bounded_client :: "oci \<Rightarrow> bool" where
  "bounded_client r \<longleftrightarrow> (case oc_transport r of None \<Rightarrow> False | Some rt \<Rightarrow> io_bounded rt)"

lemma oci_New_fields:
  "oci_New std up socks cfg = Inr r \<Longrightarrow> oc_host r = oci_optionalString cfg host_key \<and> bounded_client r"
  by (auto simp: oci_New_def Let_def bounded_client_def applyRegistryIOTimeouts_bounded split: if_splits sum.splits)

lemma registry_New_Inr:
  "registry_New oe name cfg = Inr reg
    \<Longrightarrow> \<exists>r. reg = oci_registry oe r \<and> oc_host r = oci_optionalString cfg host_key \<and> bounded_client r"
  by (auto simp: registry_New_def map_sum_def split: if_splits sum.splits dest: oci_New_fields)

lemma oci_public_factory: "public_factory (registry_New oe) proxy"
  unfolding public_factory_def
proof (intro ballI allI impI)
  fix host reg
  assume host: "host \<in> set publicRegistryHosts"
    and reg: "registry_New oe oci_type (withRegistryProxy [(host_key, AStr host)] proxy) = Inr reg"
  have "host_key \<noteq> proxy_key" by (simp add: host_key_def proxy_key_def)
  then have "oci_optionalString (withRegistryProxy [(host_key, AStr host)] proxy) host_key = trim_space host"
    by (simp add: withRegistryProxy_def oci_optionalString_def)
  with registry_New_Inr [OF reg] public_hosts_trim host show "reg_host reg = host"
    by (auto simp: oci_registry_def)
qed

lemma configured_from_made:
  "configured_from mk_reg proxy i cfgs entries = Inr es \<Longrightarrow> e \<in> set es \<Longrightarrow> e \<notin> set entries
    \<Longrightarrow> \<exists>typ cfg. mk_reg typ cfg = Inr (snd (snd e))"
proof (induction cfgs arbitrary: i entries)
  case (Cons rc cfgs)
  from Cons.prems(1) obtain reg where reg: "mk_reg (pc_type rc) (withRegistryProxy (pc_config rc) proxy) = Inr reg"
    and rest: "configured_from mk_reg proxy (Suc i) cfgs (entries @ [(pc_type rc, int i, reg)]) = Inr es"
    by (auto split: sum.splits option.splits)
  from Cons.IH [OF rest Cons.prems(2)] reg Cons.prems(3) show ?case by (cases "e = (pc_type rc, int i, reg)") auto
qed simp

lemma builtin_from_made:
  "builtin_from mk_reg proxy hosts entries seen = Inr es \<Longrightarrow> e \<in> set es \<Longrightarrow> e \<notin> set entries
    \<Longrightarrow> \<exists>typ cfg. mk_reg typ cfg = Inr (snd (snd e))"
proof (induction hosts arbitrary: entries seen)
  case (Cons host hosts)
  show ?case
  proof (cases "seen host")
    case False
    with Cons.prems(1) obtain reg where reg: "mk_reg oci_type (withRegistryProxy [(host_key, AStr host)] proxy) = Inr reg"
      and rest: "builtin_from mk_reg proxy hosts (entries @ [(oci_type, -1, reg)]) (seen(host := True)) = Inr es"
      by (auto split: sum.splits)
    from Cons.IH [OF rest Cons.prems(2)] reg Cons.prems(3) show ?thesis by (cases "e = (oci_type, -1, reg)") auto
  qed (use Cons in auto)
qed simp

lemma buildRegistries_made:
  assumes "buildRegistries mk_reg cfgs proxy = Inr regs" and "reg \<in> set regs"
  shows "\<exists>typ cfg. mk_reg typ cfg = Inr reg"
proof -
  from assms(1) obtain own es where own: "configured_from mk_reg proxy 0 cfgs [] = Inr own"
    and es: "builtin_from mk_reg proxy publicRegistryHosts own (\<lambda>h. entry_of_host own h \<noteq> None) = Inr es"
    and regs: "regs = map (\<lambda>(_, _, reg). reg) (filter (\<lambda>(_, idx, _). 0 \<le> idx) es) @
               map (\<lambda>(_, _, reg). reg) (filter (\<lambda>(_, idx, _). idx < 0) es)"
    using assms(1) by (auto simp: buildRegistries_def split: sum.splits)
  from regs assms(2) obtain e where e: "e \<in> set es" "snd (snd e) = reg" by force
  show ?thesis
    using configured_from_made [OF own, of e] builtin_from_made [OF es e(1)] e(2) by (cases "e \<in> set own") auto
qed

text \<open>If the network and the clock are in order, no operation of a registry takes negative time.\<close>

definition oci_mono :: "'w oci_env \<Rightarrow> bool" where
  "oci_mono oe \<longleftrightarrow> net_mono (oe_net oe) \<and> env_laws (oe_env oe)"

lemma do_call_mono:
  "oci_mono oe \<Longrightarrow> ctx_mono (oe_env oe) (ro_ctx opts) \<Longrightarrow> do_call oe opts call td = (x, td')
    \<Longrightarrow> e_now (oe_env oe) (td_world td) \<le> e_now (oe_env oe) (td_world td')"
  unfolding do_call_def oci_mono_def by (blast intro: run_call_mono)

lemma list_pages_mono:
  "oci_mono oe \<Longrightarrow> ctx_mono (oe_env oe) (ro_ctx opts) \<Longrightarrow> list_pages oe debug opts pages l td = (r, l', td')
    \<Longrightarrow> e_now (oe_env oe) (td_world td) \<le> e_now (oe_env oe) (td_world td')"
proof (induction pages arbitrary: l td rule: lister_induct [of _ oe opts])
  case (NextPage next_page)
  obtain answer rest td1 where call: "do_call oe opts next_page td = ((answer, rest), td1)"
    by (metis prod.exhaust)
  from do_call_mono [OF NextPage.prems(1,2) call] NextPage.IH [OF call NextPage.prems(1,2)] NextPage.prems(3)
  show ?case by (fastforce simp: call Let_def split: sum.splits)
qed simp

lemma remoteOpts_simps [simp]:
  "ro_ctx (remoteOpts oe r c) = c" "ro_auth (remoteOpts oe r c) = oc_auth r"
  "ro_transport (remoteOpts oe r c) = Some (stack (base_transport oe r))"
  by (simp_all add: remoteOpts_def withHangTrace_def withRetryAfterCapture_def)

lemma untold_simps [simp]: "td_world (untold w) = w" "td_sink (untold w) = new_sink"
  by (simp_all add: untold_def)

text \<open>The options of the requests of a listing.\<close>

definition listing_opts :: "'w oci_env \<Rightarrow> oci \<Rightarrow> ctx \<Rightarrow> 'w remote_opts" where
  "listing_opts oe r c = remoteOpts oe r (listing_ctx c (Some (slog_Default (oe_net oe))))"

lemma listing_ctx_mono: "(\<And>l. lg = Some l \<Longrightarrow> log_mono e l) \<Longrightarrow> ctx_mono e (listing_ctx c lg)"
  by (simp add: ctx_mono_def listing_ctx_def withHTTPTripSink_def plain_ctx_def Let_def split: option.split)

lemma debug_line_mono: "(\<And>l. lg = Some l \<Longrightarrow> log_mono e l) \<Longrightarrow> e_now e w \<le> e_now e (debug_line lg line w)"
  by (simp add: debug_line_def log_mono_def split: option.split)

lemma listTagsOnce_mono:
  assumes "oci_mono oe" and "\<And>l. lg = Some l \<Longrightarrow> log_mono (oe_env oe) l"
  shows "e_now (oe_env oe) w \<le> e_now (oe_env oe) (snd (listTagsOnce oe r c repo lg w))"
proof -
  let ?e = "oe_env oe"
  let ?opts = "remoteOpts oe r (listing_ctx c lg)"
  let ?call = "rm_lister (oe_remote oe) (nameOpts r) (oc_auth r) (oc_host r @ ''/'' @ repo)"
  have ctx: "ctx_mono ?e (ro_ctx ?opts)" using listing_ctx_mono [OF assms(2)] by simp
  note line = debug_line_mono [of lg ?e, OF assms(2)]
  obtain answer td1 where call: "do_call oe ?opts ?call (untold w) = (answer, td1)" by fastforce
  from do_call_mono [OF assms(1) ctx call] have w1: "e_now ?e w \<le> e_now ?e (td_world td1)" by simp
  show ?thesis
  proof (cases answer)
    case (Inl err)
    with call w1 order_trans [OF w1 line] show ?thesis
      by (simp add: listTagsOnce_def Let_def split: option.split)
  next
    case (Inr pages)
    let ?l = "if debug_of lg then recordPage (elapsed_since oe (untold w) td1) no_pages else no_pages"
    obtain x l td2 where pages: "list_pages oe (debug_of lg) ?opts pages ?l td1 = (x, l, td2)" using prod_cases3 by blast
    from w1 list_pages_mono [OF assms(1) ctx pages] have w2: "e_now ?e w \<le> e_now ?e (td_world td2)" by simp
    with call Inr pages order_trans [OF w2 line] show ?thesis
      by (simp add: listTagsOnce_def Let_def split: option.split)
  qed
qed

lemma listTags_world: "snd (oci_ListTags oe r c repo w) = snd (listTagsOnce oe r c repo (Some (slog_Default (oe_net oe))) w)"
  by (simp add: oci_ListTags_def listTags_def split: prod.split sum.split)

lemma oci_registry_mono:
  assumes "oci_mono oe"
  shows "registry_mono (oe_env oe) (oci_registry oe r)"
proof -
  have lg: "\<And>l. Some (slog_Default (oe_net oe)) = Some l \<Longrightarrow> log_mono (oe_env oe) l"
    using assms by (simp add: oci_mono_def net_mono_def)
  have "e_now (oe_env oe) w \<le> e_now (oe_env oe) (snd (oci_ListTags oe r c repo w))" for c repo w
    unfolding listTags_world by (rule listTagsOnce_mono [OF assms lg])
  moreover have "e_now (oe_env oe) w \<le> e_now (oe_env oe) (snd (oci_TagDigest oe r c repo tag w))" for c repo tag w
  proof -
    let ?opts = "remoteOpts oe r (plain_ctx c)"
    have "ctx_mono (oe_env oe) (ro_ctx ?opts)" by (simp add: ctx_mono_def plain_ctx_def)
    from do_call_mono [OF assms this, of _ "untold w"] show ?thesis
      by (auto simp: oci_TagDigest_def tagDigestOnce_def Let_def split: option.split prod.split sum.split)
  qed
  ultimately show ?thesis by (simp add: registry_mono_def call_mono_def oci_registry_def)
qed

lemma traced_rec_path: "tr_path (traced_rec nt req evs w) = hq_path req"
proof -
  have "tr_path (clientTrace t ev r) = tr_path r" for t ev r by (cases ev) simp_all
  then have "tr_path (trace_all evs r) = tr_path r" for r
    unfolding trace_all_def by (induction evs arbitrary: r) (auto split: prod.split)
  then show ?thesis by (simp add: traced_rec_def new_recorder_def)
qed

lemma parseRetryAfterHeader_seconds:
  assumes "int n * second < 2 ^ 63"
  shows "parseRetryAfterHeader http_time now (itoa_nat n) = int n * second"
proof -
  have "\<forall>c\<in>set (itoa_nat n). \<not> blank_char c"
    using itoa_nat_digits [of n] by (auto simp: list_all_iff blank_char_def is_digit_def byte_def)
  then have "dropWhile blank_char (itoa_nat n) = itoa_nat n" "dropWhile blank_char (rev (itoa_nat n)) = rev (itoa_nat n)"
    by (auto simp: dropWhile_eq_self_iff hd_rev)
  then have trim: "trimHeaderValue (itoa_nat n) = itoa_nat n" by (simp add: trimHeaderValue_def)
  have "int64 (int n)" "int64 (int n * second)" using assms by (auto simp: int64_def second_def)
  then show ?thesis by (simp add: parseRetryAfterHeader_def trim Let_def atoi_itoa_nat dur_mul_exact)
qed

text \<open>A listing with a sink counts its requests.\<close>

lemma do_call_counts:
  assumes "counts sent (oe_net oe)" and "cx_sink c" and "logs_default (oe_net oe) c"
    and "do_call oe (remoteOpts oe r c) call td = (x, td')"
  shows "sk_trips (td_sink td') - sk_trips (td_sink td) = int (sent (td_world td')) - int (sent (td_world td))"
  using run_call_counts [OF assms(1-3)] assms(4) by (simp add: do_call_def)

lemma list_pages_counts:
  assumes "counts sent (oe_net oe)" and "cx_sink c" and "logs_default (oe_net oe) c"
  shows "list_pages oe debug (remoteOpts oe r c) pages l td = (x, l', td')
    \<Longrightarrow> sk_trips (td_sink td') - sk_trips (td_sink td) = int (sent (td_world td')) - int (sent (td_world td))"
proof (induction pages arbitrary: l td rule: lister_induct [of _ oe "remoteOpts oe r c"])
  case (NextPage next_page)
  obtain answer rest td1 where call: "do_call oe (remoteOpts oe r c) next_page td = ((answer, rest), td1)"
    by (metis prod.exhaust)
  from do_call_counts [OF assms call] NextPage.IH [OF call] NextPage.prems
  show ?case by (fastforce simp: call Let_def split: sum.splits)
qed simp

lemma failed_listing:
  fixes oe :: "'w oci_env"
  assumes "reg_ListTags (oci_registry oe r) c repo w = (Inl err, w')" and "nt_debug (oe_net oe)"
    and "rm_repository (oe_remote oe) (nameOpts r) (oc_host r @ ''/'' @ repo) = None"
    and "rm_puller (oe_remote oe) (oc_auth r) = None" and "counts sent (oe_net oe)"
  obtains l err0 elapsed and td :: "'w traced" where
    "w' = e_log (oe_env oe) (incomplete (nt_text_of (oe_net oe)) repo l elapsed err0 (Some (td_sink td))) (td_world td)"
    "err = mapRegistryError err0" "sk_trips (td_sink td) = int (sent (td_world td)) - int (sent w)"
proof -
  let ?lg = "Some (slog_Default (oe_net oe))"
  let ?c = "listing_ctx c ?lg"
  let ?call = "rm_lister (oe_remote oe) (nameOpts r) (oc_auth r) (oc_host r @ ''/'' @ repo)"
  have debug: "debug_of ?lg" and lgr: "lg_debug (slog_Default (oe_net oe))" "lg_put (slog_Default (oe_net oe)) = e_log (oe_env oe)"
    using assms(2) by (simp_all add: debug_of_def slog_Default_def)
  have ctx: "cx_sink ?c" "logs_default (oe_net oe) ?c"
    using debug by (simp_all add: listing_ctx_def withHTTPTripSink_def logs_default_def)
  obtain answer td1 where call: "do_call oe (remoteOpts oe r ?c) ?call (untold w) = (answer, td1)" by fastforce
  from do_call_counts [OF assms(5) ctx call]
  have trips: "sk_trips (td_sink td1) = int (sent (td_world td1)) - int (sent w)" by (simp add: new_sink_def)
  note unfold = oci_registry_def oci_ListTags_def listTags_def listTagsOnce_def debug
    debug_line_def lgr
  show thesis
  proof (cases answer)
    case (Inl err0)
    show thesis
      by (rule that [of no_pages "elapsed_since oe (untold w) td1" err0 td1])
        (use assms(1,3,4) call Inl trips in \<open>simp_all add: unfold Let_def\<close>)
  next
    case (Inr pages)
    let ?l = "recordPage (elapsed_since oe (untold w) td1) no_pages"
    obtain x l td2 where pages: "list_pages oe True (remoteOpts oe r ?c) pages ?l td1 = (x, l, td2)"
      using prod_cases3 by blast
    from list_pages_counts [OF assms(5) ctx pages] trips
    have "sk_trips (td_sink td2) = int (sent (td_world td2)) - int (sent w)" by simp
    moreover from assms(1,3,4) call Inr pages obtain err0 where "x = Some err0"
      by (cases x) (simp_all add: unfold Let_def)
    ultimately show thesis
      by (intro that [of l "elapsed_since oe (untold w) td2" err0 td2])
        (use assms(1,3,4) call Inr pages in \<open>simp_all add: unfold Let_def\<close>)
  qed
qed

text \<open>What a listing comes to: the error of the first page, which the lister has fetched, or its pages.\<close>

definition listing_result :: "'w oci_env \<Rightarrow> oci \<Rightarrow> ctx \<Rightarrow> string \<Rightarrow> 'w \<Rightarrow> go_error + string list" where
  "listing_result oe r c repo w =
     (case do_call oe (listing_opts oe r c) (rm_lister (oe_remote oe) (nameOpts r) (oc_auth r) (oc_host r @ ''/'' @ repo))
             (untold w) of
        (Inl err, td) \<Rightarrow> Inl err
      | (Inr pages, td) \<Rightarrow> joined_pages (page_answers oe (listing_opts oe r c) pages td))"

lemma listing_joined:
  assumes "rm_repository (oe_remote oe) (nameOpts r) (oc_host r @ ''/'' @ repo) = None"
    and "rm_puller (oe_remote oe) (oc_auth r) = None"
  shows "fst (reg_ListTags (oci_registry oe r) c repo w) =
    (case listing_result oe r c repo w of Inl err \<Rightarrow> Inl (mapRegistryError err) | Inr tags \<Rightarrow> Inr tags)"
proof -
  let ?lg = "Some (slog_Default (oe_net oe))"
  let ?call = "rm_lister (oe_remote oe) (nameOpts r) (oc_auth r) (oc_host r @ ''/'' @ repo)"
  obtain answer td where call: "do_call oe (listing_opts oe r c) ?call (untold w) = (answer, td)" by fastforce
  show ?thesis
  proof (cases answer)
    case (Inl err)
    with assms call show ?thesis
      unfolding listing_opts_def
      by (simp add: listing_result_def listing_opts_def oci_registry_def oci_ListTags_def listTags_def listTagsOnce_def Let_def)
  next
    case (Inr pages)
    let ?l0 = "if debug_of ?lg then recordPage (elapsed_since oe (untold w) td) no_pages else no_pages"
    obtain res l td2 where l: "list_pages oe (debug_of ?lg) (listing_opts oe r c) pages ?l0 td = (res, l, td2)"
      using prod_cases3 by blast
    have "ls_tags ?l0 = []" by (simp add: recordPage_def no_pages_def)
    with list_pages_joined [OF l] assms call Inr l show ?thesis
      unfolding listing_opts_def
      by (auto simp: listing_result_def listing_opts_def oci_registry_def oci_ListTags_def listTags_def listTagsOnce_def
          Let_def split: sum.splits)
  qed
qed

lemma buildRegistries_bounded:
  assumes "buildRegistries (registry_New oe) cfgs proxy = Inr regs"
  shows "distinct (map reg_host regs)"
    and "reg \<in> set regs \<Longrightarrow> \<exists>r. reg = oci_registry oe r \<and> bounded_client r"
  using buildRegistries_hosts [OF assms oci_public_factory] buildRegistries_made [OF assms] registry_New_Inr by blast+

section \<open>Properties\<close>

text \<open>
  C13. Every host has one registry client: if the registries can be built, no two answer for the same
  host, the configured ones come first, one per configuration entry and in its order, every well-known
  public host has one, all others being configured; and every client limits the time for connecting,
  for the TLS handshake and for the response headers.
\<close>

theorem registries_cover_hosts:
  assumes "buildRegistries (registry_New oe) cfgs proxy = Inr regs"
  shows "distinct (map reg_host regs)
    \<and> list_all2 (\<lambda>rc reg. registry_New oe (pc_type rc) (withRegistryProxy (pc_config rc) proxy) = Inr reg)
        cfgs (take (length cfgs) regs)
    \<and> set publicRegistryHosts \<subseteq> set (map reg_host regs)
    \<and> set (map reg_host (drop (length cfgs) regs)) \<subseteq> set publicRegistryHosts
    \<and> (\<forall>reg\<in>set regs. \<exists>r. reg = oci_registry oe r \<and> bounded_client r)"
  using buildRegistries_hosts [OF assms oci_public_factory] buildRegistries_made [OF assms] registry_New_Inr by blast

text \<open>
  C35. Listing is complete: the tags of a repository are those of all pages, in order; if a page fails, no
  tags are returned at all but the error of the first failing page, translated for the pass.
\<close>

theorem oci_lists_all:
  assumes "rm_repository (oe_remote oe) (nameOpts r) (oc_host r @ ''/'' @ repo) = None"
    and "rm_puller (oe_remote oe) (oc_auth r) = None"
  shows "fst (reg_ListTags (oci_registry oe r) c repo w) =
    (case listing_result oe r c repo w of Inl err \<Rightarrow> Inl (mapRegistryError err) | Inr tags \<Rightarrow> Inr tags)"
  by (rule listing_joined [OF assms])

text \<open>
  C36. What a registry answers reaches the retry logic of the pass through the transports of the client:
  a response 404, 401 or 403 becomes a permanent error; a response 429 becomes a rate-limit error
  carrying the delay its \<open>Retry-After\<close> header gives in seconds, exactly as long as the delay fits 64 bits;
  a 5xx stays the server error it is and any other error is passed on unchanged.
\<close>

theorem registry_errors_reach_pass:
  assumes "nt_send (oe_net oe) (base_transport oe r) req (td_world td) = (evs, Inr resp0, w1)"
    and "rr_captured resp0 = None" and "ro_transport (remoteOpts oe r c) = Some tp"
    and "fst (RoundTrip (oe_net oe) tp req td) = Inr resp"
    and "find is_transport_error (err_chain err) = Some (ErrTransport (rr_status resp) (retryAfterFromRequest resp) m)"
  shows "rr_status resp = rr_status resp0
    \<and> (rr_status resp0 \<in> {404, 401, 403} \<longrightarrow> permanent (mapRegistryError err))
    \<and> (\<forall>n. rr_status resp0 = 429 \<and> header_get resp0 ''Retry-After'' = itoa_nat n \<and> int n * second < 2 ^ 63 \<longrightarrow>
        isRateLimit (mapRegistryError err) \<and> RetryAfterFromError (mapRegistryError err) = (int n * second, True))
    \<and> (rr_status resp0 \<notin> {404, 401, 403, 429} \<longrightarrow> mapRegistryError err = err
        \<and> (isServerError err \<longleftrightarrow> 500 \<le> rr_status resp0 \<and> rr_status resp0 < 600))"
proof -
  let ?now = "e_now (oe_env oe) w1"
  have resp: "captured (nt_http_time (oe_net oe)) ?now (Inr resp0) = Inr resp"
    using assms(3,4) by (rule_tac stack_outcome [OF assms(1)]) auto
  then have status: "rr_status resp = rr_status resp0" by (auto simp: captured_def split: if_splits)
  show ?thesis
    unfolding status [symmetric]
  proof (intro conjI impI allI)
    show "permanent (mapRegistryError err)" if "rr_status resp \<in> {404, 401, 403}"
      using assms(5) that by (auto simp: mapRegistryError_def permanent_def err_is_def err_matches_def)
    show "mapRegistryError err = err" if "rr_status resp \<notin> {404, 401, 403, 429}"
      using assms(5) that by (simp add: mapRegistryError_def)
    show "isServerError err \<longleftrightarrow> 500 \<le> rr_status resp \<and> rr_status resp < 600"
      using assms(5) by (simp add: isServerError_def)
  next
    fix n
    assume n: "rr_status resp = 429 \<and> header_get resp0 ''Retry-After'' = itoa_nat n \<and> int n * second < 2 ^ 63"
    with resp parseRetryAfterHeader_seconds [of n] have "retryAfterFromRequest resp = int n * second"
      by (auto simp: captured_def retryAfterFromRequest_def retry_after_header_def status split: if_splits)
    with RateLimit_mapped [of err "int n * second" m] assms(5) n
    show "isRateLimit (mapRegistryError err)" "RetryAfterFromError (mapRegistryError err) = (int n * second, True)"
      by auto
  qed simp
qed

text \<open>
  C37. Every request of a client is traced and a hung connection does not stay in use: the caller gets the
  network's answer, an error or a response, unchanged but for the delay that is read from a 429; a request
  of a listing is counted in the sink with its last phase, which is \<open>waiting_headers\<close> if the server has
  taken the request and sent nothing back; and the connection is closed, below TLS, exactly if the request
  timed out waiting for headers while its context was alive.
  \<open>shut\<close> reads the closed connections from the world.
\<close>

theorem traced_request:
  fixes oe :: "'w oci_env"
  assumes "nt_send (oe_net oe) (base_transport oe r) req (td_world td) = (evs, answer, w1)"
    and "ro_transport (remoteOpts oe r c) = Some tp" and "RoundTrip (oe_net oe) tp req td = (answer', td')"
    and "watches shut (oe_net oe) (logger_of (oe_net oe) req)"
  shows "answer' = (case answer of
        Inl err \<Rightarrow> Inl err
      | Inr resp \<Rightarrow> Inr (if rr_status resp = 429
          then resp\<lparr>rr_captured := Some (parseRetryAfterHeader (nt_http_time (oe_net oe))
            (e_now (nt_env (oe_net oe)) w1) (header_get resp ''Retry-After''))\<rparr>
          else resp))
    \<and> (\<not> cx_sink (hq_ctx req) \<longrightarrow> td_sink td' = td_sink td)
    \<and> (cx_sink (hq_ctx req) \<longrightarrow> sk_trips (td_sink td') = sk_trips (td_sink td) + 1
        \<and> sn_path (sk_last (td_sink td')) = hq_path req
        \<and> (\<forall>evs0 t. evs = evs0 @ [(t, WroteRequest)] \<longrightarrow> sn_phase (sk_last (td_sink td')) = ''waiting_headers''))
    \<and> shut (td_world td') = shut w1
        @ (case tr_conn (traced_rec (oe_net oe) req evs (td_world td)) of
             None \<Rightarrow> []
           | Some conn \<Rightarrow>
               if e_err (oe_env oe) (cx_ctx (hq_ctx req)) w1 = None
                 \<and> isResponseHeaderTimeout (nt_text_of (oe_net oe)) (answer_err answer) then [hung_socket conn] else [])"
proof -
  let ?r = "traced_rec (oe_net oe) req evs (td_world td)"
  have waiting: "tr_phase ?r = ''waiting_headers''" if "evs = evs0 @ [(t, WroteRequest)]" for evs0 t
    by (simp add: that traced_rec_def trace_all_def ph_waiting_def)
  show ?thesis
    by (rule stack_outcome [OF assms(1), of shut])
      (use assms(2-4) waiting in \<open>auto simp: captured_def retry_after_header_def tell_sink_def httpTripSinkFrom_def record_trip_def snapshot_def
        traced_rec_path hung_def split: option.splits sum.splits\<close>)
qed

text \<open>
  C38. A listing that fails says why and what it cost: with debug logging its last line is the one for the
  incomplete listing, with the error, and it tells the number of all requests the listing has made,
  those the library has repeated included. \<open>lg\<close> reads the log from the world, \<open>sent\<close> the number of requests.
\<close>

theorem failed_listing_logged:
  fixes oe :: "'w oci_env"
  assumes "reg_ListTags (oci_registry oe r) c repo w = (Inl err, w')" and "nt_debug (oe_net oe)"
    and "rm_repository (oe_remote oe) (nameOpts r) (oc_host r @ ''/'' @ repo) = None"
    and "rm_puller (oe_remote oe) (oc_auth r) = None"
    and "observes lg (oe_env oe)" and "counts sent (oe_net oe)"
  shows "\<exists>attrs err0. last (lg w') = LogLine LevelDebug ''list_tags incomplete'' attrs
    \<and> err = mapRegistryError err0
    \<and> map_of attrs ''err'' = Some (AttrStr (sanitizeRegistryErr (nt_text_of (oe_net oe)) (Some err0)))
    \<and> map_of attrs ''http_trips'' = (if sent w' = sent w then None else Some (AttrNum (int (sent w') - int (sent w))))"
proof -
  obtain l err0 elapsed and td :: "'w traced" where
    line: "w' = e_log (oe_env oe) (incomplete (nt_text_of (oe_net oe)) repo l elapsed err0 (Some (td_sink td))) (td_world td)"
    and err: "err = mapRegistryError err0"
    and trips: "sk_trips (td_sink td) = int (sent (td_world td)) - int (sent w)"
    by (rule failed_listing [OF assms(1-4,6)])
  have "sent w' = sent (td_world td)" using assms(6) by (simp add: line counts_def)
  moreover have "last (lg w') = incomplete (nt_text_of (oe_net oe)) repo l elapsed err0 (Some (td_sink td))"
    using assms(5) by (simp add: line)
  ultimately show ?thesis using err trips by (auto simp: incomplete_def slogAttrs_def)
qed

section \<open>Witnesses\<close>

text \<open>
  A network whose world is a clock, the log, the closed connections and the number of requests: the
  second page of the repository \<open>busy\<close> is refused with a \<open>Retry-After\<close> of seven seconds, and \<open>dead\<close> is
  never answered.
\<close>

record net_world =
  nw_now :: int
  nw_log :: "log_line list"
  nw_shut :: "nat list"
  nw_sent :: nat

definition quiet_world :: net_world where
  "quiet_world = \<lparr>nw_now = 0, nw_log = [], nw_shut = [], nw_sent = 0\<rparr>"

definition sample_time :: "net_world env" where
  "sample_time =
     \<lparr>e_now = nw_now, e_err = \<lambda>c w. e_err clock_env c (nw_now w),
      e_timer = \<lambda>c d w. (case e_timer clock_env c d (nw_now w) of (x, t) \<Rightarrow> (x, w\<lparr>nw_now := t\<rparr>)),
      e_log = \<lambda>l w. w\<lparr>nw_log := nw_log w @ [l]\<rparr>\<rparr>"

definition no_headers :: go_error where "no_headers = ErrText [Lit ''http2: timeout awaiting response headers'']"

definition page_path :: "string \<Rightarrow> string" where "page_path ref = ''/v2/'' @ ref @ ''/tags/list''"

definition sample_answer :: "string \<Rightarrow> string \<Rightarrow> go_error + registry_response" where
  "sample_answer path query =
     (if path = page_path ''h/dead'' then Inl no_headers
      else if path = page_path ''h/busy'' \<and> query = ''2'' then
        Inr \<lparr>rr_status = 429, rr_header = [(''Retry-After'', ''7'')], rr_body = [], rr_captured = None\<rparr>
      else Inr \<lparr>rr_status = 200, rr_header = [], rr_body = [], rr_captured = None\<rparr>)"

definition sample_events :: "int \<Rightarrow> (int \<times> trip_event) list" where
  "sample_events now = [(now, GotConn True False 0 (Some (TLSConn 4 (Some 3), ''192.0.2.1:443''))), (now, WroteRequest)]"

definition sample_send :: "net_world http_request \<Rightarrow> net_world
    \<Rightarrow> (int \<times> trip_event) list \<times> (go_error + registry_response) \<times> net_world" where
  "sample_send req w =
     (sample_events (nw_now w), sample_answer (hq_path req) (hq_query req), w\<lparr>nw_now := nw_now w + 1, nw_sent := Suc (nw_sent w)\<rparr>)"

definition sample_text :: "go_error \<Rightarrow> string" where
  "sample_text e = (case e of ErrText [Lit s] \<Rightarrow> s | _ \<Rightarrow> [])"

definition sample_net :: "net_world net" where
  "sample_net =
     \<lparr>nt_env = sample_time, nt_debug = True, nt_text_of = sample_text, nt_http_time = \<lambda>_. None,
      nt_send = \<lambda>_. sample_send, nt_close = \<lambda>n w. w\<lparr>nw_shut := nw_shut w @ [n]\<rparr>, nt_close_idle = \<lambda>_. None\<rparr>"

text \<open>The same without anything to observe, on a world that is a clock.\<close>

definition clock_net :: "int net" where
  "clock_net =
     \<lparr>nt_env = clock_env, nt_debug = True, nt_text_of = sample_text, nt_http_time = \<lambda>_. None,
      nt_send = \<lambda>_ req w. (sample_events w, sample_answer (hq_path req) (hq_query req), w + 1),
      nt_close = \<lambda>_ w. w, nt_close_idle = \<lambda>_. None\<rparr>"

text \<open>A library that lists two pages.\<close>

definition busy_msg :: msg where "busy_msg = [Lit ''too many requests'']"

definition page_call :: "string \<Rightarrow> string \<Rightarrow> http_call" where
  "page_call ref n = \<lparr>hq_method = ''GET'', hq_host = ''h'', hq_path = page_path ref, hq_query = n\<rparr>"

definition second_page :: "go_error + registry_response \<Rightarrow> go_error + string list" where
  "second_page answer =
     (case answer of
        Inl err \<Rightarrow> Inl err
      | Inr resp \<Rightarrow> if rr_status resp = 200 then Inr [''2.0'']
                   else Inl (ErrTransport (rr_status resp) (retryAfterFromRequest resp) busy_msg))"

definition sample_lister :: "string \<Rightarrow> lister" where
  "sample_lister ref =
     NextPage (Return (Inr [''1.0'', ''1.1''],
       NextPage (Send (page_call ref ''2'') (\<lambda>answer. Return (second_page answer, Exhausted)))))"

definition sample_remote :: remote where
  "sample_remote =
     \<lparr>rm_reference = \<lambda>_ _. None, rm_repository = \<lambda>_ _. None, rm_get = \<lambda>_ _ _. Return (Inr ''sha256:0''),
      rm_puller = \<lambda>_. None,
      rm_lister = \<lambda>_ _ ref. Send (page_call ref ''1'') (\<lambda>answer. Return (map_sum id (\<lambda>_. sample_lister ref) answer))\<rparr>"

definition sample_transport :: http_transport where
  "sample_transport = \<lparr>tp_proxy = ProxyFromEnvironment, tp_dial = None, tp_tls_timeout = 0, tp_header_timeout = 0\<rparr>"

definition sample_oci :: oci where
  "sample_oci =
     \<lparr>oc_host = ''h'', oc_auth = Anonymous, oc_insecure = False, oc_transport = Some (HttpTransport sample_transport)\<rparr>"

definition sample_oci_env :: "'w net \<Rightarrow> 'w oci_env" where
  "sample_oci_env nt =
     \<lparr>oe_std = HttpTransport sample_transport, oe_http_default = HttpTransport sample_transport,
      oe_url_parse = \<lambda>_. Inl ErrEOF, oe_socks = \<lambda>_. None, oe_remote = sample_remote, oe_net = nt\<rparr>"

lemma sample_net_readers:
  "observes nw_log sample_time" "counts nw_sent sample_net" "watches nw_shut sample_net (slog_Default sample_net)"
  by (simp_all add: observes_def sample_time_def counts_def sample_net_def sample_send_def watches_def slog_Default_def split: prod.splits)

lemma sample_oci_checks:
  "rm_repository (oe_remote (sample_oci_env nt)) (nameOpts sample_oci) ref = None"
  "rm_puller (oe_remote (sample_oci_env nt)) (oc_auth sample_oci) = None"
  by (simp_all add: sample_oci_env_def sample_remote_def)

theorem oci_lists_all_witness:
  "fst (reg_ListTags (oci_registry (sample_oci_env sample_net) sample_oci) None ''a'' quiet_world)
     = Inr [''1.0'', ''1.1'', ''2.0'']
   \<and> fst (reg_ListTags (oci_registry (sample_oci_env sample_net) sample_oci) None ''busy'' quiet_world)
     = Inl (RateLimitError (7 * second) (ErrTransport 429 (7 * second) busy_msg))"
proof -
  let ?oe = "sample_oci_env sample_net"
  have "listing_result ?oe sample_oci None ''a'' quiet_world = Inr [''1.0'', ''1.1'', ''2.0'']"
    "listing_result ?oe sample_oci None ''busy'' quiet_world = Inl (ErrTransport 429 (7 * second) busy_msg)"
    by code_simp+
  then show ?thesis
    using oci_lists_all [of ?oe sample_oci _ None quiet_world, OF sample_oci_checks]
    by (simp add: mapRegistryError_def is_transport_error_def)
qed

theorem registry_errors_reach_pass_witness:
  "RetryAfterFromError (mapRegistryError (ErrWrap [] (ErrTransport 429 (7 * second) busy_msg))) = (7 * second, True)"
proof -
  let ?oe = "sample_oci_env sample_net" and ?tp = "stack (base_transport (sample_oci_env sample_net) sample_oci)"
  let ?req = "with_ctx (plain_ctx None) (page_call ''h/busy'' ''2'')"
  obtain resp where resp: "fst (RoundTrip (oe_net ?oe) ?tp ?req (untold quiet_world)) = Inr resp"
    and r: "rr_status resp = 429" "retryAfterFromRequest resp = 7 * second"
  proof -
    have "(case fst (RoundTrip (oe_net ?oe) ?tp ?req (untold quiet_world)) of
        Inl _ \<Rightarrow> False | Inr resp \<Rightarrow> rr_status resp = 429 \<and> retryAfterFromRequest resp = 7 * second)"
      by code_simp
    then show thesis using that by (auto split: sum.splits)
  qed
  obtain evs w1 where send: "nt_send (oe_net ?oe) (base_transport ?oe sample_oci) ?req (td_world (untold quiet_world))
      = (evs, Inr \<lparr>rr_status = 429, rr_header = [(''Retry-After'', ''7'')], rr_body = [], rr_captured = None\<rparr>, w1)"
    by (simp add: sample_oci_env_def sample_net_def sample_send_def page_call_def sample_answer_def page_path_def with_ctx_def)
  have f: "find is_transport_error (err_chain (ErrWrap [] (ErrTransport 429 (7 * second) busy_msg)))
      = Some (ErrTransport (rr_status resp) (retryAfterFromRequest resp) busy_msg)"
    by (simp add: is_transport_error_def r)
  have "itoa_nat 7 = ''7''" by code_simp
  with registry_errors_reach_pass [OF send _ _ resp f, of "plain_ctx None"]
  show ?thesis by (auto simp: header_get_def second_def dest: spec [of _ 7])
qed

theorem traced_request_witness:
  "\<exists>answer td'. RoundTrip sample_net (stack (base_transport (sample_oci_env sample_net) sample_oci))
       (with_ctx ((plain_ctx None)\<lparr>cx_sink := True\<rparr>) (page_call ''h/dead'' ''1'')) (untold quiet_world) = (answer, td')
     \<and> answer_err answer = Some no_headers \<and> nw_shut (td_world td') = [3]
     \<and> sk_trips (td_sink td') = 1 \<and> sn_phase (sk_last (td_sink td')) = ''waiting_headers''"
proof -
  let ?oe = "sample_oci_env sample_net" and ?req = "with_ctx ((plain_ctx None)\<lparr>cx_sink := True\<rparr>) (page_call ''h/dead'' ''1'')"
  have send: "nt_send (oe_net ?oe) (base_transport ?oe sample_oci) ?req (td_world (untold quiet_world))
      = (sample_events 0, Inl no_headers, quiet_world\<lparr>nw_now := 1, nw_sent := 1\<rparr>)"
    by (simp add: sample_oci_env_def sample_net_def sample_send_def page_call_def sample_answer_def with_ctx_def quiet_world_def)
  have watch: "watches nw_shut (oe_net ?oe) (logger_of (oe_net ?oe) ?req)"
    using sample_net_readers(3) by (simp add: logger_of_def httpTripLogFrom_def plain_ctx_def sample_oci_env_def)
  obtain answer td' where run: "RoundTrip (oe_net ?oe) (stack (base_transport ?oe sample_oci)) ?req (untold quiet_world) = (answer, td')"
    by fastforce
  have conn: "tr_conn (traced_rec (oe_net ?oe) ?req (sample_events 0) (td_world (untold quiet_world))) = Some (TLSConn 4 (Some 3))"
    by (simp add: traced_rec_def trace_all_def sample_events_def)
  have last: "sample_events 0 = [(0, GotConn True False 0 (Some (TLSConn 4 (Some 3), ''192.0.2.1:443'')))] @ [(0, WroteRequest)]"
    by (simp add: sample_events_def)
  have alive: "e_err (oe_env ?oe) (cx_ctx (hq_ctx ?req)) (quiet_world\<lparr>nw_now := 1, nw_sent := 1\<rparr>) = None"
    by (simp add: sample_oci_env_def sample_net_def sample_time_def clock_env_def plain_ctx_def)
  have timeout: "isResponseHeaderTimeout (nt_text_of (oe_net ?oe)) (Some no_headers)" by code_simp
  from traced_request [OF send _ run watch, of "plain_ctx None"] run conn alive timeout last
  show ?thesis by (intro exI [of _ answer] exI [of _ td']) (auto simp: sample_oci_env_def quiet_world_def hung_socket_def new_sink_def)
qed

theorem failed_listing_logged_witness:
  "\<exists>w' attrs. reg_ListTags (oci_registry (sample_oci_env sample_net) sample_oci) None ''busy'' quiet_world
       = (Inl (RateLimitError (7 * second) (ErrTransport 429 (7 * second) busy_msg)), w')
     \<and> last (nw_log w') = LogLine LevelDebug ''list_tags incomplete'' attrs
     \<and> map_of attrs ''http_trips'' = Some (AttrNum 2)"
proof -
  let ?oe = "sample_oci_env sample_net"
  let ?ask = "reg_ListTags (oci_registry ?oe sample_oci) None ''busy'' quiet_world"
  obtain w' where ask: "?ask = (Inl (RateLimitError (7 * second) (ErrTransport 429 (7 * second) busy_msg)), w')"
    and sent: "nw_sent w' = 2"
  proof -
    have "fst ?ask = Inl (RateLimitError (7 * second) (ErrTransport 429 (7 * second) busy_msg))" "nw_sent (snd ?ask) = 2"
      by code_simp+
    then show thesis using that by (cases ?ask) simp
  qed
  have "nt_debug (oe_net ?oe)" "oe_env ?oe = sample_time" "oe_net ?oe = sample_net"
    by (simp_all add: sample_oci_env_def sample_net_def)
  with failed_listing_logged [OF ask _ sample_oci_checks, of nw_log nw_sent] sample_net_readers(1,2) ask sent
  show ?thesis by (auto simp: quiet_world_def)
qed

lemma sample_registry_New:
  "trim_space h = h \<Longrightarrow> h \<noteq> [] \<Longrightarrow>
     \<exists>r. registry_New (sample_oci_env nt) oci_type [(host_key, AStr h)] = Inr r \<and> reg_host r = h"
  by (simp add: registry_New_def oci_New_def oci_optionalString_def buildAuth_def username_key_def
      token_key_def host_key_def proxy_key_def sample_oci_env_def BuildTransport_def Let_def oci_registry_def)

lemma sample_registries:
  assumes "cfgs = [] \<or> cfgs = [\<lparr>pc_type = oci_type, pc_config = [(host_key, AStr ''h'')]\<rparr>]"
  shows "\<exists>regs. buildRegistries (registry_New (sample_oci_env nt)) cfgs [] = Inr regs"
proof -
  obtain f where f: "trim_space h = h \<Longrightarrow> h \<noteq> [] \<Longrightarrow>
      registry_New (sample_oci_env nt) oci_type [(host_key, AStr h)] = Inr (f h) \<and> reg_host (f h) = h" for h
    using sample_registry_New [of _ nt] by metis
  have "trim_space ''h'' = ''h''" by code_simp
  note h = f [OF this]
  note p = public_hosts_trim [unfolded publicRegistryHosts_def, simplified]
  from assms h f [of "''index.docker.io''"] f [of "''ghcr.io''"] f [of "''quay.io''"] f [of "''registry.gitlab.com''"] p
  show ?thesis
    by (auto simp: buildRegistries_def withRegistryProxy_def publicRegistryHosts_def entry_of_host_def)
qed

theorem registries_cover_hosts_witness:
  "\<exists>regs. buildRegistries (registry_New (sample_oci_env clock_net)) [\<lparr>pc_type = ''oci'', pc_config = [(host_key, AStr ''h'')]\<rparr>] [] = Inr regs
     \<and> distinct (map reg_host regs) \<and> set publicRegistryHosts \<subseteq> set (map reg_host regs)"
proof -
  obtain regs where
    r: "buildRegistries (registry_New (sample_oci_env clock_net)) [\<lparr>pc_type = oci_type, pc_config = [(host_key, AStr ''h'')]\<rparr>] [] = Inr regs"
    using sample_registries by blast
  from registries_cover_hosts [OF r] r show ?thesis by (auto simp: oci_type_def)
qed


end
