(* ===== verification/Docker.thy ===== *)
theory Docker
  imports Engine Prelude
begin

text \<open>
  The Docker provider (\<open>internal/provider/docker/docker.go\<close>): the running containers with their labels,
  and the registry digest of the image a container runs. The Docker client is the record
  \<open>docker_client\<close>; connecting it (socket, environment) is part of its construction.
\<close>

record docker_item =
  di_ID :: string
  di_Names :: "string list"
  di_Image :: string
  di_ImageID :: string
  di_Labels :: labels

text \<open>An inspected image: the labels of its configuration, which may be absent, and its repo digests.\<close>

record docker_image =
  dm_labels :: "labels option"
  dm_digests :: "string list"

record 'w docker_client =
  dk_ping :: "ctx \<Rightarrow> 'w \<Rightarrow> go_error option \<times> 'w"
  dk_list :: "ctx \<Rightarrow> 'w \<Rightarrow> (go_error + docker_item list) \<times> 'w"
  dk_image :: "ctx \<Rightarrow> string \<Rightarrow> 'w \<Rightarrow> (go_error + docker_image) \<times> 'w"
  dk_container :: "ctx \<Rightarrow> string \<Rightarrow> 'w \<Rightarrow> (go_error + string) \<times> 'w"

section \<open>Labels\<close>

text \<open>Copying a map into another, key by key.\<close>

definition copy_into :: "labels \<Rightarrow> labels \<Rightarrow> labels" where
  "copy_into src dst = foldl (\<lambda>m (k, v). set_key k v m) dst src"

type_synonym label_cache = "(string \<times> labels) list"

definition imageLabels :: "'w docker_client \<Rightarrow> ctx \<Rightarrow> string \<Rightarrow> label_cache \<Rightarrow> 'w \<Rightarrow> labels \<times> label_cache \<times> 'w" where
  "imageLabels dk c imageID cache w =
     (case map_of cache imageID of
        Some ls \<Rightarrow> (ls, cache, w)
      | None \<Rightarrow>
          (case dk_image dk c imageID w of
             (Inr img, w) \<Rightarrow>
               (let ls = (case dm_labels img of None \<Rightarrow> [] | Some m \<Rightarrow> copy_into m []) in (ls, set_key imageID ls cache, w))
           | (Inl _, w) \<Rightarrow> ([], set_key imageID [] cache, w)))"

definition labelsForContainer :: "'w docker_client \<Rightarrow> ctx \<Rightarrow> string \<Rightarrow> labels \<Rightarrow> label_cache \<Rightarrow> 'w
    \<Rightarrow> labels \<times> label_cache \<times> 'w" where
  "labelsForContainer dk c imageID containerLabels cache w =
     (if imageID \<noteq> [] then
        (case imageLabels dk c imageID cache w of
           (ls, cache, w) \<Rightarrow> (copy_into containerLabels (copy_into ls []), cache, w))
      else (copy_into containerLabels [], cache, w))"

section \<open>Containers\<close>

definition container_name :: "docker_item \<Rightarrow> string" where
  "container_name i = (case di_Names i of [] \<Rightarrow> [] | n # _ \<Rightarrow> trim_prefix n ''/'')"

fun list_items :: "'w docker_client \<Rightarrow> ctx \<Rightarrow> docker_item list \<Rightarrow> label_cache \<Rightarrow> 'w \<Rightarrow> container list \<times> 'w" where
  "list_items dk c [] cache w = ([], w)"
| "list_items dk c (i # items) cache w =
     (case labelsForContainer dk c (di_ImageID i) (di_Labels i) cache w of
        (ls, cache, w) \<Rightarrow>
          (case list_items dk c items cache w of
             (out, w) \<Rightarrow>
               (\<lparr>c_id = di_ID i, c_name = container_name i, c_image_ref = di_Image i, c_labels = ls\<rparr> # out, w)))"

definition docker_ListRunning :: "'w docker_client \<Rightarrow> ctx \<Rightarrow> 'w \<Rightarrow> (go_error + container list) \<times> 'w" where
  "docker_ListRunning dk c w =
     (case dk_list dk c w of
        (Inl err, w) \<Rightarrow> (Inl (ErrWrap [Lit ''list containers: ''] err), w)
      | (Inr items, w) \<Rightarrow> (case list_items dk c items [] w of (out, w) \<Rightarrow> (Inr out, w)))"

definition docker_Ping :: "'w docker_client \<Rightarrow> ctx \<Rightarrow> 'w \<Rightarrow> go_error option \<times> 'w" where
  "docker_Ping dk c w =
     (case dk_ping dk c w of
        (Some err, w) \<Rightarrow> (Some (ErrWrap [Lit ''docker ping: ''] err), w) | (None, w) \<Rightarrow> (None, w))"

section \<open>The local digest\<close>

text \<open>The first repo digest that parses, names the repository and is a digest reference.\<close>

fun find_digest :: "ref_parser \<Rightarrow> string \<Rightarrow> string list \<Rightarrow> string option" where
  "find_digest parse_ref repo [] = None"
| "find_digest parse_ref repo (d # ds) =
     (case parse_ref d of
        Inl _ \<Rightarrow> find_digest parse_ref repo ds
      | Inr ref \<Rightarrow>
          if nr_repository ref = repo then
            (case nr_kind ref of DigestRef digest \<Rightarrow> Some digest | _ \<Rightarrow> find_digest parse_ref repo ds)
          else find_digest parse_ref repo ds)"

definition docker_LocalDigest :: "ref_parser \<Rightarrow> 'w docker_client \<Rightarrow> ctx \<Rightarrow> container \<Rightarrow> string \<Rightarrow> 'w
    \<Rightarrow> (go_error + string) \<times> 'w" where
  "docker_LocalDigest parse_ref dk c ctr repo w =
     (case dk_container dk c (c_id ctr) w of
        (Inl err, w) \<Rightarrow> (Inl (ErrWrap [Lit ''inspect container '', Str (c_id ctr), Lit '': ''] err), w)
      | (Inr img_id, w) \<Rightarrow>
     (case dk_image dk c img_id w of
        (Inl err, w) \<Rightarrow> (Inl (ErrWrap [Lit ''inspect image for container '', Str (c_name ctr), Lit '': ''] err), w)
      | (Inr img, w) \<Rightarrow>
          (case find_digest parse_ref repo (dm_digests img) of
             Some digest \<Rightarrow> (Inr digest, w)
           | None \<Rightarrow>
               (Inl (ErrText [Lit ''no registry digest for repo '', Quoted repo, Lit '' on container '', Str (c_name ctr)]), w))))"

section \<open>The plugin\<close>

text \<open>\<open>connect\<close> creates the client, for the given socket or from the environment.\<close>

definition socket_key :: string where "socket_key = ''socket''"

definition docker_provider :: "ref_parser \<Rightarrow> 'w docker_client \<Rightarrow> 'w provider" where
  "docker_provider parse_ref dk =
     \<lparr>pv_ListRunning = docker_ListRunning dk, pv_LocalDigest = docker_LocalDigest parse_ref dk,
      pv_Ping = docker_Ping dk\<rparr>"

definition docker_New :: "(string option \<Rightarrow> go_error + 'w docker_client) \<Rightarrow> ref_parser \<Rightarrow> cfg_map \<Rightarrow> go_error + 'w provider" where
  "docker_New connect parse_ref cfg =
     (let host = (case map_of cfg socket_key of
                    Some (AStr socket) \<Rightarrow> if socket \<noteq> [] then Some (''unix://'' @ socket) else None
                  | _ \<Rightarrow> None)
      in case connect host of
        Inl err \<Rightarrow> Inl (ErrWrap [Lit ''create docker client: ''] err)
      | Inr dk \<Rightarrow> Inr (docker_provider parse_ref dk))"

definition provider_New :: "(string option \<Rightarrow> go_error + 'w docker_client) \<Rightarrow> ref_parser \<Rightarrow> string \<Rightarrow> cfg_map
    \<Rightarrow> go_error + 'w provider" where
  "provider_New connect parse_ref name cfg =
     (if name = ''docker'' then docker_New connect parse_ref cfg
      else Inl (ErrText [Lit ''unknown provider '', Quoted name]))"

section \<open>Facts\<close>

lemma map_of_copy_into: "distinct (map fst src) \<Longrightarrow> map_of (copy_into src dst) = map_of dst ++ map_of src"
proof (induction src arbitrary: dst)
  case (Cons e src)
  obtain k v where e: "e = (k, v)" by fastforce
  from Cons have "map_of (copy_into src (set_key k v dst)) = map_of (set_key k v dst) ++ map_of src"
    and "map_of src k = None" by (auto simp: e map_of_eq_None_iff)
  then show ?case by (auto simp: e copy_into_def fun_eq_iff map_add_def split: option.splits)
qed (simp add: copy_into_def)

lemma distinct_copy_into: "distinct (map fst dst) \<Longrightarrow> distinct (map fst (copy_into src dst))"
proof (induction src arbitrary: dst)
  case (Cons e src)
  obtain k v where e: "e = (k, v)" by fastforce
  from Cons.IH [OF distinct_set_key [OF Cons.prems]] show ?case by (simp add: e copy_into_def)
qed (simp add: copy_into_def)

definition cache_of_images :: "(string \<Rightarrow> labels) \<Rightarrow> label_cache \<Rightarrow> bool" where
  "cache_of_images image_labels cache \<longleftrightarrow> (\<forall>i ls. map_of cache i = Some ls \<longrightarrow> map_of ls = map_of (image_labels i) \<and> distinct (map fst ls))"

text \<open>\<open>steady\<close>: during the listing the client gives the same labels for an image every time.\<close>

definition labels_of_image :: "(go_error + docker_image) \<Rightarrow> labels" where
  "labels_of_image answer = (case answer of Inl _ \<Rightarrow> [] | Inr img \<Rightarrow> (case dm_labels img of None \<Rightarrow> [] | Some m \<Rightarrow> m))"

definition steady :: "'w docker_client \<Rightarrow> (string \<Rightarrow> labels) \<Rightarrow> bool" where
  "steady dk image_labels \<longleftrightarrow>
     (\<forall>c i w. distinct (map fst (labels_of_image (fst (dk_image dk c i w))))
        \<and> map_of (labels_of_image (fst (dk_image dk c i w))) = map_of (image_labels i))"

lemma imageLabels_steady:
  assumes "steady dk il" and "cache_of_images il cache" and "imageLabels dk c i cache w = (ls, cache', w')"
  shows "map_of ls = map_of (il i) \<and> distinct (map fst ls) \<and> cache_of_images il cache'"
proof (cases "map_of cache i")
  case None
  obtain answer w1 where a: "dk_image dk c i w = (answer, w1)" by fastforce
  from assms(1) have "distinct (map fst (labels_of_image answer))" "map_of (labels_of_image answer) = map_of (il i)"
    unfolding steady_def by (metis a fst_conv)+
  with assms(2,3) None a show ?thesis
    by (auto simp: imageLabels_def Let_def labels_of_image_def map_of_copy_into distinct_copy_into cache_of_images_def
        split: sum.splits option.splits if_splits)
qed (use assms in \<open>auto simp: imageLabels_def cache_of_images_def\<close>)

text \<open>The labels of a container: its own, and for other keys those of its image.\<close>

definition merged :: "(string \<Rightarrow> labels) \<Rightarrow> docker_item \<Rightarrow> string \<Rightarrow> string option" where
  "merged il i = (if di_ImageID i = [] then Map.empty else map_of (il (di_ImageID i))) ++ map_of (di_Labels i)"

lemma list_items_correct:
  assumes "steady dk il" and "\<forall>i\<in>set items. distinct (map fst (di_Labels i))"
  shows "cache_of_images il cache \<Longrightarrow> list_items dk c items cache w = (out, w') \<Longrightarrow>
    list_all2 (\<lambda>i ctr. c_id ctr = di_ID i \<and> c_name ctr = container_name i \<and> c_image_ref ctr = di_Image i
      \<and> map_of (c_labels ctr) = merged il i) items out"
  using assms(2)
proof (induction items arbitrary: cache w out w')
  case (Cons i items)
  obtain ls cache1 w1 where l: "labelsForContainer dk c (di_ImageID i) (di_Labels i) cache w = (ls, cache1, w1)"
    using prod_cases3 by blast
  have ls: "map_of ls = merged il i \<and> cache_of_images il cache1"
  proof (cases "di_ImageID i = []")
    case False
    obtain img cache2 w2 where im: "imageLabels dk c (di_ImageID i) cache w = (img, cache2, w2)"
      using prod_cases3 by blast
    from imageLabels_steady [OF assms(1) Cons.prems(1) im] im False l Cons.prems(3) show ?thesis
      by (auto simp: labelsForContainer_def merged_def map_of_copy_into)
  qed (use l Cons.prems(1,3) in \<open>auto simp: labelsForContainer_def merged_def map_of_copy_into\<close>)
  obtain out1 w2 where o: "list_items dk c items cache1 w1 = (out1, w2)" by fastforce
  from Cons.IH [OF conjunct2 [OF ls] o] Cons.prems ls l o show ?case by auto
qed simp

text \<open>
  \<open>inspected\<close> reads from the world the images the Docker API was asked for, in order: an inspection adds its
  image, listing the containers adds none. One listing asks for every image that is not in the cache yet,
  and for none twice, whatever the answers are.
\<close>

definition logs_inspections :: "('w \<Rightarrow> string list) \<Rightarrow> 'w docker_client \<Rightarrow> bool" where
  "logs_inspections inspected dk \<longleftrightarrow>
     (\<forall>c i w. inspected (snd (dk_image dk c i w)) = inspected w @ [i])
   \<and> (\<forall>c w. inspected (snd (dk_list dk c w)) = inspected w)"

lemma labelsForContainer_inspects:
  assumes "logs_inspections inspected dk" and "labelsForContainer dk c i own cache w = (ls, cache', w')"
  shows "inspected w' = inspected w @ (if i = [] \<or> i \<in> dom (map_of cache) then [] else [i])
    \<and> dom (map_of cache') = dom (map_of cache) \<union> ({i} - {[]})"
proof -
  have asked: "inspected w2 = inspected w @ [i]" if "dk_image dk c i w = (answer, w2)" for answer w2
    using assms(1) that unfolding logs_inspections_def by (metis snd_conv)
  show ?thesis
    using assms(2)
    by (auto simp: labelsForContainer_def imageLabels_def Let_def split: if_splits option.splits prod.splits sum.splits
        dest: asked)
qed

lemma list_items_inspects:
  assumes "logs_inspections inspected dk"
  shows "list_items dk c items cache w = (out, w') \<Longrightarrow>
    \<exists>asked. inspected w' = inspected w @ asked \<and> distinct asked
      \<and> set asked = di_ImageID ` set items - {[]} - dom (map_of cache)"
proof (induction items arbitrary: cache w out)
  case (Cons i items)
  obtain ls cache1 w1 where l: "labelsForContainer dk c (di_ImageID i) (di_Labels i) cache w = (ls, cache1, w1)"
    using prod_cases3 by blast
  obtain out1 w2 where o: "list_items dk c items cache1 w1 = (out1, w2)" by fastforce
  from l o Cons.prems have "w' = w2" by auto
  with Cons.IH [of cache1 w1 out1] o obtain asked where "inspected w' = inspected w1 @ asked" "distinct asked"
    "set asked = di_ImageID ` set items - {[]} - dom (map_of cache1)" by blast
  with labelsForContainer_inspects [OF assms l] show ?case
    by (intro exI [of _ "(if di_ImageID i = [] \<or> di_ImageID i \<in> dom (map_of cache) then [] else [di_ImageID i]) @ asked"])
      auto
qed simp

section \<open>Properties\<close>

text \<open>
  C39. The fleet is what Docker runs: one container per item, in order, with the item's id, image
  reference and name without its leading slash; its labels are its own and those of its image for the
  keys it does not set itself; and one listing inspects every image of a container exactly once, however
  many containers run it. \<open>inspected\<close> reads the inspections from the world.
\<close>

theorem docker_fleet:
  assumes "docker_ListRunning dk c w = (Inr out, w')" and "steady dk il"
    and "dk_list dk c w = (Inr items, w1)" and "\<forall>i\<in>set items. distinct (map fst (di_Labels i))"
    and "logs_inspections inspected dk"
  shows "list_all2 (\<lambda>i ctr. c_id ctr = di_ID i \<and> c_name ctr = container_name i \<and> c_image_ref ctr = di_Image i
      \<and> map_of (c_labels ctr) = merged il i) items out
    \<and> (\<exists>asked. inspected w' = inspected w @ asked \<and> distinct asked \<and> set asked = di_ImageID ` set items - {[]})"
proof -
  obtain out1 w2 where o: "list_items dk c items [] w1 = (out1, w2)" by fastforce
  with assms(1,3) have same: "out1 = out" "w2 = w'" by (simp_all add: docker_ListRunning_def)
  have "inspected w1 = inspected w" using assms(3,5) unfolding logs_inspections_def by (metis snd_conv)
  with list_items_correct [OF assms(2,4) _ o] list_items_inspects [OF assms(5) o] same show ?thesis
    by (simp add: cache_of_images_def)
qed

text \<open>For the examples: two containers of one image; \<open>inspect\<close> is what an inspection does to the world.\<close>

definition docker_on :: "(string \<Rightarrow> 'w \<Rightarrow> 'w) \<Rightarrow> 'w docker_client" where
  "docker_on inspect =
     \<lparr>dk_ping = \<lambda>_ w. (None, w),
      dk_list = \<lambda>_ w. (Inr [\<lparr>di_ID = ''1'', di_Names = [''/web''], di_Image = ''a:1'', di_ImageID = ''i'',
        di_Labels = [(''k'', ''own'')]\<rparr>, \<lparr>di_ID = ''2'', di_Names = [], di_Image = ''b:1'', di_ImageID = ''i'',
        di_Labels = []\<rparr>], w),
      dk_image = \<lambda>_ i w. (Inr \<lparr>dm_labels = Some [(''k'', ''img''), (''l'', ''img'')], dm_digests = []\<rparr>, inspect i w),
      dk_container = \<lambda>_ _ w. (Inr ''i'', w)\<rparr>"

definition sample_docker :: "string list docker_client" where
  "sample_docker = docker_on (\<lambda>i w. w @ [i])"

theorem docker_fleet_witness:
  "\<exists>a b w'. docker_ListRunning sample_docker None [] = (Inr [a, b], w') \<and> c_name a = ''web''
     \<and> map_of (c_labels a) ''k'' = Some ''own'' \<and> map_of (c_labels b) ''k'' = Some ''img'' \<and> w' = [''i'']"
proof -
  let ?items = "[\<lparr>di_ID = ''1'', di_Names = [''/web''], di_Image = ''a:1'', di_ImageID = ''i'',
        di_Labels = [(''k'', ''own'')]\<rparr>, \<lparr>di_ID = ''2'', di_Names = [], di_Image = ''b:1'', di_ImageID = ''i'',
        di_Labels = []\<rparr>]"
  have items: "dk_list sample_docker None [] = (Inr ?items, [])" by (simp add: sample_docker_def docker_on_def)
  have steady: "steady sample_docker (\<lambda>_. [(''k'', ''img''), (''l'', ''img'')])"
    by (simp add: steady_def sample_docker_def docker_on_def labels_of_image_def)
  have reader: "logs_inspections (\<lambda>w. w) sample_docker" by (simp add: logs_inspections_def sample_docker_def docker_on_def)
  obtain out w' where "list_items sample_docker None ?items [] [] = (out, w')" by fastforce
  then have out: "docker_ListRunning sample_docker None [] = (Inr out, w')"
    by (simp add: docker_ListRunning_def items del: list_items.simps)
  note fleet = docker_fleet [OF out steady items _ reader]
  from fleet obtain a b where ab: "out = [a, b]" by (auto simp: list_all2_Cons1)
  from fleet have "distinct w' \<and> set w' = {''i''}" by auto
  then have "w' = [''i'']" by (cases w') (auto simp: subset_singleton_iff)
  with fleet show ?thesis
    by (auto simp: ab out merged_def container_name_def trim_prefix_def has_prefix_def)
qed

end
