(* ===== verification/Daemon.thy ===== *)
theory Daemon
  imports App Health
begin

text \<open>
  The daemon (\<open>Run\<close> in \<open>internal/core/app.go\<close>): the run coordinator, the loop over the schedule and the
  two signal channels, and the start-up. The loop is a step relation in which the outside fills the
  channels and the loop empties them in any order.
\<close>

section \<open>The run coordinator\<close>

record runCoordinator =
  rc_running :: bool
  rc_pending :: "passMode option"

definition idle :: runCoordinator where "idle = \<lparr>rc_running = False, rc_pending = None\<rparr>"

definition begin_run :: "runCoordinator \<Rightarrow> runCoordinator" where
  "begin_run rc = rc\<lparr>rc_running := True\<rparr>"

definition queuePending :: "passMode \<Rightarrow> runCoordinator \<Rightarrow> runCoordinator" where
  "queuePending mode rc =
     (if rc_pending rc = None then rc\<lparr>rc_pending := Some mode\<rparr>
      else if \<not> pm_suppress mode \<and> \<not> pm_updateState mode then rc\<lparr>rc_pending := Some mode\<rparr>
      else rc)"

definition tryQueue :: "passMode \<Rightarrow> runCoordinator \<Rightarrow> bool \<times> runCoordinator" where
  "tryQueue mode rc = (if \<not> rc_running rc then (False, rc) else (True, queuePending mode rc))"

definition end_run :: "runCoordinator \<Rightarrow> passMode option \<times> runCoordinator" where
  "end_run rc =
     (let next = rc_pending rc; rc = rc\<lparr>rc_pending := None\<rparr>
      in (next, if next = None then rc\<lparr>rc_running := False\<rparr> else rc))"

section \<open>The schedule\<close>

datatype schedule_source = CronSource string location | TickerSource duration

datatype source_result = SourceError location_error | SourceBadCron go_error | SourcePanic | Source schedule_source

text \<open>
  \<open>add_func\<close> is the error of \<open>AddFunc\<close> for an expression; its parser is not the one \<open>Load\<close> checks with.
  \<open>time.NewTicker\<close> panics unless its interval is positive.
\<close>

definition newScheduleSource :: "(string \<Rightarrow> go_error option) \<Rightarrow> sys \<Rightarrow> config \<Rightarrow> source_result" where
  "newScheduleSource add_func sys cfg =
     (if cfg_schedule cfg \<noteq> [] then
        (case ScheduleLocation sys cfg of
           Inl err \<Rightarrow> SourceError err
         | Inr loc \<Rightarrow>
             (case add_func (cfg_schedule cfg) of
                Some err \<Rightarrow> SourceBadCron (ErrWrap [Lit ''schedule '', Quoted (cfg_schedule cfg), Lit '': ''] err)
              | None \<Rightarrow> Source (CronSource (cfg_schedule cfg) loc)))
      else if cfg_interval cfg \<le> 0 then SourcePanic
      else Source (TickerSource (cfg_interval cfg)))"

definition location_name :: "location \<Rightarrow> string" where
  "location_name loc = (case loc of LocLocal \<Rightarrow> ''Local'' | LocNamed name \<Rightarrow> name)"

definition log_source :: "schedule_source \<Rightarrow> 'w run_state \<Rightarrow> 'w run_state" where
  "log_source src =
     (case src of
        CronSource expr loc \<Rightarrow>
          log_run LevelInfo ''using cron schedule''
            [(''schedule'', AttrStr expr), (''timezone'', AttrStr (location_name loc))]
      | TickerSource interval \<Rightarrow> log_run LevelInfo ''using interval schedule'' [(''interval'', AttrNum interval)])"

section \<open>The daemon\<close>

text \<open>
  The arguments of \<open>Run\<close>, and the daemon's state: what a pass works on, the schedule, the coordinator,
  how often the schedule was reset, the modes of the passes run so far, and the three channels with
  their buffer of one.
\<close>

record run_args =
  ra_cfg :: config
  ra_configPath :: string
  ra_statePath :: string
  ra_health :: health_tools

record 'w daemon =
  da_run :: "'w run_state"
  da_schedule :: schedule_source
  da_coord :: runCoordinator
  da_resets :: nat
  da_passes :: "passMode list"
  da_tick :: bool
  da_usr1 :: bool
  da_usr2 :: bool

definition touch_stamp :: "('v, 'w) app \<Rightarrow> run_args \<Rightarrow> 'w run_state \<Rightarrow> go_error option \<times> 'w run_state" where
  "touch_stamp app ra s =
     (case Touch (ra_health ra) (ap_io app) (e_now (en_env (ap_engine app)) (rs_world s)) (ra_configPath ra)
             (cfg_state_file (ra_cfg ra)) (rs_disk s) of
        (r, dk) \<Rightarrow> (r, s\<lparr>rs_disk := dk\<rparr>))"

text \<open>
  The \<open>reset\<close> function of a schedule source. Cron fires on the wall clock; \<open>Ticker.Reset\<close> starts a new
  period and discards a tick that was not yet received (Go 1.23 and later).
\<close>

definition resetSchedule :: "'w daemon \<Rightarrow> 'w daemon" where
  "resetSchedule da =
     (let da = da\<lparr>da_resets := Suc (da_resets da)\<rparr> in
      case da_schedule da of
        CronSource _ _ \<Rightarrow> da
      | TickerSource _ \<Rightarrow> da\<lparr>da_tick := False\<rparr>)"

definition uses_store :: "passMode \<Rightarrow> bool" where
  "uses_store mode \<longleftrightarrow> pm_suppress mode \<or> pm_updateState mode"

definition mode_attrs :: "passMode \<Rightarrow> (string \<times> attr) list" where
  "mode_attrs mode =
     [(''suppress'', AttrStr (if pm_suppress mode then ''true'' else ''false'')),
      (''update_state'', AttrStr (if pm_updateState mode then ''true'' else ''false''))]"

fun runChecks :: "nat \<Rightarrow> nat \<Rightarrow> ('v, 'w) app \<Rightarrow> run_args \<Rightarrow> ctx \<Rightarrow> passMode \<Rightarrow> 'w daemon
    \<Rightarrow> (go_error option \<times> 'w daemon) option" where
  "runChecks 0 n app ra c mode da = None"
| "runChecks (Suc k) n app ra c mode da =
     (case runPass n app c (uses_store mode) mode (da_run da) of
        None \<Rightarrow> None
      | Some (r, s) \<Rightarrow>
        let da = da\<lparr>da_run := s, da_passes := da_passes da @ [mode]\<rparr> in
        (case r of
           Some err \<Rightarrow> Some (Some err, da\<lparr>da_coord := idle\<rparr>)
         | None \<Rightarrow>
           (case touch_stamp app ra s of (touched, s) \<Rightarrow>
            let s = (case touched of
                       None \<Rightarrow> s
                     | Some err \<Rightarrow> log_run LevelWarn ''health stamp update failed'' [(''error'', AttrErr err)] s);
                (next, rc) = end_run (da_coord da);
                da = da\<lparr>da_run := s, da_coord := rc\<rparr>
            in case next of
                 None \<Rightarrow> Some (None, da)
               | Some mode \<Rightarrow>
                   runChecks k n app ra c mode
                     (da\<lparr>da_run := log_run LevelInfo ''running queued check'' (mode_attrs mode) (da_run da)\<rparr>))))"

definition trigger :: "nat \<Rightarrow> nat \<Rightarrow> ('v, 'w) app \<Rightarrow> run_args \<Rightarrow> ctx \<Rightarrow> passMode \<Rightarrow> string \<Rightarrow> bool \<Rightarrow> 'w daemon
    \<Rightarrow> (go_error option \<times> 'w daemon) option" where
  "trigger k n app ra c mode label resetAfter da =
     (case tryQueue mode (da_coord da) of
        (True, rc) \<Rightarrow>
          Some (None, da\<lparr>da_coord := rc,
            da_run := log_run LevelDebug ''check already running, signal queued'' [(''signal'', AttrStr label)]
                        (da_run da)\<rparr>)
      | (False, rc) \<Rightarrow>
          let da = da\<lparr>da_coord := begin_run rc, da_run := log_run LevelInfo label [] (da_run da)\<rparr> in
          (case runChecks k n app ra c mode da of
             None \<Rightarrow> None
           | Some (Some err, da) \<Rightarrow> Some (Some err, da)
           | Some (None, da) \<Rightarrow> Some (None, if resetAfter then resetSchedule da else da)))"

definition is_canceled :: "go_error option \<Rightarrow> bool" where
  "is_canceled r = (case r of None \<Rightarrow> False | Some e \<Rightarrow> err_is e ErrCanceled)"

definition finishRun :: "go_error option \<Rightarrow> go_error option \<Rightarrow> 'w run_state \<Rightarrow> go_error option \<times> 'w run_state" where
  "finishRun ctx_err err s =
     (case err of
        None \<Rightarrow> (None, s)
      | Some e \<Rightarrow>
          if err_is e ErrCanceled \<and> is_canceled ctx_err then
            (None, log_run LevelInfo ''shutting down (signal received)'' [] s)
          else (Some e, s))"

datatype event = Tick | Usr1 | Usr2

definition lbl_sched :: string where "lbl_sched = ''scheduled check''"
definition lbl_usr1 :: string where "lbl_usr1 = ''forced scheduled check (SIGUSR1)''"
definition lbl_usr2 :: string where "lbl_usr2 = ''forced full check (SIGUSR2)''"

text \<open>One case of the \<open>select\<close> statement: take the value off its channel and trigger.\<close>

definition handle :: "nat \<Rightarrow> nat \<Rightarrow> ('v, 'w) app \<Rightarrow> run_args \<Rightarrow> ctx \<Rightarrow> event \<Rightarrow> 'w daemon
    \<Rightarrow> (go_error option \<times> 'w daemon) option" where
  "handle k n app ra c ev da =
     (case ev of
        Tick \<Rightarrow> trigger k n app ra c scheduled lbl_sched True (da\<lparr>da_tick := False\<rparr>)
      | Usr1 \<Rightarrow> trigger k n app ra c scheduled lbl_usr1 True (da\<lparr>da_usr1 := False\<rparr>)
      | Usr2 \<Rightarrow> trigger k n app ra c forceCheck lbl_usr2 False (da\<lparr>da_usr2 := False\<rparr>))"

fun ready :: "event \<Rightarrow> 'w daemon \<Rightarrow> bool" where
  "ready Tick da = da_tick da"
| "ready Usr1 da = da_usr1 da"
| "ready Usr2 da = da_usr2 da"

fun deliver :: "event \<Rightarrow> 'w daemon \<Rightarrow> 'w daemon" where
  "deliver Tick da = da\<lparr>da_tick := True\<rparr>"
| "deliver Usr1 da = da\<lparr>da_usr1 := True\<rparr>"
| "deliver Usr2 da = da\<lparr>da_usr2 := True\<rparr>"

text \<open>One tick of the heartbeat goroutine.\<close>

definition heartbeat_tick :: "('v, 'w) app \<Rightarrow> run_args \<Rightarrow> 'w run_state \<Rightarrow> 'w run_state" where
  "heartbeat_tick app ra s =
     (case touch_stamp app ra s of
        (None, s) \<Rightarrow> s
      | (Some err, s) \<Rightarrow> log_run LevelWarn ''health heartbeat failed'' [(''error'', AttrErr err)] s)"

text \<open>
  The loop: time passes, the outside delivers a tick or a signal (a full channel drops it), the
  heartbeat stamps, or the loop takes any ready channel and runs its case to the end. A case is one
  step, because nobody reads the channels or the state file while it runs.
\<close>

inductive daemon_step :: "nat \<Rightarrow> nat \<Rightarrow> ('v, 'w) app \<Rightarrow> run_args \<Rightarrow> ctx \<Rightarrow> 'w daemon \<Rightarrow> 'w daemon \<Rightarrow> bool"
  for k n app ra c where
  waits: "daemon_step k n app ra c da (da\<lparr>da_run := (da_run da)\<lparr>rs_world := w\<rparr>\<rparr>)"
| arrives: "daemon_step k n app ra c da (deliver ev da)"
| beats: "daemon_step k n app ra c da (da\<lparr>da_run := heartbeat_tick app ra (da_run da)\<rparr>)"
| takes: "ready ev da \<Longrightarrow> handle k n app ra c ev da = Some (None, da') \<Longrightarrow> daemon_step k n app ra c da da'"

inductive_cases daemon_stepE: "daemon_step k n app ra c da da'"

inductive daemon_steps :: "nat \<Rightarrow> nat \<Rightarrow> ('v, 'w) app \<Rightarrow> run_args \<Rightarrow> ctx \<Rightarrow> 'w daemon \<Rightarrow> 'w daemon \<Rightarrow> bool"
  for k n app ra c where
  stop: "daemon_steps k n app ra c da da"
| more: "daemon_step k n app ra c da da' \<Longrightarrow> daemon_steps k n app ra c da' da'' \<Longrightarrow> daemon_steps k n app ra c da da''"

text \<open>The two ways the loop returns: the context has ended, or a case failed.\<close>

inductive daemon_end :: "nat \<Rightarrow> nat \<Rightarrow> ('v, 'w) app \<Rightarrow> run_args \<Rightarrow> ctx \<Rightarrow> 'w daemon \<Rightarrow> go_error option \<Rightarrow> 'w run_state \<Rightarrow> bool"
  for k n app ra c where
  context_done:
    "e_err (en_env (ap_engine app)) c (rs_world (da_run da)) = Some err
     \<Longrightarrow> finishRun (Some err) (Some err) (da_run da) = (r, s) \<Longrightarrow> daemon_end k n app ra c da r s"
| case_failed:
    "ready ev da \<Longrightarrow> handle k n app ra c ev da = Some (Some err, da')
     \<Longrightarrow> finishRun (e_err (en_env (ap_engine app)) c (rs_world (da_run da'))) (Some err) (da_run da') = (r, s)
     \<Longrightarrow> daemon_end k n app ra c da r s"

inductive_cases daemon_endE: "daemon_end k n app ra c da r s"

text \<open>What \<open>Run\<close> does before the loop: load the state, touch the stamp, perhaps a first check.\<close>

definition initial_daemon :: "schedule_source \<Rightarrow> 'w run_state \<Rightarrow> 'w daemon" where
  "initial_daemon src s =
     \<lparr>da_run = s, da_schedule = src, da_coord = idle, da_resets = 0, da_passes = [], da_tick = False,
      da_usr1 = False, da_usr2 = False\<rparr>"

datatype 'w start = StartError go_error | StartSource source_result | Stopped | Started "'w daemon"

definition log_starting :: "run_args \<Rightarrow> 'w run_state \<Rightarrow> 'w run_state" where
  "log_starting ra =
     log_run LevelInfo ''starting periodic checks''
       [(''interval'', AttrNum (cfg_interval (ra_cfg ra))), (''schedule'', AttrStr (cfg_schedule (ra_cfg ra))),
        (''state_file'', AttrStr (ra_statePath ra))]"

definition log_loaded :: "run_args \<Rightarrow> 'w run_state \<Rightarrow> 'w run_state" where
  "log_loaded ra s =
     log_run LevelInfo ''notification state loaded''
       [(''path'', AttrStr (ra_statePath ra)), (''entries'', AttrNum (int (EntryCount (rs_store s))))] s"

text \<open>What \<open>Load\<close> logs about the file it reads.\<close>

definition log_load :: "codec \<Rightarrow> io \<Rightarrow> string \<Rightarrow> 'w run_state \<Rightarrow> 'w run_state" where
  "log_load js io path s =
     (case map_of (dk_files (rs_disk s)) path of
        None \<Rightarrow> s
      | Some raw \<Rightarrow>
     (case io_read io path of
        Some err \<Rightarrow>
          log_run LevelWarn ''state file unreadable, starting empty'' [(''path'', AttrStr path), (''error'', AttrErr err)] s
      | None \<Rightarrow>
     (case js_decode js raw of
        Inl err \<Rightarrow>
          log_run LevelWarn ''state file corrupt, starting empty'' [(''path'', AttrStr path), (''error'', AttrErr err)] s
      | Inr (version, entries) \<Rightarrow>
          if version < fileVersion then
            log_run LevelWarn (''state format changed (v1'' @ arrow @ ''v2), history reset, one-time re-notification of pending updates possible'')
              [] s
          else s)))"

definition Run_start :: "nat \<Rightarrow> nat \<Rightarrow> ('v, 'w) app \<Rightarrow> run_args \<Rightarrow> (string \<Rightarrow> go_error option) \<Rightarrow> sys \<Rightarrow> ctx
    \<Rightarrow> 'w run_state \<Rightarrow> 'w start option" where
  "Run_start k n app ra add_func sys c s =
     (let s = log_starting ra s;
          s = log_load (ap_codec app) (ap_io app) (ra_statePath ra) s;
          s = s\<lparr>rs_store := LoadState (ap_codec app) (ap_io app) (ra_statePath ra) (rs_disk s)\<rparr>;
          s = log_loaded ra s;
          stampPath = ResolveStampPath (ra_configPath ra) (cfg_state_file (ra_cfg ra)) in
      case touch_stamp app ra s of
        (Some err, s) \<Rightarrow> Some (StartError (ErrWrap [Lit ''health stamp '', Str stampPath, Lit '': ''] err))
      | (None, s) \<Rightarrow>
          (let s = log_run LevelInfo ''health stamp updated'' [(''path'', AttrStr stampPath)] s in
           case newScheduleSource add_func sys (ra_cfg ra) of
             Source src \<Rightarrow>
               (let da = initial_daemon src (log_source src s) in
                if MissingFile (ra_statePath ra) (rs_disk s) then
                  (case trigger k n app ra c scheduled ''initial check (no state file)'' True da of
                     None \<Rightarrow> None
                   | Some (None, da) \<Rightarrow> Some (Started da)
                   | Some (Some err, da) \<Rightarrow>
                       Some (case fst (finishRun (e_err (en_env (ap_engine app)) c (rs_world (da_run da))) (Some err)
                                          (da_run da)) of
                               None \<Rightarrow> Stopped | Some e \<Rightarrow> StartError e))
                else Some (Started da))
           | r \<Rightarrow> Some (StartSource r)))"

section \<open>Facts of the daemon\<close>

lemma idle_simps [simp]:
  "tryQueue mode idle = (False, idle)" "end_run (begin_run idle) = (None, idle)"
  by (simp_all add: tryQueue_def end_run_def begin_run_def idle_def)

lemma modes_differ [simp]: "scheduled \<noteq> forceCheck" "forceCheck \<noteq> scheduled"
  by (simp_all add: scheduled_def forceCheck_def)

text \<open>With the coordinator idle, a trigger is one pass; nothing is ever queued behind it.\<close>

text \<open>Stamping changes nothing but the stamp file.\<close>

lemma Touch_frame:
  "Touch hk io t configPath stateFile dk = (r, dk') \<Longrightarrow> path \<noteq> ResolveStampPath configPath stateFile
    \<Longrightarrow> contents path dk' = contents path dk"
  by (auto simp: Touch_def Let_def dest: write_file_effect(1) split: option.splits prod.splits)

lemma touch_stamp_frame:
  assumes "touch_stamp app ra s = (r, s')"
  shows "rs_store s' = rs_store s" and "rs_world s' = rs_world s" and "rs_diag s' = rs_diag s"
    and "path \<noteq> ResolveStampPath (ra_configPath ra) (cfg_state_file (ra_cfg ra))
      \<Longrightarrow> contents path (rs_disk s') = contents path (rs_disk s)"
  using assms by (auto simp: touch_stamp_def dest: Touch_frame split: prod.splits)

definition stamped :: "run_args \<Rightarrow> 'w run_state \<Rightarrow> 'w run_state \<Rightarrow> bool" where
  "stamped ra s s' \<longleftrightarrow> rs_store s' = rs_store s \<and> rs_world s' = rs_world s
     \<and> (\<forall>path. path \<noteq> ResolveStampPath (ra_configPath ra) (cfg_state_file (ra_cfg ra))
          \<longrightarrow> contents path (rs_disk s') = contents path (rs_disk s))"

lemma touch_stamped: "touch_stamp app ra s = (r, s') \<Longrightarrow> stamped ra s s'"
  unfolding stamped_def by (blast intro: touch_stamp_frame)

lemma log_stamped [simp]: "stamped ra s (log_run lvl txt attrs s') \<longleftrightarrow> stamped ra s s'"
  by (simp add: stamped_def log_run_def)

lemma heartbeat_stamped: "stamped ra s (heartbeat_tick app ra s)"
  by (auto simp: heartbeat_tick_def dest: touch_stamped split: prod.split option.split)

text \<open>With the coordinator idle, a trigger is one pass; nothing is ever queued behind it.\<close>

lemma runChecks_alone:
  assumes "da_coord da = begin_run idle" and "runChecks k n app ra c mode da = Some (r, da')"
  shows "\<exists>s. runPass n app c (uses_store mode) mode (da_run da) = Some (r, s)
    \<and> da' = da\<lparr>da_run := da_run da', da_coord := idle, da_passes := da_passes da @ [mode]\<rparr>
    \<and> (if r = None then stamped ra s (da_run da') else da_run da' = s)"
  using assms
  by (cases k) (auto simp: Let_def dest: touch_stamped split: option.splits prod.splits)

lemma trigger_idle:
  assumes "da_coord da = idle" and "trigger k n app ra c mode label reset da = Some (r, da')"
  shows "\<exists>s s'. runPass n app c (uses_store mode) mode (log_run LevelInfo label [] (da_run da)) = Some (r, s)
    \<and> (if r = None then stamped ra s s' else s' = s)
    \<and> da' = (let da = da\<lparr>da_run := s', da_passes := da_passes da @ [mode]\<rparr>
             in if r = None \<and> reset then resetSchedule da else da)"
proof -
  let ?da = "da\<lparr>da_coord := begin_run idle, da_run := log_run LevelInfo label [] (da_run da)\<rparr>"
  from assms obtain da1 where run: "runChecks k n app ra c mode ?da = Some (r, da1)"
    and d: "da' = (if r = None \<and> reset then resetSchedule da1 else da1)"
    by (auto simp: trigger_def Let_def split: option.splits)
  from runChecks_alone [OF _ run] obtain s where
    s: "runPass n app c (uses_store mode) mode (da_run ?da) = Some (r, s)"
      "if r = None then stamped ra s (da_run da1) else da_run da1 = s"
    and da1: "da1 = ?da\<lparr>da_run := da_run da1, da_coord := idle, da_passes := da_passes ?da @ [mode]\<rparr>"
    by auto
  from da1 assms(1) have "da1 = da\<lparr>da_run := da_run da1, da_passes := da_passes da @ [mode]\<rparr>"
    by (cases da) simp
  then show ?thesis
    using s d by (intro exI [of _ s] exI [of _ "da_run da1"]) (simp add: Let_def)
qed

fun mode_of :: "event \<Rightarrow> passMode" where
  "mode_of Tick = scheduled"
| "mode_of Usr1 = scheduled"
| "mode_of Usr2 = forceCheck"

fun take_event :: "event \<Rightarrow> 'w daemon \<Rightarrow> 'w daemon" where
  "take_event Tick da = da\<lparr>da_tick := False\<rparr>"
| "take_event Usr1 da = da\<lparr>da_usr1 := False\<rparr>"
| "take_event Usr2 da = da\<lparr>da_usr2 := False\<rparr>"

fun event_label :: "event \<Rightarrow> string" where
  "event_label Tick = lbl_sched"
| "event_label Usr1 = lbl_usr1"
| "event_label Usr2 = lbl_usr2"

lemma handle_eq: "handle k n app ra c ev da = trigger k n app ra c (mode_of ev) (event_label ev) (ev \<noteq> Usr2) (take_event ev da)"
  by (cases ev) (simp_all add: handle_def)

lemma take_event_frame [simp]:
  "da_coord (take_event ev da) = da_coord da" "da_passes (take_event ev da) = da_passes da"
  "da_resets (take_event ev da) = da_resets da" "da_run (take_event ev da) = da_run da"
  "da_schedule (take_event ev da) = da_schedule da"
  "ready e (take_event ev da) \<longleftrightarrow> e \<noteq> ev \<and> ready e da"
  by (cases ev; cases e; simp)+

lemma deliver_frame [simp]:
  "da_coord (deliver ev da) = da_coord da" "da_passes (deliver ev da) = da_passes da"
  "da_resets (deliver ev da) = da_resets da" "da_run (deliver ev da) = da_run da"
  "da_schedule (deliver ev da) = da_schedule da"
  by (cases ev; simp)+

definition on_ticker :: "'w daemon \<Rightarrow> bool" where
  "on_ticker da \<longleftrightarrow> (\<exists>d. da_schedule da = TickerSource d)"

lemma resetSchedule_frame [simp]:
  "da_coord (resetSchedule da) = da_coord da" "da_passes (resetSchedule da) = da_passes da"
  "da_resets (resetSchedule da) = Suc (da_resets da)" "da_run (resetSchedule da) = da_run da"
  "da_schedule (resetSchedule da) = da_schedule da"
  "ready e (resetSchedule da) \<longleftrightarrow> ready e da \<and> (e = Tick \<longrightarrow> \<not> on_ticker da)"
  by (cases e; simp add: resetSchedule_def on_ticker_def Let_def split: schedule_source.split)+

lemma ready_run [simp]: "ready e (da\<lparr>da_run := s, da_passes := ps\<rparr>) = ready e da" "ready e (da\<lparr>da_run := s\<rparr>) = ready e da"
  by (cases e; simp)+

lemma handle_result:
  assumes "da_coord da = idle" and "handle k n app ra c ev da = Some (r, da')"
  shows "da_coord da' = idle" and "da_passes da' = da_passes da @ [mode_of ev]"
    and "r = None \<Longrightarrow> da_resets da' = da_resets da + (if ev = Usr2 then 0 else 1)"
    and "r = None \<Longrightarrow> ready e da' \<longleftrightarrow> e \<noteq> ev \<and> ready e da \<and> (e = Tick \<and> ev \<noteq> Usr2 \<longrightarrow> \<not> on_ticker da)"
    and "\<exists>s. runPass n app c (uses_store (mode_of ev)) (mode_of ev) (log_run LevelInfo (event_label ev) [] (da_run da))
        = Some (r, s) \<and> (if r = None then stamped ra s (da_run da') else da_run da' = s)"
    and "da_schedule da' = da_schedule da"
proof -
  from assms have t: "trigger k n app ra c (mode_of ev) (event_label ev) (ev \<noteq> Usr2) (take_event ev da) = Some (r, da')"
    by (simp add: handle_eq)
  from trigger_idle [OF _ t] assms(1) obtain s s' where
    run: "runPass n app c (uses_store (mode_of ev)) (mode_of ev) (log_run LevelInfo (event_label ev) [] (da_run da)) = Some (r, s)"
      "if r = None then stamped ra s s' else s' = s"
    and da': "da' = (let da = (take_event ev da)\<lparr>da_run := s', da_passes := da_passes da @ [mode_of ev]\<rparr>
             in if r = None \<and> ev \<noteq> Usr2 then resetSchedule da else da)"
    by auto
  from da' show "da_coord da' = idle" "da_passes da' = da_passes da @ [mode_of ev]"
    "r = None \<Longrightarrow> da_resets da' = da_resets da + (if ev = Usr2 then 0 else 1)" "da_schedule da' = da_schedule da"
    using assms(1) by (simp_all add: Let_def)
  show "r = None \<Longrightarrow> ready e da' \<longleftrightarrow> e \<noteq> ev \<and> ready e da \<and> (e = Tick \<and> ev \<noteq> Usr2 \<longrightarrow> \<not> on_ticker da)"
    using da' by (auto simp: Let_def on_ticker_def simp del: take_event.simps)
  from da' have "da_run da' = s'" by (simp add: Let_def)
  with run show "\<exists>s. runPass n app c (uses_store (mode_of ev)) (mode_of ev) (log_run LevelInfo (event_label ev) [] (da_run da))
        = Some (r, s) \<and> (if r = None then stamped ra s (da_run da') else da_run da' = s)" by blast
qed

lemmas handle_idle = handle_result [where r = None, simplified]

text \<open>The invariant of the loop, and what it says about the passes that were run.\<close>

definition quiet :: "'w daemon \<Rightarrow> bool" where
  "quiet da \<longleftrightarrow> da_coord da = idle \<and> set (da_passes da) \<subseteq> {scheduled, forceCheck}
     \<and> da_resets da = length (filter pm_updateState (da_passes da))"

lemma daemon_step_quiet: "daemon_step k n app ra c da da' \<Longrightarrow> quiet da \<Longrightarrow> quiet da'"
proof (induction rule: daemon_step.induct)
  case (takes ev da da')
  from takes.prems handle_idle(1-3) [OF _ takes.hyps(2)] show ?case
    by (cases ev) (auto simp: quiet_def scheduled_def forceCheck_def)
qed (simp_all add: quiet_def)

lemma daemon_steps_quiet: "daemon_steps k n app ra c da da' \<Longrightarrow> quiet da \<Longrightarrow> quiet da'"
  by (induction rule: daemon_steps.induct) (auto dest: daemon_step_quiet)

lemma initial_quiet: "quiet (initial_daemon src s)"
  by (simp add: quiet_def initial_daemon_def)

text \<open>
  The loop alone decides when the state is written: after every step the file holds what the memory
  holds, provided the stamp is another file.
\<close>

definition apart :: "run_args \<Rightarrow> bool" where
  "apart ra \<longleftrightarrow> ra_statePath ra \<noteq> ResolveStampPath (ra_configPath ra) (cfg_state_file (ra_cfg ra))"

definition synced :: "('v, 'w) app \<Rightarrow> run_args \<Rightarrow> 'w run_state \<Rightarrow> bool" where
  "synced app ra s \<longleftrightarrow> st_path (rs_store s) = ra_statePath ra
     \<and> remembered (LoadState (ap_codec app) (ap_io app) (ra_statePath ra) (rs_disk s)) = remembered (rs_store s)"

lemma daemon_steps_schedule:
  "daemon_steps k n app ra c da da' \<Longrightarrow> quiet da \<Longrightarrow> da_schedule da' = da_schedule da"
proof (induction rule: daemon_steps.induct)
  case (more da da1 da2)
  from more.hyps(1) more.prems have "da_schedule da1 = da_schedule da"
    by (cases rule: daemon_step.cases) (auto simp: quiet_def dest: handle_result(6))
  with more daemon_step_quiet [OF more.hyps(1)] show ?case by simp
qed simp

lemma LoadState_contents:
  "contents path dk' = contents path dk \<Longrightarrow> LoadState js io path dk' = LoadState js io path dk"
  by (simp add: LoadState_def contents_def)

lemma stamped_synced: "stamped ra s s' \<Longrightarrow> apart ra \<Longrightarrow> synced app ra s' = synced app ra s"
  by (simp add: stamped_def synced_def apart_def LoadState_contents [of _ "rs_disk s'" "rs_disk s"])

lemma synced_frame [simp]:
  "synced app ra (s\<lparr>rs_world := w\<rparr>) = synced app ra s" "synced app ra (log_run l txt a s) = synced app ra s"
  by (simp_all add: synced_def log_run_def)

lemma runPass_synced:
  assumes "codec_laws (ap_codec app)" and "io_read (ap_io app) (ra_statePath ra) = None"
    and "runPass n app c hs mode s = Some (None, s')" and "synced app ra s"
  shows "synced app ra s'"
  using assms(3)
proof (cases rule: runPass_cases)
  case (found ups ks cp d w)
  from runPass_recorded [OF assms(3) this] consider
      "rs_store s' = rs_store s" "rs_disk s' = rs_disk s"
    | now us where "AfterPass (ap_codec app) (ap_io app) now ks us cp (rs_store s) (rs_disk s)
        = (None, rs_store s', rs_disk s')"
    by auto
  then show ?thesis
  proof cases
    case 2
    from AfterPass_reload [OF assms(1) 2] assms(2,4) show ?thesis
      unfolding synced_def by (metis (no_types))
  qed (use assms(4) in \<open>simp add: synced_def\<close>)
qed simp

lemma handle_synced:
  assumes "codec_laws (ap_codec app)" and "io_read (ap_io app) (ra_statePath ra) = None" and "apart ra"
    and "handle k n app ra c ev da = Some (None, da')" and "da_coord da = idle" and "synced app ra (da_run da)"
  shows "synced app ra (da_run da')"
proof -
  from handle_idle(5) [OF assms(5,4)] obtain s where
    s: "runPass n app c (uses_store (mode_of ev)) (mode_of ev) (log_run LevelInfo (event_label ev) [] (da_run da)) = Some (None, s)"
       "stamped ra s (da_run da')" by blast
  from runPass_synced [OF assms(1,2) s(1)] assms(6) stamped_synced [OF s(2) assms(3), of app] show ?thesis by simp
qed

lemma daemon_steps_synced:
  assumes "daemon_steps k n app ra c da da'" and "codec_laws (ap_codec app)"
    and "io_read (ap_io app) (ra_statePath ra) = None" and "apart ra"
    and "quiet da" and "synced app ra (da_run da)"
  shows "synced app ra (da_run da')"
  using assms
proof (induction rule: daemon_steps.induct)
  case (more da da1 da2)
  from more.hyps(1) more.prems have "synced app ra (da_run da1)"
    by (cases rule: daemon_step.cases)
      (auto simp: quiet_def stamped_synced [OF heartbeat_stamped] intro: handle_synced)
  with more daemon_step_quiet [OF more.hyps(1)] show ?case by blast
qed simp

text \<open>The start-up leads into the loop with all of this in place, with or without a first check.\<close>

lemma trigger_keeps:
  assumes "quiet da" and "trigger k n app ra c scheduled label True da = Some (None, da')"
  shows "quiet da'"
    and "codec_laws (ap_codec app) \<Longrightarrow> io_read (ap_io app) (ra_statePath ra) = None \<Longrightarrow> apart ra
      \<Longrightarrow> synced app ra (da_run da) \<Longrightarrow> synced app ra (da_run da')"
proof -
  from assms obtain s s' where
    run: "runPass n app c True scheduled (log_run LevelInfo label [] (da_run da)) = Some (None, s)"
      "stamped ra s s'"
    and da': "da' = resetSchedule (da\<lparr>da_run := s', da_passes := da_passes da @ [scheduled]\<rparr>)"
    by (auto simp: quiet_def uses_store_def scheduled_def dest!: trigger_idle)
  show "quiet da'" using assms(1) da' by (auto simp: quiet_def scheduled_def)
  show "synced app ra (da_run da')"
    if "codec_laws (ap_codec app)" "io_read (ap_io app) (ra_statePath ra) = None" "apart ra" "synced app ra (da_run da)"
    using runPass_synced [OF that(1,2) run(1)] that(4) stamped_synced [OF run(2) that(3), of app] da' by simp
qed

lemma log_line_frame [simp]:
  "rs_disk (log_starting ra s) = rs_disk s" "rs_world (log_starting ra s) = rs_world s"
  "rs_disk (log_loaded ra s) = rs_disk s" "rs_world (log_loaded ra s) = rs_world s"
  "rs_store (log_loaded ra s) = rs_store s"
  "rs_disk (log_load js io path s) = rs_disk s" "rs_world (log_load js io path s) = rs_world s"
  "rs_disk (log_source src s) = rs_disk s" "rs_world (log_source src s) = rs_world s"
  "rs_store (log_source src s) = rs_store s"
  by (simp_all add: log_starting_def log_loaded_def log_load_def log_source_def log_run_def
      split: schedule_source.split option.split sum.split)

lemma Run_start_cases:
  assumes "Run_start k n app ra add_func sys c s = Some (Started da)"
  obtains s1 s2 src where
    "newScheduleSource add_func sys (ra_cfg ra) = Source src" "stamped ra s1 s2" "st_path (rs_store s1) = ra_statePath ra"
    "rs_store s1 = LoadState (ap_codec app) (ap_io app) (ra_statePath ra) (rs_disk s1)"
    "da = initial_daemon src s2
     \<or> trigger k n app ra c scheduled ''initial check (no state file)'' True (initial_daemon src s2) = Some (None, da)"
proof -
  let ?s0 = "log_load (ap_codec app) (ap_io app) (ra_statePath ra) (log_starting ra s)"
  let ?s1 = "log_loaded ra (?s0\<lparr>rs_store := LoadState (ap_codec app) (ap_io app) (ra_statePath ra) (rs_disk ?s0)\<rparr>)"
  have "st_path (rs_store ?s1) = ra_statePath ra"
    by (auto simp: log_loaded_def log_run_def LoadState_def Let_def split: option.splits sum.splits)
  moreover have "rs_store ?s1 = LoadState (ap_codec app) (ap_io app) (ra_statePath ra) (rs_disk ?s1)"
    by (simp add: log_loaded_def log_run_def)
  moreover obtain r s2 where t: "touch_stamp app ra ?s1 = (r, s2)" by fastforce
  then have "stamped ra ?s1 s2" by (rule touch_stamped)
  let ?s3 = "\<lambda>src. log_source src (log_run LevelInfo ''health stamp updated''
    [(''path'', AttrStr (ResolveStampPath (ra_configPath ra) (cfg_state_file (ra_cfg ra))))] s2)"
  from touch_stamped [OF t] have "stamped ra ?s1 (?s3 src)" for src
    by (cases src) (simp_all add: log_source_def)
  moreover from assms t have "\<exists>src. newScheduleSource add_func sys (ra_cfg ra) = Source src \<and> (da = initial_daemon src (?s3 src)
      \<or> trigger k n app ra c scheduled ''initial check (no state file)'' True (initial_daemon src (?s3 src)) = Some (None, da))"
    by (auto simp: Run_start_def Let_def split: option.splits source_result.splits if_splits)
  then obtain src where "newScheduleSource add_func sys (ra_cfg ra) = Source src" "da = initial_daemon src (?s3 src)
      \<or> trigger k n app ra c scheduled ''initial check (no state file)'' True (initial_daemon src (?s3 src)) = Some (None, da)"
    by blast
  ultimately show thesis using that [of src ?s1 "?s3 src"] by blast
qed

lemma Run_started:
  assumes "Run_start k n app ra add_func sys c s = Some (Started da)"
  shows "quiet da"
    and "codec_laws (ap_codec app) \<Longrightarrow> io_read (ap_io app) (ra_statePath ra) = None \<Longrightarrow> apart ra
      \<Longrightarrow> synced app ra (da_run da)"
    and "newScheduleSource add_func sys (ra_cfg ra) = Source (da_schedule da)"
proof -
  from assms show "quiet da"
    by (rule Run_start_cases) (auto intro: initial_quiet trigger_keeps(1))
  have "da_schedule da = src" if t: "trigger k n app ra c scheduled label True (initial_daemon src s2) = Some (None, da)"
    for label src s2
  proof -
    have "da_coord (initial_daemon src s2) = idle" "da_schedule (initial_daemon src s2) = src"
      by (simp_all add: initial_daemon_def)
    with trigger_idle [OF _ t] show ?thesis by auto
  qed
  with assms show "newScheduleSource add_func sys (ra_cfg ra) = Source (da_schedule da)"
    by - (erule Run_start_cases, auto simp: initial_daemon_def)
  assume laws: "codec_laws (ap_codec app)" "io_read (ap_io app) (ra_statePath ra) = None" "apart ra"
  from assms show "synced app ra (da_run da)"
  proof (rule Run_start_cases)
    fix src s1 s2
    assume "stamped ra s1 s2" "st_path (rs_store s1) = ra_statePath ra"
      "rs_store s1 = LoadState (ap_codec app) (ap_io app) (ra_statePath ra) (rs_disk s1)"
      and da: "da = initial_daemon src s2
        \<or> trigger k n app ra c scheduled ''initial check (no state file)'' True (initial_daemon src s2) = Some (None, da)"
    then have "synced app ra s2" using stamped_synced laws(3) by (metis synced_def)
    then have "synced app ra (da_run (initial_daemon src s2))" by (simp add: initial_daemon_def)
    with da show ?thesis using trigger_keeps(2) [OF initial_quiet _ laws] by blast
  qed
qed

text \<open>What makes a pass fail.\<close>

lemma runPass_error:
  assumes "runPass n app c hs mode s = Some (Some err, s')" and "hs = uses_store mode"
  shows "(\<exists>e. err = ErrWrap [Lit ''list containers: ''] e \<or> err = ErrWrap [Lit ''save state: ''] e)
    \<or> e_err (en_env (ap_engine app)) c (rs_world s') = Some err"
  using assms(1)
proof (cases rule: runPass_cases)
  case (failed e d w)
  with assms(1) RunOnce_Inl [OF failed(1)] show ?thesis by (auto simp: runPass_def)
next
  case (found ups ks cp d w)
  with assms show ?thesis
    by (auto simp: runPass_def uses_store_def Let_def split: prod.splits if_splits)
qed

text \<open>Handling an event takes one pass and ends with its result.\<close>

lemma handle_runs:
  assumes "da_coord da = idle"
    and "runPass n app c (uses_store (mode_of ev)) (mode_of ev) (log_run LevelInfo (event_label ev) [] (da_run da))
      = Some (r, s)"
  shows "\<exists>da'. handle (Suc k) n app ra c ev da = Some (r, da') \<and> rs_world (da_run da') = rs_world s"
proof -
  let ?da = "(take_event ev da)\<lparr>da_coord := begin_run idle,
    da_run := log_run LevelInfo (event_label ev) [] (da_run da)\<rparr>"
  have "\<exists>da'. runChecks (Suc k) n app ra c (mode_of ev) ?da = Some (r, da')"
    using assms(2) by (cases r) (simp_all add: Let_def case_prod_beta split: option.splits)
  then obtain da' where h: "handle (Suc k) n app ra c ev da = Some (r, da')"
    using assms(1) by (cases r) (auto simp: handle_eq trigger_def Let_def)
  from handle_result(5) [OF assms(1) h] assms(2) have "rs_world (da_run da') = rs_world s"
    by (auto simp: stamped_def split: if_splits)
  with h show ?thesis by blast
qed

text \<open>
  The daemon always comes back to its loop: a case of the loop is one pass, so with the pass
  bound of the engine it ends, whatever the outside answers.
\<close>
lemma daemon_comes_back:
  assumes "da_coord da = idle" and "env_laws (en_env (ap_engine app))"
    and "\<forall>reg\<in>set (en_registries (ap_engine app)). registry_mono (en_env (ap_engine app)) reg"
    and "t_registry (en_timeouts (ap_engine app)) \<le> int b * second" and "2 * b + 3 \<le> n"
  shows "\<exists>r da'. handle (Suc k) n app ra c ev da = Some (r, da')"
proof -
  let ?s = "log_run LevelInfo (event_label ev) [] (da_run da)"
  obtain x where "RunOnce n (ap_engine app) c (rs_diag ?s) (rs_world ?s) = Some x"
    using RunOnce_total [OF assms(2-5)] by blast
  then obtain r s where "runPass n app c (uses_store (mode_of ev)) (mode_of ev) ?s = Some (r, s)"
    using runPass_defined by blast
  from handle_runs [OF assms(1) this, of k ra] show ?thesis by auto
qed

section \<open>An example run\<close>

lemma log_run_diag [simp]: "rs_diag (log_run l t a s) = log_to l t a (rs_diag s)"
  by (simp add: log_run_def)

definition demo_args :: run_args where
  "demo_args = \<lparr>ra_cfg = default_config, ra_configPath = ''/d/c.yaml'', ra_statePath = ''s'', ra_health = sample_health\<rparr>"

lemma demo_apart: "apart demo_args"
proof -
  have "ResolveStampPath ''/d/c.yaml'' [] = ''/d/health''" by code_simp
  then show ?thesis by (simp add: apart_def demo_args_def default_config_def)
qed

lemma demo_forced_pass:
  assumes "ap_engine app = tagged_engine" and "rs_world s = 0"
  shows "\<exists>s'. runPass 1 app None (uses_store forceCheck) forceCheck s = Some (None, s')"
proof -
  obtain d where d: "RunOnce 1 tagged_engine None (rs_diag s) 0
      = Some (Inr ([tagged_update], [''web|ghcr.io/a/b''], True), d, 0)"
    using tagged_pass [of "rs_diag s"] by blast
  show ?thesis
    by (simp only: runPass_def assms d) (simp add: Let_def forceCheck_def uses_store_def case_prod_beta)
qed

text \<open>A boot of the example: there is a state file, so the loop starts without a check.\<close>

definition demo_boot :: "int run_state" where
  "demo_boot = demo_state\<lparr>rs_disk := put_file ''s'' [] demo_disk\<rparr>"

lemma demo_args_simps:
  "ra_statePath demo_args = ''s''"
  "newScheduleSource (\<lambda>_. None) quiet_sys (ra_cfg demo_args) = Source (TickerSource hour)"
  by (simp_all add: demo_args_def newScheduleSource_def default_config_def hour_def minute_def second_def)

text \<open>Where every call of the system succeeds and there is a state file, the loop starts without a check.\<close>

lemma Run_start_waits:
  assumes "ap_io app = demo_io" and "apart ra" and "\<not> MissingFile (ra_statePath ra) (rs_disk s)"
    and "newScheduleSource add_func sys (ra_cfg ra) = Source src"
  shows "\<exists>da. Run_start k n app ra add_func sys c s = Some (Started da)
    \<and> rs_world (da_run da) = rs_world s \<and> da_coord da = idle \<and> da_passes da = [] \<and> da_resets da = 0
    \<and> st_path (rs_store (da_run da)) = ra_statePath ra"
proof -
  let ?s = "log_loaded ra ((log_load (ap_codec app) demo_io (ra_statePath ra) (log_starting ra s))
      \<lparr>rs_store := LoadState (ap_codec app) demo_io (ra_statePath ra) (rs_disk s)\<rparr>)"
  obtain s' where t: "touch_stamp app ra ?s = (None, s')"
    by (simp add: touch_stamp_def Touch_def write_file_def demo_io_def Let_def assms(1) split: prod.split)
  note F = touch_stamp_frame [OF t]
  have "contents (ra_statePath ra) (rs_disk s') = contents (ra_statePath ra) (rs_disk ?s)"
    by (rule F(4)) (use assms(2) in \<open>simp add: apart_def\<close>)
  then have "\<not> MissingFile (ra_statePath ra) (rs_disk s')"
    using assms(3) by (simp add: MissingFile_def contents_def)
  moreover have "st_path (LoadState (ap_codec app) demo_io path dk) = path" for path dk
    by (auto simp: LoadState_def Let_def split: option.splits sum.splits)
  ultimately show ?thesis
    using t F(1,2)
    by (simp add: Run_start_def assms(1,4) log_run_def initial_daemon_def Let_def)
qed

lemma demo_started:
  assumes "ap_io app = demo_io"
  shows "\<exists>da. Run_start 1 1 app demo_args (\<lambda>_. None) quiet_sys None demo_boot = Some (Started da)
    \<and> rs_world (da_run da) = 0 \<and> da_coord da = idle \<and> da_passes da = [] \<and> da_resets da = 0
    \<and> st_path (rs_store (da_run da)) = ''s''"
proof -
  have "\<not> MissingFile (ra_statePath demo_args) (rs_disk demo_boot)" "rs_world demo_boot = 0"
    by (simp_all add: demo_args_simps MissingFile_def demo_boot_def put_file_def put_files_def)
  from Run_start_waits [OF assms demo_apart this(1) demo_args_simps(2), of 1 1 None] this(2)
  show ?thesis by (simp add: demo_args_simps)
qed

lemma demo_run:
  "\<exists>da0 da. Run_start 1 1 (demo_app None) demo_args (\<lambda>_. None) quiet_sys None demo_boot = Some (Started da0)
     \<and> daemon_steps 1 1 (demo_app None) demo_args None da0 da \<and> da_passes da = [forceCheck]"
proof -
  obtain da0 where start: "Run_start 1 1 (demo_app None) demo_args (\<lambda>_. None) quiet_sys None demo_boot = Some (Started da0)"
    and da0: "rs_world (da_run da0) = 0" "da_coord da0 = idle" "da_passes da0 = []"
    using demo_started [of "demo_app None"] by (auto simp: demo_app_def)
  obtain s where "runPass 1 (demo_app None) None (uses_store forceCheck) forceCheck
      (log_run LevelInfo lbl_usr2 [] (da_run da0)) = Some (None, s)"
    using demo_forced_pass [of "demo_app None" "log_run LevelInfo lbl_usr2 [] (da_run da0)"] da0 by auto
  then obtain da where h: "handle 1 1 (demo_app None) demo_args None Usr2 (deliver Usr2 da0) = Some (None, da)"
    using handle_runs [of "deliver Usr2 da0" 1 "demo_app None" None Usr2 None s 0 demo_args] da0 by auto
  have "daemon_steps 1 1 (demo_app None) demo_args None da0 da"
    by (rule daemon_steps.more [OF daemon_step.arrives daemon_steps.more [OF daemon_step.takes [OF _ h] daemon_steps.stop]])
      simp
  moreover have "da_passes da = [forceCheck]"
    using handle_idle(2) [OF _ h] da0 by simp
  ultimately show ?thesis using start by blast
qed

text \<open>The same daemon under a context that a signal has ended.\<close>

definition stopped_app :: "(numericVersion, int) app" where
  "stopped_app = (demo_app None)
     \<lparr>ap_engine := tagged_engine\<lparr>en_env := clock_env\<lparr>e_err := \<lambda>_ _. Some ErrCanceled\<rparr>\<rparr>\<rparr>"

lemma stopped_started:
  "\<exists>da. Run_start 1 1 stopped_app demo_args (\<lambda>_. None) quiet_sys None demo_boot = Some (Started da)"
  using demo_started [of stopped_app] by (auto simp: stopped_app_def demo_app_def)

section \<open>Properties\<close>

text \<open>
  C9. The state file and the memory agree at every moment between two cases of the loop: whatever
  ticks, signals and heartbeats came since the start and in whatever order they were handled, a process
  that is stopped and started again remembers exactly the announcements the stopped one did - as long
  as the state file is not the file of the health stamp.
\<close>
theorem daemon_restart:
  assumes "codec_laws (ap_codec app)" and "io_read (ap_io app) (ra_statePath ra) = None" and "apart ra"
    and "Run_start k n app ra add_func sys c s = Some (Started da0)"
    and "daemon_steps k n app ra c da0 da"
  shows "remembered (LoadState (ap_codec app) (ap_io app) (ra_statePath ra) (rs_disk (da_run da)))
    = remembered (rs_store (da_run da))"
  using daemon_steps_synced [OF assms(5,1-3) Run_started(1,2) [OF assms(4)]] assms(1-3)
  by (simp add: synced_def)

theorem daemon_restart_witness:
  "\<exists>da :: int daemon. da_passes da = [forceCheck]
     \<and> remembered (LoadState demo_codec demo_io ''s'' (rs_disk (da_run da))) = remembered (rs_store (da_run da))"
proof -
  obtain da0 da where run: "Run_start 1 1 (demo_app None) demo_args (\<lambda>_. None) quiet_sys None demo_boot = Some (Started da0)"
    "daemon_steps 1 1 (demo_app None) demo_args None da0 da" "da_passes da = [forceCheck]"
    using demo_run by blast
  have "codec_laws (ap_codec (demo_app None))" "io_read (ap_io (demo_app None)) (ra_statePath demo_args) = None"
    by (simp_all add: demo_app_def demo_codec_laws) (simp add: demo_io_def)
  from daemon_restart [OF this demo_apart run(1,2)]
  have "remembered (LoadState demo_codec demo_io ''s'' (rs_disk (da_run da))) = remembered (rs_store (da_run da))"
    by (simp add: demo_app_def demo_args_def)
  with run(3) show ?thesis by blast
qed

text \<open>
  Where the file of the stamp is the state file - a \<open>state_file\<close> named \<open>health\<close> - starting the daemon
  replaces the state by a time stamp, and a restarted process has forgotten every announcement.
\<close>
theorem stamp_over_state:
  assumes "Touch hk io t configPath ''/data/health'' dk = (None, dk')"
    and "js_decode js (hk_format hk t) = Inl err"
  shows "ResolveStatePath configPath ''/data/health'' = ResolveStampPath configPath ''/data/health''
    \<and> remembered (LoadState js io (ResolveStatePath configPath ''/data/health'') dk') = Map.empty"
proof -
  have p: "ResolveStatePath configPath ''/data/health'' = ''/data/health''"
    by (simp add: ResolveStatePath_def)
  have "join_path [dir_path ''/data/health'', ''health''] = ''/data/health''" by code_simp
  then have stamp: "ResolveStampPath configPath ''/data/health'' = ''/data/health''"
    by (simp add: ResolveStampPath_def p stamp_name_def)
  from Touch_stamp [OF assms(1)] assms(2) show ?thesis
    unfolding stamp p
    by (auto simp: LoadState_def remembered_def targets_of_def emptyData_def Let_def split: option.split)
qed

theorem stamp_over_state_witness:
  "\<exists>dk'. Touch sample_health demo_io 0 ''/c'' ''/data/health'' (put_file ''/data/health'' ''{}'' demo_disk) = (None, dk')
     \<and> remembered (LoadState demo_codec demo_io ''/data/health'' dk') = Map.empty"
proof -
  obtain dk' where t: "Touch sample_health demo_io 0 ''/c'' ''/data/health'' (put_file ''/data/health'' ''{}'' demo_disk) = (None, dk')"
    by (simp add: Touch_def write_file_def demo_io_def Let_def)
  have "js_decode demo_codec (hk_format sample_health 0) = Inl (ErrText [Lit ''bad json''])"
    by (simp add: demo_codec_def sample_health_def)
  from stamp_over_state [OF t this] t show ?thesis by (auto simp: ResolveStatePath_def)
qed

text \<open>
  The daemon never runs two passes at once and never queues one: whenever it waits, the
  coordinator is idle, so a queue request is refused; every pass it ran was a scheduled or a forced
  full one, and the schedule was restarted once for each scheduled pass and never for a forced one.
\<close>
theorem daemon_never_queues:
  assumes "Run_start k n app ra add_func sys c s = Some (Started da0)" and "daemon_steps k n app ra c da0 da"
  shows "da_coord da = idle \<and> tryQueue mode (da_coord da) = (False, da_coord da)
    \<and> set (da_passes da) \<subseteq> {scheduled, forceCheck}
    \<and> da_resets da = length (filter pm_updateState (da_passes da))"
  using daemon_steps_quiet [OF assms(2) Run_started(1) [OF assms(1)]] by (simp add: quiet_def)

theorem daemon_never_queues_witness:
  "\<exists>da :: int daemon. da_passes da = [forceCheck] \<and> da_resets da = 0"
proof -
  obtain da0 da where run: "Run_start 1 1 (demo_app None) demo_args (\<lambda>_. None) quiet_sys None demo_boot = Some (Started da0)"
    "daemon_steps 1 1 (demo_app None) demo_args None da0 da" "da_passes da = [forceCheck]"
    using demo_run by blast
  from daemon_never_queues [OF run(1,2)] have "da_resets da = length (filter pm_updateState (da_passes da))"
    by blast
  then have "da_resets da = 0" using run(3) by (simp add: forceCheck_def)
  with run(3) show ?thesis by blast
qed

text \<open>
  C11. What arrives while a pass runs gets a pass of its own: it stays in its channel, and when two
  different events are waiting both are handled, one pass after the other, in the order they are taken -
  a waiting full check does not replace a waiting scheduled one. The only event that is given up is a
  tick of an interval schedule that waits while another scheduled pass runs: the interval starts anew.
\<close>
theorem waiting_signals_each_run:
  assumes "Run_start k n app ra add_func sys c s = Some (Started da0)" and "daemon_steps k n app ra c da0 da"
    and "ready ev da" and "ready ev' da" and "ev \<noteq> ev'" and "handle k n app ra c ev da = Some (None, da1)"
  shows "\<not> ready ev da1 \<and> da_passes da1 = da_passes da @ [mode_of ev]
    \<and> (ready ev' da1 \<longleftrightarrow> \<not> (ev' = Tick \<and> ev = Usr1 \<and> on_ticker da))
    \<and> (\<forall>da2. ready ev' da1 \<and> handle k n app ra c ev' da1 = Some (None, da2) \<longrightarrow>
        \<not> ready ev da2 \<and> \<not> ready ev' da2 \<and> da_passes da2 = da_passes da @ [mode_of ev, mode_of ev'])"
proof -
  have q: "da_coord da = idle"
    using daemon_steps_quiet [OF assms(2) Run_started(1) [OF assms(1)]] by (simp add: quiet_def)
  note one = handle_idle [OF q assms(6)]
  have "\<not> ready ev da2 \<and> \<not> ready ev' da2 \<and> da_passes da2 = da_passes da @ [mode_of ev, mode_of ev']"
    if h: "handle k n app ra c ev' da1 = Some (None, da2)" for da2
    using handle_idle(2,4) [OF one(1) h] one(2,4) by simp
  with one(2,4) assms(3-5) show ?thesis by (cases ev) auto
qed

theorem waiting_signals_each_run_witness:
  "\<exists>da :: int daemon. da_passes da = [scheduled, forceCheck]"
proof -
  let ?app = "(demo_app None)\<lparr>ap_notifiers := [], ap_codec := demo_codec\<lparr>js_encode := \<lambda>_. Inr ''{}''\<rparr>\<rparr>"
  obtain da0 where start: "Run_start 1 1 ?app demo_args (\<lambda>_. None) quiet_sys None demo_boot = Some (Started da0)"
    and da0: "rs_world (da_run da0) = 0" "da_coord da0 = idle" "da_passes da0 = []"
      "st_path (rs_store (da_run da0)) = ''s''"
    using demo_started [of ?app] by (auto simp: demo_app_def)
  let ?da = "deliver Usr2 (deliver Usr1 da0)"
  let ?s = "log_run LevelInfo lbl_usr1 [] (da_run da0)"
  have save: "fst (AfterPass (ap_codec ?app) (ap_io ?app) now ks us cp (rs_store (da_run da0)) dk) = None"
    for now ks us cp dk
    using da0(4)
    by (simp add: AfterPass_def Save_def Let_def demo_app_def demo_io_def demo_codec_def
        Prune_def Record_def on_entries_def write_file_def rename_file_def put_file_def put_files_def)
  obtain d where d: "RunOnce 1 tagged_engine None (rs_diag ?s) 0
      = Some (Inr ([tagged_update], [''web|ghcr.io/a/b''], True), d, 0)"
    using tagged_pass [of "rs_diag ?s"] by blast
  have e: "ap_engine ?app = tagged_engine" "rs_world ?s = 0" "rs_store ?s = rs_store (da_run da0)"
    using da0(1) by (simp_all add: log_run_def)
  have "\<exists>s. runPass 1 ?app None True scheduled ?s = Some (None, s) \<and> rs_world s = 0"
    by (simp only: runPass_def e d) (simp add: Let_def scheduled_def deliver_phase_def notifyAll_def case_prod_beta
        save [simplified] e(3))
  then obtain s where s: "runPass 1 ?app None True scheduled ?s = Some (None, s)" "rs_world s = 0" by blast
  obtain da1 where h1: "handle 1 1 ?app demo_args None Usr1 ?da = Some (None, da1)" and w1: "rs_world (da_run da1) = 0"
    using handle_runs [of ?da 1 ?app None Usr1 None s 0] s da0 by (auto simp: uses_store_def scheduled_def)
  have i1: "da_coord da1 = idle" by (rule handle_idle(1) [OF _ h1]) (simp add: da0)
  obtain da2 where h2: "handle 1 1 ?app demo_args None Usr2 da1 = Some (None, da2)"
    using demo_forced_pass [of ?app "log_run LevelInfo lbl_usr2 [] (da_run da1)"] w1
      handle_runs [OF i1, of 1 ?app None Usr2 None _ 0] by auto
  have "daemon_steps 1 1 ?app demo_args None da0 ?da"
    by (rule daemon_steps.more [OF daemon_step.arrives daemon_steps.more [OF daemon_step.arrives daemon_steps.stop]])
  from waiting_signals_each_run [OF start this _ _ _ h1, of Usr2] h2 da0(3) show ?thesis
    by (intro exI [of _ da2]) simp
qed

text \<open>
  C12. What ends the daemon: it returns without an error exactly when its context was cancelled, and
  with an error only when the containers could not be listed or the state could not be saved. No
  container, registry, notifier or stamp can end it. The context of the command is ended by a signal,
  never by a deadline.
\<close>
theorem daemon_ends:
  assumes "Run_start k n app ra add_func sys c s = Some (Started da0)" and "daemon_steps k n app ra c da0 da"
    and "daemon_end k n app ra c da r s'"
    and "\<forall>w. e_err (en_env (ap_engine app)) c w \<in> {None, Some ErrCanceled}"
  shows "case r of
      None \<Rightarrow> e_err (en_env (ap_engine app)) c (rs_world s') = Some ErrCanceled
    | Some err \<Rightarrow> \<exists>e. err = ErrWrap [Lit ''list containers: ''] e \<or> err = ErrWrap [Lit ''save state: ''] e"
  using assms(3)
proof (rule daemon_endE)
  let ?err = "e_err (en_env (ap_engine app)) c"
  fix e assume "?err (rs_world (da_run da)) = Some e" "finishRun (Some e) (Some e) (da_run da) = (r, s')"
  then show ?thesis using assms(4) [rule_format, of "rs_world (da_run da)"]
    by (auto simp: finishRun_def is_canceled_def err_is_def err_matches_def split: if_splits)
next
  let ?err = "e_err (en_env (ap_engine app)) c"
  fix ev e da'
  assume h: "handle k n app ra c ev da = Some (Some e, da')"
    and f: "finishRun (?err (rs_world (da_run da'))) (Some e) (da_run da') = (r, s')"
  have q: "da_coord da = idle"
    using daemon_steps_quiet [OF assms(2) Run_started(1) [OF assms(1)]] by (simp add: quiet_def)
  from handle_result(5) [OF q h] have
    "runPass n app c (uses_store (mode_of ev)) (mode_of ev) (log_run LevelInfo (event_label ev) [] (da_run da))
      = Some (Some e, da_run da')" by simp
  then have cause: "(\<exists>e'. e = ErrWrap [Lit ''list containers: ''] e' \<or> e = ErrWrap [Lit ''save state: ''] e')
      \<or> ?err (rs_world (da_run da')) = Some e"
    by (rule runPass_error) (cases ev; simp add: uses_store_def scheduled_def forceCheck_def)
  have canceled: "?err (rs_world (da_run da')) = Some ErrCanceled" if "is_canceled (?err (rs_world (da_run da')))"
    using that assms(4) [rule_format, of "rs_world (da_run da')"] by (auto simp: is_canceled_def)
  have self: "err_is ErrCanceled ErrCanceled" by (simp add: err_is_def err_matches_def)
  from f cause canceled self assms(4) [rule_format, of "rs_world (da_run da')"] show ?thesis
    by (auto simp: finishRun_def is_canceled_def split: if_splits)
qed

theorem daemon_ends_witness:
  "\<exists>s. e_err (en_env (ap_engine stopped_app)) None (rs_world (s :: int run_state)) = Some ErrCanceled"
proof -
  obtain da0 where start: "Run_start 1 1 stopped_app demo_args (\<lambda>_. None) quiet_sys None demo_boot = Some (Started da0)"
    using stopped_started by blast
  have "daemon_end 1 1 stopped_app demo_args None da0 None (snd (finishRun (Some ErrCanceled) (Some ErrCanceled) (da_run da0)))"
    by (rule daemon_end.context_done [of _ _ _ ErrCanceled])
      (simp_all add: finishRun_def is_canceled_def err_is_def err_matches_def stopped_app_def)
  from daemon_ends [OF start daemon_steps.stop this] show ?thesis
    by (auto simp: stopped_app_def)
qed

text \<open>
  What is left to go wrong for an accepted configuration: its schedule and time zone are usable and its
  rules and exclusions compile, so that only a plugin can refuse its settings; but an interval that is not
  positive is accepted, and the ticker panics.
\<close>

lemma accepted_source:
  assumes "Load sys path = Inr cfg" and "\<forall>e. sys_cron_parse sys e = None \<longrightarrow> add_func e = None"
  shows "newScheduleSource add_func sys cfg =
    (if cfg_schedule cfg \<noteq> [] then
       Source (CronSource (cfg_schedule cfg) (case ScheduleLocation sys cfg of Inr loc \<Rightarrow> loc | Inl _ \<Rightarrow> LocLocal))
     else if 0 < cfg_interval cfg then Source (TickerSource (cfg_interval cfg))
     else SourcePanic)"
    and "cfg_schedule cfg \<noteq> [] \<Longrightarrow> \<exists>loc. ScheduleLocation sys cfg = Inr loc"
proof -
  have "check_schedule sys cfg = None"
    using assms(1) by (elim Load_Inr) (simp add: check_schedule_env)
  with assms(2) show "newScheduleSource add_func sys cfg =
      (if cfg_schedule cfg \<noteq> [] then
         Source (CronSource (cfg_schedule cfg) (case ScheduleLocation sys cfg of Inr loc \<Rightarrow> loc | Inl _ \<Rightarrow> LocLocal))
       else if 0 < cfg_interval cfg then Source (TickerSource (cfg_interval cfg))
       else SourcePanic)"
    and "cfg_schedule cfg \<noteq> [] \<Longrightarrow> \<exists>loc. ScheduleLocation sys cfg = Inr loc"
    by (auto simp: newScheduleSource_def check_schedule_def split: option.splits sum.splits if_splits)
qed

end
