(* ===== verification/Links.thy ===== *)
theory Links
  imports Engine Format
begin

text \<open>
  The table of notification links (\<open>internal/core/links.go\<close>). The rows are what is modelled; their
  alignment is left to the table writer.
\<close>

record linkRow =
  lr_container :: string
  lr_imageTag :: string
  lr_mode :: string
  lr_url :: msg

definition mode_error :: string where "mode_error = ''error''"
definition row_digest_only :: string where "row_digest_only = ''digest-only reference''"
definition row_bare_digest :: string where "row_bare_digest = ''bare digest reference''"
definition row_no_url :: string where "row_no_url = ''(no url)''"
definition dash :: string where "dash = ''-''"

text \<open>\<open>show_err\<close> is the text of an error in the last column of a reference that does not parse.\<close>

definition linkRowFor :: "url_parser \<Rightarrow> (go_error \<Rightarrow> msg) \<Rightarrow> ('v, 'w) engine \<Rightarrow> container \<Rightarrow> diag \<Rightarrow> linkRow \<times> diag" where
  "linkRowFor url_parse show_err en c d =
     (let nm = (if c_name c = [] then dash else c_name c);
          imageTag = (if c_image_ref c = [] then dash else c_image_ref c);
          row = \<lparr>lr_container = nm, lr_imageTag = imageTag, lr_mode = mode_error, lr_url = []\<rparr>
      in case parse (en_parse en) (c_image_ref c) of
           Inl err \<Rightarrow> (row\<lparr>lr_url := Lit ''parse image ref: '' # show_err err\<rparr>, d)
         | Inr p \<Rightarrow>
             if p_tag p = [] then
               (row\<lparr>lr_url := [Str (if p_repo p = [] then row_bare_digest else row_digest_only)]\<rparr>, d)
             else
               (case resolveTrackingMode (en_semver en) (en_rules en) (p_host p) (p_repo p) (p_tag p) nm (c_labels c) of
                  (mode, rule, cause) \<Rightarrow>
                    let d = log_lines (tracking_lines (en_rule_lines en) (p_host p) (p_repo p) nm (c_labels c)) d;
                        d = logTrackingDiagnostics nm (p_repo p) (p_tag p) mode cause rule d;
                        link = image_URL url_parse (p_host p) (p_repo p) (p_tag p) (c_labels c) mode;
                        link = (if link = [] then row_no_url else link)
                    in (row\<lparr>lr_mode := linksDisplayMode mode cause, lr_url := [Str link]\<rparr>, d)))"

fun rows_from :: "url_parser \<Rightarrow> (go_error \<Rightarrow> msg) \<Rightarrow> ('v, 'w) engine \<Rightarrow> container list \<Rightarrow> diag
    \<Rightarrow> linkRow list \<times> diag" where
  "rows_from url_parse show_err en [] d = ([], d)"
| "rows_from url_parse show_err en (c # cs) d =
     (case linkRowFor url_parse show_err en c d of (row, d) \<Rightarrow>
      (case rows_from url_parse show_err en cs d of (rows, d) \<Rightarrow> (row # rows, d)))"

definition log_listed_links :: "('v, 'w) engine \<Rightarrow> container list \<Rightarrow> diag \<Rightarrow> diag" where
  "log_listed_links en ctrs d =
     (let d = foldl (\<lambda>d name. log_to LevelWarn ''exclude_containers name not found among running containers''
                [(''name'', AttrStr name)] d) d (warnMissingExcludeContainers ctrs (en_exclude en));
          d = log_lines (watch_lines (en_exclude en) ctrs) d;
          (monitored, excluded) = filterByWatch ctrs (en_exclude en)
      in log_to LevelInfo ''listed running containers''
           [(''count'', AttrNum (int (length ctrs))), (''monitored'', AttrNum (int (length monitored))),
            (''excluded'', AttrNum (int excluded))] d)"

definition WriteLinks :: "url_parser \<Rightarrow> (go_error \<Rightarrow> msg) \<Rightarrow> ('v, 'w) engine \<Rightarrow> ctx \<Rightarrow> diag \<Rightarrow> 'w
    \<Rightarrow> (go_error + linkRow list) \<times> diag \<times> 'w" where
  "WriteLinks url_parse show_err en c d w =
     (let e = en_env en; listCtx = with_timeout e c (t_provider (en_timeouts en)) w in
      case pv_ListRunning (en_provider en) listCtx w of
        (Inl err, w) \<Rightarrow> (Inl (ErrWrap [Lit ''list containers: ''] err), d, w)
      | (Inr ctrs, w) \<Rightarrow>
          (case rows_from url_parse show_err en (fst (filterByWatch ctrs (en_exclude en))) (log_listed_links en ctrs d) of
             (rows, d) \<Rightarrow> (Inr rows, d, w)))"

section \<open>Facts\<close>

lemma linkRowFor_container:
  "lr_container (fst (linkRowFor url_parse show_err en c d)) = (if c_name c = [] then dash else c_name c)"
  by (simp add: linkRowFor_def Let_def split: sum.splits prod.splits)

lemma rows_from_containers:
  "map lr_container (fst (rows_from url_parse show_err en cs d))
     = map (\<lambda>c. if c_name c = [] then dash else c_name c) cs"
proof (induction cs arbitrary: d)
  case (Cons c cs)
  obtain row d1 where r: "linkRowFor url_parse show_err en c d = (row, d1)" by fastforce
  obtain rows d2 where rs: "rows_from url_parse show_err en cs d1 = (rows, d2)" by fastforce
  from r linkRowFor_container [of url_parse show_err en c d] Cons.IH [of d1] rs show ?case by simp
qed simp

text \<open>A row is in error exactly when the check would skip the container for its reference.\<close>

lemma linkRowFor_mode:
  "lr_mode (fst (linkRowFor url_parse show_err en c d)) =
    (case parse (en_parse en) (c_image_ref c) of
       Inl _ \<Rightarrow> mode_error
     | Inr p \<Rightarrow> if p_tag p = [] then mode_error
         else (case resolveTrackingMode (en_semver en) (en_rules en) (p_host p) (p_repo p) (p_tag p)
                 (if c_name c = [] then dash else c_name c) (c_labels c) of
                 (mode, _, cause) \<Rightarrow> linksDisplayMode mode cause))"
  by (simp add: linkRowFor_def Let_def split: sum.splits prod.splits)

text \<open>No warning that was given once is forgotten.\<close>

lemma linkRowFor_keys: "set (d_keys d) \<subseteq> set (d_keys (snd (linkRowFor url_parse show_err en c d)))"
proof -
  have "set (d_keys d) \<subseteq> set (d_keys (logTrackingDiagnostics nm repo tag mode cause rule (log_lines ls d)))"
    for nm repo tag mode cause rule ls
    using diag_step_tracking [of "log_lines ls d" nm repo tag mode cause rule] by (auto simp: diag_step_def)
  then show ?thesis by (simp add: linkRowFor_def Let_def split: sum.splits prod.splits)
qed

lemma rows_from_keys: "set (d_keys d) \<subseteq> set (d_keys (snd (rows_from url_parse show_err en cs d)))"
proof (induction cs arbitrary: d)
  case (Cons c cs)
  from linkRowFor_keys [of d url_parse show_err en c] Cons.IH show ?case
    by (simp add: case_prod_beta) blast
qed simp

end
