(* ===== verification/Cmd.thy ===== *)
theory Cmd
  imports Logging Health Notifiers Oci Docker Daemon Links
begin

text \<open>
  The commands (\<open>cmd/versentry/main.go\<close>), the process they make up, and the version strings
  (\<open>internal/version/version.go\<close>). The parsing of the command line and its help texts are cobra's.
\<close>

section \<open>Version\<close>

definition dev :: string where "dev = ''dev''"
definition unknown :: string where "unknown = ''unknown''"

definition DisplayVersion :: "string \<Rightarrow> string" where
  "DisplayVersion version = (if version = [] then dev else version)"

definition ShortCommit :: "string \<Rightarrow> string" where
  "ShortCommit commit = (if commit = [] then unknown else if 8 < length commit then take 8 commit else commit)"

definition version_String :: "string \<Rightarrow> string \<Rightarrow> string" where
  "version_String version commit =
     (let v = DisplayVersion version; c = ShortCommit commit in
      if c = unknown then v else v @ '' ('' @ c @ '')'')"

definition LogStartup :: "string \<Rightarrow> string \<Rightarrow> diag \<Rightarrow> diag" where
  "LogStartup version commit d =
     log_to LevelInfo ''versentry starting''
       [(''version'', AttrStr (DisplayVersion version)), (''commit'', AttrStr (ShortCommit commit))] d"

section \<open>Commands\<close>

definition resolveLogLevel :: "string \<Rightarrow> string \<Rightarrow> go_error + level" where
  "resolveLogLevel configLevel flagLevel =
     (let raw = (if flagLevel \<noteq> [] then flagLevel else configLevel); l = to_lower (trim_space raw) in
      if l = ''debug'' then Inr LevelDebug
      else if l = ''info'' \<or> l = [] then Inr LevelInfo
      else if l = ''warn'' \<or> l = ''warning'' then Inr LevelWarn
      else if l = ''error'' then Inr LevelError
      else Inl (ErrText [Lit ''unknown log level '', Quoted raw]))"

text \<open>The errors a command returns; \<open>CmdInit\<close> is the wrapping \<open>init app\<close>.\<close>

datatype cmd_error =
    CmdLoad load_error
  | CmdStamp go_error
  | CmdLogLevel go_error
  | CmdInit "cmd_error + app_error"
  | CmdRun go_error
  | CmdStart source_result

text \<open>
  The pieces the program links in: the plugin tables, the libraries of the engine, the URL library and
  the files; and the two strings the linker sets.
\<close>

record ('v, 'w) program =
  pg_sys :: sys
  pg_connect :: "string option \<Rightarrow> go_error + 'w docker_client"
  pg_parse_ref :: ref_parser
  pg_oci :: "'w oci_env"
  pg_plugins :: "'w plugin_env"
  pg_base :: "('v, 'w) app"
  pg_health :: health_tools
  pg_url_user :: "url \<Rightarrow> user_part"
  pg_url_string :: "url \<Rightarrow> user_part \<Rightarrow> string"
  pg_show_err :: "go_error \<Rightarrow> msg"
  pg_add_func :: "string \<Rightarrow> go_error option"
  pg_version :: string
  pg_commit :: string

abbreviation pg_io :: "('v, 'w) program \<Rightarrow> io" where "pg_io pg \<equiv> ap_io (pg_base pg)"
abbreviation pg_env :: "('v, 'w) program \<Rightarrow> 'w env" where "pg_env pg \<equiv> en_env (ap_engine (pg_base pg))"

text \<open>
  The registry client of the program, logging at the resolved level: \<open>slog.SetDefault\<close> makes the new logger
  the one of its requests.
\<close>

definition oci_at :: "('v, 'w) program \<Rightarrow> level \<Rightarrow> 'w oci_env" where
  "oci_at pg level =
     (pg_oci pg)\<lparr>oe_net := (oe_net (pg_oci pg))\<lparr>nt_env := pg_env pg, nt_debug := (level \<le> LevelDebug)\<rparr>\<rparr>"

definition loadApp :: "('v, 'w) program \<Rightarrow> config \<Rightarrow> string \<Rightarrow> diag \<Rightarrow> (cmd_error + ('v, 'w) app) \<times> diag" where
  "loadApp pg cfg flagLogLevel d =
     (case resolveLogLevel (cfg_log_level cfg) flagLogLevel of
        Inl err \<Rightarrow> (Inl (CmdLogLevel err), d)
      | Inr level \<Rightarrow>
          (let d = d\<lparr>d_debug := (level \<le> LevelDebug)\<rparr> in
           case NewApp (pg_sys pg) (provider_New (pg_connect pg) (pg_parse_ref pg)) (registry_New (oci_at pg level))
                  (make_slot (pg_plugins pg))
                  (MaskProxyURL (oe_url_parse (pg_oci pg)) (pg_url_user pg) (pg_url_string pg)) (pg_base pg) cfg d of
             (Inl err, d) \<Rightarrow> (Inl (CmdInit (Inr err)), d)
           | (Inr app, d) \<Rightarrow> (Inr app, d)))"

definition newVersionCmd :: "('v, 'w) program \<Rightarrow> string" where
  "newVersionCmd pg = version_String (pg_version pg) (pg_commit pg)"

definition startup :: "('v, 'w) program \<Rightarrow> 'w run_state \<Rightarrow> 'w run_state" where
  "startup pg s = s\<lparr>rs_diag := LogStartup (pg_version pg) (pg_commit pg) (rs_diag s)\<rparr>"

definition newCheckCmd :: "nat \<Rightarrow> ('v, 'w) program \<Rightarrow> string \<Rightarrow> string \<Rightarrow> ctx \<Rightarrow> 'w run_state
    \<Rightarrow> (cmd_error option \<times> 'w run_state) option" where
  "newCheckCmd n pg configPath logLevel c s =
     (case Load (pg_sys pg) configPath of
        Inl err \<Rightarrow> Some (Some (CmdLoad err), s)
      | Inr cfg \<Rightarrow>
     (case loadApp pg cfg logLevel (rs_diag s) of
        (Inl err, d) \<Rightarrow> Some (Some err, s\<lparr>rs_diag := d\<rparr>)
      | (Inr app, d) \<Rightarrow>
          map_option (\<lambda>(r, s). (map_option CmdRun r, s)) (Check n app c (startup pg (s\<lparr>rs_diag := d\<rparr>)))))"

text \<open>\<open>versentry links\<close> prints the table of the application's engine.\<close>

definition newLinksCmd :: "('v, 'w) program \<Rightarrow> string \<Rightarrow> string \<Rightarrow> ctx \<Rightarrow> diag \<Rightarrow> 'w
    \<Rightarrow> (cmd_error + linkRow list) \<times> diag \<times> 'w" where
  "newLinksCmd pg configPath logLevel c d w =
     (case Load (pg_sys pg) configPath of
        Inl err \<Rightarrow> (Inl (CmdLoad err), d, w)
      | Inr cfg \<Rightarrow>
     (case loadApp pg cfg logLevel d of
        (Inl err, d) \<Rightarrow> (Inl err, d, w)
      | (Inr app, d) \<Rightarrow>
          (case WriteLinks (oe_url_parse (pg_oci pg)) (pg_show_err pg) (ap_engine app) c d w of
             (r, d, w) \<Rightarrow> (map_sum CmdRun id r, d, w))))"

definition newHealthCmd :: "('v, 'w) program \<Rightarrow> string \<Rightarrow> ctx \<Rightarrow> disk \<Rightarrow> 'w \<Rightarrow> cmd_error option \<times> 'w" where
  "newHealthCmd pg configPath c dk w =
     (case Load (pg_sys pg) configPath of
        Inl err \<Rightarrow> (Some (CmdLoad err), w)
      | Inr cfg \<Rightarrow>
          (case health_Check (provider_New (pg_connect pg) (pg_parse_ref pg)) (pg_health pg) (pg_io pg) (pg_env pg)
                  (pg_sys pg) c cfg configPath dk w of
             (r, w) \<Rightarrow> (map_option CmdRun r, w)))"

text \<open>
  \<open>versentry run\<close> up to the loop of the daemon: the configuration, a first stamp, the application, and
  the start of \<open>App.Run\<close> with the path of the state file. \<open>Inr None\<close>: \<open>Run\<close> has returned without an
  error before its loop.
\<close>

definition newRunCmd :: "nat \<Rightarrow> nat \<Rightarrow> ('v, 'w) program \<Rightarrow> string \<Rightarrow> string \<Rightarrow> ctx \<Rightarrow> 'w run_state
    \<Rightarrow> (cmd_error + (('v, 'w) app \<times> run_args \<times> 'w daemon) option) option" where
  "newRunCmd k n pg configPath logLevel c s =
     (case Load (pg_sys pg) configPath of
        Inl err \<Rightarrow> Some (Inl (CmdLoad err))
      | Inr cfg \<Rightarrow>
     (case Touch (pg_health pg) (pg_io pg) (e_now (pg_env pg) (rs_world s)) configPath (cfg_state_file cfg) (rs_disk s) of
        (Some err, dk) \<Rightarrow> Some (Inl (CmdStamp (ErrWrap [Lit ''health stamp: ''] err)))
      | (None, dk) \<Rightarrow>
     (case loadApp pg cfg logLevel (rs_diag s) of
        (Inl err, d) \<Rightarrow> Some (Inl (CmdInit (Inl err)))
      | (Inr app, d) \<Rightarrow>
          let ra = \<lparr>ra_cfg = cfg, ra_configPath = configPath,
                    ra_statePath = ResolveStatePath configPath (cfg_state_file cfg), ra_health = pg_health pg\<rparr>
          in case Run_start k n app ra (pg_add_func pg) (pg_sys pg) c (startup pg (s\<lparr>rs_disk := dk, rs_diag := d\<rparr>)) of
               None \<Rightarrow> None
             | Some (StartError err) \<Rightarrow> Some (Inl (CmdRun err))
             | Some (StartSource r) \<Rightarrow> Some (Inl (CmdStart r))
             | Some Stopped \<Rightarrow> Some (Inr None)
             | Some (Started da) \<Rightarrow> Some (Inr (Some (app, ra, da))))))"

section \<open>The program\<close>

text \<open>
  The tree of commands that \<open>newRootCmd\<close> builds for cobra: the flags with their shorthand and default, and
  the subcommands.
\<close>

datatype subcommand = CheckCmd | RunCmd | LinksCmd | HealthCmd | VersionCmd

record flag =
  fl_name :: string
  fl_short :: string
  fl_default :: string

record root_cmd =
  rc_use :: string
  rc_silence_usage :: bool
  rc_flags :: "flag list"
  rc_commands :: "(string \<times> subcommand) list"

definition DefaultConfigPath :: string where "DefaultConfigPath = ''/etc/versentry/config.yaml''"

definition config_flag :: string where "config_flag = ''config''"
definition log_level_flag :: string where "log_level_flag = ''log-level''"

definition newRootCmd :: root_cmd where
  "newRootCmd =
     \<lparr>rc_use = ''versentry'', rc_silence_usage = True,
      rc_flags = [\<lparr>fl_name = config_flag, fl_short = ''c'', fl_default = DefaultConfigPath\<rparr>,
                  \<lparr>fl_name = log_level_flag, fl_short = [], fl_default = []\<rparr>],
      rc_commands = [(''check'', CheckCmd), (''run'', RunCmd), (''links'', LinksCmd), (''health'', HealthCmd),
                     (''version'', VersionCmd)]\<rparr>"

text \<open>
  What cobra makes of the command line: it shows help, refuses the arguments, or runs a subcommand with
  the values that were given for the flags. A flag that is not given has its default.
\<close>

datatype parsed = HelpShown | Refused go_error | Chosen subcommand "string \<rightharpoonup> string"

definition flag_value :: "root_cmd \<Rightarrow> (string \<rightharpoonup> string) \<Rightarrow> string \<Rightarrow> string" where
  "flag_value cmds given name =
     (case given name of
        Some v \<Rightarrow> v
      | None \<Rightarrow> (case find (\<lambda>f. fl_name f = name) (rc_flags cmds) of None \<Rightarrow> [] | Some f \<Rightarrow> fl_default f))"

text \<open>
  The process has ended with its exit status and what it has printed on standard output, or the loop of
  the daemon is running. The rows of \<open>links\<close> are aligned by the library.
\<close>

datatype printed = NoOutput | VersionLine string | LinkTable "linkRow list"

datatype ('v, 'w) process = Exited nat printed | Serving "('v, 'w) app" run_args "'w daemon"

definition exit_status :: "'e option \<Rightarrow> nat" where "exit_status err = (if err = None then 0 else 1)"

text \<open>A panic, here that of a ticker with an interval that is not positive, ends the process with status 2.\<close>

definition run_status :: "cmd_error \<Rightarrow> nat" where
  "run_status err = (case err of CmdStart SourcePanic \<Rightarrow> 2 | _ \<Rightarrow> exit_status (Some err))"

definition run_process :: "cmd_error + (('v, 'w) app \<times> run_args \<times> 'w daemon) option \<Rightarrow> ('v, 'w) process" where
  "run_process r =
     (case r of
        Inl err \<Rightarrow> Exited (run_status err) NoOutput
      | Inr None \<Rightarrow> Exited (exit_status (None :: cmd_error option)) NoOutput
      | Inr (Some (app, ra, da)) \<Rightarrow> Serving app ra da)"

definition main :: "nat \<Rightarrow> nat \<Rightarrow> ('v, 'w) program \<Rightarrow> (root_cmd \<Rightarrow> string list \<Rightarrow> parsed) \<Rightarrow> string list
    \<Rightarrow> 'w run_state \<Rightarrow> ('v, 'w) process option" where
  "main k n pg cobra args s =
     (let cmds = newRootCmd in
      case cobra cmds args of
        HelpShown \<Rightarrow> Some (Exited (exit_status (None :: cmd_error option)) NoOutput)
      | Refused err \<Rightarrow> Some (Exited (exit_status (Some err)) NoOutput)
      | Chosen cmd given \<Rightarrow>
          (let configPath = flag_value cmds given config_flag; logLevel = flag_value cmds given log_level_flag in
           case cmd of
             CheckCmd \<Rightarrow>
               map_option (\<lambda>(r, _). Exited (exit_status r) NoOutput) (newCheckCmd n pg configPath logLevel None s)
           | RunCmd \<Rightarrow> map_option run_process (newRunCmd k n pg configPath logLevel None s)
           | LinksCmd \<Rightarrow>
               (case newLinksCmd pg configPath logLevel None (rs_diag s) (rs_world s) of
                  (Inl err, _) \<Rightarrow> Some (Exited (exit_status (Some err)) NoOutput)
                | (Inr rows, _) \<Rightarrow> Some (Exited (exit_status (None :: cmd_error option)) (LinkTable rows)))
           | HealthCmd \<Rightarrow>
               (case newHealthCmd pg configPath None (rs_disk s) (rs_world s) of
                  (r, _) \<Rightarrow> Some (Exited (exit_status r) NoOutput))
           | VersionCmd \<Rightarrow>
               Some (Exited (exit_status (None :: cmd_error option)) (VersionLine (newVersionCmd pg)))))"

section \<open>Facts\<close>

lemma loadApp_Inr:
  assumes "loadApp pg cfg lvl d = (Inr app, d')"
  obtains level d1 where "resolveLogLevel (cfg_log_level cfg) lvl = Inr level"
    and "NewApp (pg_sys pg) (provider_New (pg_connect pg) (pg_parse_ref pg)) (registry_New (oci_at pg level))
      (make_slot (pg_plugins pg)) (MaskProxyURL (oe_url_parse (pg_oci pg)) (pg_url_user pg) (pg_url_string pg))
      (pg_base pg) cfg d1 = (Inr app, d')"
  using assms by (auto simp: loadApp_def Let_def split: sum.splits prod.splits)

lemma oci_at_env [simp]: "oe_env (oci_at pg level) = pg_env pg"
  by (simp add: oci_at_def)

lemma oci_at_mono:
  "env_laws (pg_env pg) \<Longrightarrow> net_mono ((oe_net (pg_oci pg))\<lparr>nt_env := pg_env pg\<rparr>) \<Longrightarrow> oci_mono (oci_at pg level)"
  by (simp add: oci_mono_def oci_at_def net_mono_def slog_Default_def log_mono_def)

lemma newRunCmd_Inr:
  assumes "newRunCmd k n pg configPath lvl c s = Some (Inr (Some (app, ra, da)))"
  obtains s1 d1 d2 where "Load (pg_sys pg) configPath = Inr (ra_cfg ra)"
    "loadApp pg (ra_cfg ra) lvl d1 = (Inr app, d2)"
    "ra_configPath ra = configPath" "ra_statePath ra = ResolveStatePath configPath (cfg_state_file (ra_cfg ra))"
    "Run_start k n app ra (pg_add_func pg) (pg_sys pg) c s1 = Some (Started da)"
  using assms
  by (auto simp: newRunCmd_def Let_def split: sum.splits prod.splits option.splits start.splits)

lemma run_process_Serving: "run_process r = Serving app ra da \<longleftrightarrow> r = Inr (Some (app, ra, da))"
  by (auto simp: run_process_def split: sum.split option.split)

lemma flag_values:
  "flag_value newRootCmd given config_flag = (case given config_flag of None \<Rightarrow> DefaultConfigPath | Some p \<Rightarrow> p)"
  "flag_value newRootCmd given log_level_flag = (case given log_level_flag of None \<Rightarrow> [] | Some l \<Rightarrow> l)"
  by (simp_all add: flag_value_def newRootCmd_def config_flag_def log_level_flag_def split: option.split)

lemma main_Serving:
  assumes "main k n pg cobra args s = Some (Serving app ra da)"
  obtains given where "cobra newRootCmd args = Chosen RunCmd given"
    "newRunCmd k n pg (flag_value newRootCmd given config_flag) (flag_value newRootCmd given log_level_flag) None s
      = Some (Inr (Some (app, ra, da)))"
  using assms
  by (auto simp: main_def Let_def run_process_Serving split: parsed.splits subcommand.splits sum.splits prod.splits)

text \<open>The exit status tells whether a single check has failed; without \<open>-c\<close> the configuration is the mounted one.\<close>

lemma main_check:
  assumes "cobra newRootCmd args = Chosen CheckCmd given"
  shows "main k n pg cobra args s = map_option (\<lambda>(r, _). Exited (if r = None then 0 else 1) NoOutput)
      (newCheckCmd n pg (case given config_flag of None \<Rightarrow> DefaultConfigPath | Some p \<Rightarrow> p)
        (case given log_level_flag of None \<Rightarrow> [] | Some l \<Rightarrow> l) None s)"
  by (simp add: main_def assms exit_status_def flag_values Let_def)



section \<open>Properties\<close>


text \<open>
  C10. From the command line to a running daemon: once the program is in its loop, it was called with
  \<open>run\<close> and the configuration its flags name was valid; the daemon polls through one client per registry
  host, all of them with limits on connecting and waiting; it delivers to exactly the configured
  notifiers; its schedule is the configured one; and at every moment of the loop it is idle between two
  cases, the next event is handled to its end, and a restart would remember what it remembers - unless
  the configured state file is named \<open>health\<close>, like the stamp. The network is taken to need no negative
  time.
\<close>
theorem run_command:
  assumes "main k n pg cobra args s = Some (Serving app ra da0)"
    and "daemon_steps k n app ra c da0 da"
    and "codec_laws (ap_codec (pg_base pg))" and "io_read (pg_io pg) (ra_statePath ra) = None"
    and "\<nexists>q. cfg_state_file (ra_cfg ra) = q @ stamp_name"
    and "env_laws (pg_env pg)" and "net_mono ((oe_net (pg_oci pg))\<lparr>nt_env := pg_env pg\<rparr>)"
    and "t_registry (cfg_timeouts (ra_cfg ra)) \<le> int b * second" and "2 * b + 3 \<le> n"
  shows "(\<exists>given. cobra newRootCmd args = Chosen RunCmd given
        \<and> ra_configPath ra = flag_value newRootCmd given ''config'' \<and> Load (pg_sys pg) (ra_configPath ra) = Inr (ra_cfg ra)
        \<and> (\<forall>reg\<in>set (en_registries (ap_engine app)). \<exists>level r. bounded_client r
             \<and> resolveLogLevel (cfg_log_level (ra_cfg ra)) (flag_value newRootCmd given ''log-level'') = Inr level
             \<and> reg = oci_registry (oci_at pg level) r))
    \<and> distinct (map reg_host (en_registries (ap_engine app)))
    \<and> map ns_typ (ap_notifiers app) = map pc_type (cfg_notifiers (ra_cfg ra))
    \<and> newScheduleSource (pg_add_func pg) (pg_sys pg) (ra_cfg ra) = Source (da_schedule da)
    \<and> da_coord da = idle
    \<and> (\<exists>r da'. handle (Suc k) n app ra c ev da = Some (r, da'))
    \<and> remembered (LoadState (ap_codec app) (ap_io app) (ra_statePath ra) (rs_disk (da_run da)))
      = remembered (rs_store (da_run da))"
proof -
  from assms(1) obtain given where chosen: "cobra newRootCmd args = Chosen RunCmd given"
    and run: "newRunCmd k n pg (flag_value newRootCmd given config_flag) (flag_value newRootCmd given log_level_flag) None s
      = Some (Inr (Some (app, ra, da0)))" by (rule main_Serving)
  let ?path = "flag_value newRootCmd given config_flag" and ?lvl = "flag_value newRootCmd given log_level_flag"
  from run obtain s1 d1 d2 where load: "Load (pg_sys pg) ?path = Inr (ra_cfg ra)"
    and app: "loadApp pg (ra_cfg ra) ?lvl d1 = (Inr app, d2)"
    and paths: "ra_configPath ra = ?path" "ra_statePath ra = ResolveStatePath ?path (cfg_state_file (ra_cfg ra))"
    and start: "Run_start k n app ra (pg_add_func pg) (pg_sys pg) None s1 = Some (Started da0)"
    by (rule newRunCmd_Inr)
  from app obtain level d3 where level: "resolveLogLevel (cfg_log_level (ra_cfg ra)) ?lvl = Inr level"
    and new: "NewApp (pg_sys pg) (provider_New (pg_connect pg) (pg_parse_ref pg)) (registry_New (oci_at pg level))
      (make_slot (pg_plugins pg)) (MaskProxyURL (oe_url_parse (pg_oci pg)) (pg_url_user pg) (pg_url_string pg))
      (pg_base pg) (ra_cfg ra) d3 = (Inr app, d2)" by (rule loadApp_Inr)
  note A = NewApp_Inr [OF new]
  have apart: "apart ra" using stamp_apart [OF assms(5), of ?path] by (simp add: apart_def paths)
  have laws: "codec_laws (ap_codec app)" "io_read (ap_io app) (ra_statePath ra) = None"
    using assms(3,4) by (simp_all add: A(8,9))
  note R = Run_started [OF start]
  have "synced app ra (da_run da)"
    using daemon_steps_synced [OF assms(2) laws apart R(1) R(2) [OF laws apart]] .
  moreover have mono: "\<forall>reg\<in>set (en_registries (ap_engine app)). registry_mono (en_env (ap_engine app)) reg"
    using buildRegistries_bounded(2) [OF A(2)] oci_registry_mono [OF oci_at_mono [OF assms(6,7)], of level] A(7)
    by (fastforce simp: oci_at_env)
  moreover have idle: "da_coord da = idle"
    using daemon_steps_quiet [OF assms(2) R(1)] by (simp add: quiet_def)
  moreover have "\<exists>r da'. handle (Suc k) n app ra c ev da = Some (r, da')"
    by (rule daemon_comes_back [OF idle _ mono _ assms(9)]) (simp_all add: A(6,7) assms(6,8))
  ultimately have "\<exists>r da'. handle (Suc k) n app ra c ev da = Some (r, da')" "synced app ra (da_run da)"
    by simp_all
  moreover have "\<exists>given. cobra newRootCmd args = Chosen RunCmd given
        \<and> ra_configPath ra = flag_value newRootCmd given ''config'' \<and> Load (pg_sys pg) (ra_configPath ra) = Inr (ra_cfg ra)
        \<and> (\<forall>reg\<in>set (en_registries (ap_engine app)). \<exists>level r. bounded_client r
             \<and> resolveLogLevel (cfg_log_level (ra_cfg ra)) (flag_value newRootCmd given ''log-level'') = Inr level
             \<and> reg = oci_registry (oci_at pg level) r)"
    using chosen load paths(1) level buildRegistries_bounded(2) [OF A(2)]
    by (intro exI [of _ given]) (force simp: config_flag_def log_level_flag_def)
  ultimately show ?thesis
    using buildRegistries_bounded(1) [OF A(2)] A(3) R(3) daemon_steps_schedule [OF assms(2) R(1)] idle
    by (simp add: synced_def)
qed

text \<open>A machine with Docker, an empty environment and a configuration file that names a state file.\<close>

definition sample_config :: config where
  "sample_config = default_config\<lparr>cfg_state_file := ''s'',
     cfg_provider := \<lparr>pc_type = ''docker'', pc_config = []\<rparr>,
     cfg_notifiers := [\<lparr>pc_type = ''stdout'', pc_config = []\<rparr>]\<rparr>"

definition sample_program :: "int plugin_env \<Rightarrow> (numericVersion, int) program" where
  "sample_program px =
     \<lparr>pg_sys = quiet_sys\<lparr>sys_read_file := \<lambda>_. Inr [], sys_yaml := \<lambda>_ _. Inr sample_config\<rparr>,
      pg_connect = \<lambda>_. Inr (docker_on (\<lambda>_ w. w + 1)), pg_parse_ref = en_parse tagged_engine, pg_oci = sample_oci_env clock_net,
      pg_plugins = px, pg_base = demo_app None, pg_health = sample_health, pg_url_user = \<lambda>_. None,
      pg_url_string = \<lambda>_ _. [], pg_show_err = \<lambda>_. [], pg_add_func = \<lambda>_. None, pg_version = [], pg_commit = []\<rparr>"

lemma no_env_overrides:
  assumes "\<And>k. env sys k = []"
  shows "ApplyEnvOverrides sys cfg = cfg"
proof -
  have "env_notifier sys t m = m" for t m by (simp add: env_notifier_def assms)
  then show ?thesis
    by (simp add: ApplyEnvOverrides_eq env_scalar_def env_registries_def env_notifiers_def assms on_type_id)
qed

lemma sample_load: "Load (pg_sys (sample_program px)) ''c'' = Inr sample_config"
proof -
  have "trim_space [] = []" by code_simp
  then have "ApplyEnvOverrides (pg_sys (sample_program px)) cfg = cfg" for cfg
    by (intro no_env_overrides) (simp add: sample_program_def quiet_sys_def env_def)
  then show ?thesis
    by (simp add: Load_def) (simp add: sample_program_def sample_config_def default_config_def validateRules_def
        ExcludeContainerSet_def check_schedule_def)
qed

lemma sample_runs:
  "\<exists>app ra da. newRunCmd 1 63 (sample_program px) ''c'' [] None demo_boot = Some (Inr (Some (app, ra, da)))
     \<and> ra_statePath ra = ''s'' \<and> ra_cfg ra = sample_config"
proof -
  let ?pg = "sample_program px"
  let ?ra = "\<lparr>ra_cfg = sample_config, ra_configPath = ''c'', ra_statePath = ''s'', ra_health = sample_health\<rparr>"
  have cfg: "cfg_state_file sample_config = ''s''" "cfg_log_level sample_config = ''info''"
    by (simp_all add: sample_config_def default_config_def)
  have path: "ResolveStatePath ''c'' ''s'' = ''s''" by (simp add: ResolveStatePath_def)
  obtain dk where touch: "Touch (pg_health ?pg) (pg_io ?pg) (e_now (pg_env ?pg) (rs_world demo_boot)) ''c'' ''s''
      (rs_disk demo_boot) = (None, dk)"
    by (simp add: Touch_def write_file_def sample_program_def demo_app_def demo_io_def Let_def)
  have stamp: "''s'' \<noteq> ResolveStampPath ''c'' ''s''" using stamp_apart [of "''s''" "''c''"] path by (simp add: stamp_name_def)
  have "contents ''s'' dk = Some []"
    using Touch_frame [OF touch stamp] by (simp add: demo_boot_def)
  then have there: "\<not> MissingFile ''s'' dk" by (simp add: MissingFile_def contents_def)
  let ?oe = "sample_oci_env (clock_net\<lparr>nt_debug := False\<rparr>)"
  have at: "oci_at ?pg LevelInfo = ?oe"
    by (simp add: oci_at_def sample_program_def sample_oci_env_def clock_net_def demo_app_def tagged_engine_def demo_engine_def)
  obtain regs where regs: "buildRegistries (registry_New ?oe) [] [] = Inr regs"
    using sample_registries by blast
  have level: "resolveLogLevel ''info'' [] = Inr LevelInfo" by code_simp
  have "\<exists>app d'. loadApp ?pg sample_config [] d = (Inr app, d') \<and> ap_io app = demo_io" for d
    by (simp add: loadApp_def NewApp_def cfg(2) level at Let_def)
      (simp add: sample_program_def sample_config_def default_config_def provider_New_def docker_New_def regs make_slot_def
        notifier_New_def factories_def NewConfigRuleResolver_def ExcludeContainerSet_def demo_app_def)
  then obtain app d where app: "loadApp ?pg sample_config [] (rs_diag demo_boot) = (Inr app, d)" "ap_io app = demo_io"
    by blast
  have src: "newScheduleSource (pg_add_func ?pg) (pg_sys ?pg) (ra_cfg ?ra) = Source (TickerSource hour)"
    by (simp add: newScheduleSource_def sample_config_def default_config_def hour_def minute_def second_def)
  have "apart ?ra" using stamp by (simp add: apart_def cfg(1))
  from Run_start_waits [OF app(2) this _ src, of "startup ?pg (demo_boot\<lparr>rs_disk := dk, rs_diag := d\<rparr>)" 1 63 None] there
  obtain da where "Run_start 1 63 app ?ra (pg_add_func ?pg) (pg_sys ?pg) None
      (startup ?pg (demo_boot\<lparr>rs_disk := dk, rs_diag := d\<rparr>)) = Some (Started da)"
    by (auto simp: startup_def)
  then have "newRunCmd 1 63 ?pg ''c'' [] None demo_boot = Some (Inr (Some (app, ?ra, da)))"
    using touch app(1)
    by (simp add: newRunCmd_def sample_load cfg(1) path) (simp add: sample_program_def)
  then show ?thesis by (intro exI conjI) (assumption, simp_all)
qed



text \<open>A command line parser for the examples.\<close>

definition sample_cobra :: "root_cmd \<Rightarrow> string list \<Rightarrow> parsed" where
  "sample_cobra cmds args =
     (case args of
        [cmd, ''-c'', path] \<Rightarrow>
          (case map_of (rc_commands cmds) cmd of
             None \<Rightarrow> Refused (ErrText [Lit ''unknown command '', Quoted cmd])
           | Some sub \<Rightarrow> Chosen sub [config_flag \<mapsto> path])
      | _ \<Rightarrow> HelpShown)"

lemma sample_cobra_run: "sample_cobra newRootCmd [''run'', ''-c'', ''c''] = Chosen RunCmd [config_flag \<mapsto> ''c'']"
  by (simp add: sample_cobra_def newRootCmd_def)

theorem run_command_witness:
  "\<forall>px. \<exists>app ra da. main 1 63 (sample_program px) sample_cobra [''run'', ''-c'', ''c''] demo_boot = Some (Serving app ra da)
     \<and> map ns_typ (ap_notifiers app) = [''stdout''] \<and> da_schedule da = TickerSource hour"
proof
  fix px :: "int plugin_env"
  obtain app ra da where "newRunCmd 1 63 (sample_program px) ''c'' [] None demo_boot = Some (Inr (Some (app, ra, da)))"
    and ra: "ra_statePath ra = ''s''" "ra_cfg ra = sample_config" using sample_runs by blast
  then have run: "main 1 63 (sample_program px) sample_cobra [''run'', ''-c'', ''c''] demo_boot = Some (Serving app ra da)"
    by (simp add: main_def sample_cobra_run flag_values run_process_def) (simp add: config_flag_def log_level_flag_def)
  have laws: "codec_laws (ap_codec (pg_base (sample_program px)))" "io_read (pg_io (sample_program px)) (ra_statePath ra) = None"
    by (simp_all add: sample_program_def demo_app_def demo_codec_laws) (simp add: demo_io_def)
  have "\<nexists>q. cfg_state_file (ra_cfg ra) = q @ stamp_name"
    by (simp add: ra sample_config_def stamp_name_def append_eq_Cons_conv Cons_eq_append_conv)
  moreover have "env_laws (pg_env (sample_program px))"
    by (simp add: sample_program_def demo_app_def tagged_engine_def demo_engine_def clock_env_laws)
  moreover have "net_mono ((oe_net (pg_oci (sample_program px)))\<lparr>nt_env := pg_env (sample_program px)\<rparr>)"
    by (simp add: sample_program_def demo_app_def tagged_engine_def demo_engine_def net_mono_def log_mono_def slog_Default_def
        sample_oci_env_def clock_net_def clock_env_def)
  moreover have "t_registry (cfg_timeouts (ra_cfg ra)) \<le> int 30 * second"
    by (simp add: ra sample_config_def default_config_def second_def)
  ultimately have C: "map ns_typ (ap_notifiers app) = map pc_type (cfg_notifiers (ra_cfg ra))
      \<and> newScheduleSource (pg_add_func (sample_program px)) (pg_sys (sample_program px)) (ra_cfg ra) = Source (da_schedule da)"
    using run_command [OF run daemon_steps.stop laws, of 30] by simp
  then have "map ns_typ (ap_notifiers app) = map pc_type (cfg_notifiers sample_config)"
    and "newScheduleSource (pg_add_func (sample_program px)) (pg_sys (sample_program px)) sample_config
      = Source (da_schedule da)" by (simp_all only: ra(2))
  then have "map ns_typ (ap_notifiers app) = [''stdout'']" "da_schedule da = TickerSource hour"
    by (simp_all add: newScheduleSource_def sample_config_def default_config_def hour_def minute_def second_def)
  with run show "\<exists>app ra da. main 1 63 (sample_program px) sample_cobra [''run'', ''-c'', ''c''] demo_boot = Some (Serving app ra da)
     \<and> map ns_typ (ap_notifiers app) = [''stdout''] \<and> da_schedule da = TickerSource hour"
    by (intro exI [of _ app] exI [of _ ra] exI [of _ da] conjI)
qed

end
