(* ===== verification/EndToEnd.thy ===== *)
theory EndToEnd
  imports Oci
begin

text \<open>
  The engine over the real registry client: the check of a container from its image reference to the tags
  on the pages of its registry, through the pass cache, the retries, the client and its transports.
\<close>

section \<open>Listing through a pass\<close>

lemma ListTags_fresh:
  assumes "cachedListTags (list_key host repo) host repo p = None" and "reg_ListTags reg c repo w = (Inr tags, w')"
  shows "ListTags n e c reg host repo p w = Some (Inr tags, storeListTags (list_key host repo) (Inr tags) p, w')"
  by (simp add: ListTags_def fetchWithRetry_def assms Let_def)

lemma storeListTags_lookup: "map_of (ps_listTags (storeListTags key res p)) key = Some res"
  by (simp add: storeListTags_def)

text \<open>A 429 whose delay is missing or too long ends the request at once and marks the host.\<close>

lemma ListTags_limited:
  assumes "cachedListTags (list_key host repo) host repo p = None"
    and "reg_ListTags reg c repo w = (Inl (RateLimitError delay err), w')"
    and "\<not> permanent (RateLimitError delay err)" and "delay \<le> 0 \<or> maxRegistryRetryAfter < delay"
  shows "\<exists>p'. ListTags (Suc n) e c reg host repo p w = Some (Inl ErrRateLimited, p', w') \<and> isRateLimitedLocked host p'"
proof -
  have "isRateLimit (RateLimitError delay err)" "fst (RetryAfterFromError (RateLimitError delay err)) = delay"
    by (simp_all add: isRateLimit_def RetryAfterFromError_def is_rate_limit_error_def)
  moreover have "isRateLimitedLocked host (markRateLimited host p)"
    by (simp add: markRateLimited_def isRateLimitedLocked_def log_marked_def pass_log_def)
  moreover have "isRateLimitedLocked host (storeListTags key res q) = isRateLimitedLocked host q" for key res q
    by (simp add: storeListTags_def isRateLimitedLocked_def)
  ultimately show ?thesis
    using assms by (simp add: ListTags_def fetchWithRetry_def Let_def)
qed

lemma limited_answers:
  assumes "isRateLimitedLocked host p"
  shows "ListTags n e c reg host repo p w = Some (Inl ErrRateLimited, p, w)"
    and "TagDigest n e c reg host repo tag p w = Some (Inl ErrRateLimited, p, w)"
  by (simp_all add: ListTags_def TagDigest_def cachedListTags_def cachedTagDigest_def assms Let_def)

text \<open>A mark stays for the rest of the pass, whatever is checked in between.\<close>

lemma checkContainer_grows:
  "checkContainer n en c ctr st = Some (out, st') \<Longrightarrow> grows (eg_pass st) (eg_pass st')"
  by (fastforce simp: checkContainer_def checkDigest_def Let_def grows_refl
      split: sum.splits prod.splits option.splits if_splits dest: ListTags_effect TagDigest_effect)

lemma grows_limited: "grows p q \<Longrightarrow> isRateLimitedLocked host p \<Longrightarrow> isRateLimitedLocked host q"
  by (auto simp: grows_def isRateLimitedLocked_def)

lemma check_loop_grows:
  "check_loop n en c ctrs t st = Some (out, st') \<Longrightarrow> grows (eg_pass st) (eg_pass st')"
proof (induction ctrs arbitrary: t st)
  case (Cons ctr ctrs)
  then obtain x st1 where first: "checkContainer n en c ctr st = Some (x, st1)"
    by (auto simp: Let_def split: option.splits)
  note g = checkContainer_grows [OF first]
  show ?case
  proof (cases x)
    case (Inl err)
    show ?thesis
    proof (cases "e_err (en_env en) c (eg_world st1)")
      case None
      with Cons.prems first Inl show ?thesis
        by (simp add: Let_def) (drule Cons.IH, simp, rule grows_trans [OF g])
    next
      case (Some e)
      with Cons.prems first Inl g show ?thesis by (simp add: Let_def)
    qed
  next
    case (Inr r)
    with Cons.prems first show ?thesis
      by (simp add: Let_def) (drule Cons.IH, simp, rule grows_trans [OF g])
  qed
qed (simp add: grows_refl)

text \<open>
  The engine with other answers in the place of what the registry of a host does. Once the host is marked
  the check of a container cannot tell the difference, so it does not call the registry.
\<close>

definition other_answers :: "string \<Rightarrow> (ctx \<Rightarrow> string \<Rightarrow> ('w, string list) request)
    \<Rightarrow> (ctx \<Rightarrow> string \<Rightarrow> string \<Rightarrow> ('w, string) request) \<Rightarrow> ('v, 'w) engine \<Rightarrow> ('v, 'w) engine" where
  "other_answers host list_answer digest_answer en =
     en\<lparr>en_registries := map (\<lambda>reg. if reg_host reg = host
         then \<lparr>reg_host = host, reg_ListTags = list_answer, reg_TagDigest = digest_answer\<rparr> else reg) (en_registries en)\<rparr>"

lemma other_answers_simps [simp]:
  "en_provider (other_answers h f g en) = en_provider en" "en_timeouts (other_answers h f g en) = en_timeouts en"
  "en_rules (other_answers h f g en) = en_rules en" "en_rule_lines (other_answers h f g en) = en_rule_lines en"
  "en_exclude (other_answers h f g en) = en_exclude en" "en_semver (other_answers h f g en) = en_semver en"
  "en_parse (other_answers h f g en) = en_parse en" "en_env (other_answers h f g en) = en_env en"
  by (simp_all add: other_answers_def)

lemma other_answers_registry:
  "registryForHost (en_registries (other_answers h f g en)) host =
     (case registryForHost (en_registries en) host of
        Inl err \<Rightarrow> Inl err
      | Inr reg \<Rightarrow> Inr (if host = h then \<lparr>reg_host = h, reg_ListTags = f, reg_TagDigest = g\<rparr> else reg))"
proof -
  have "registryForHost (map (\<lambda>reg. if reg_host reg = h
         then \<lparr>reg_host = h, reg_ListTags = f, reg_TagDigest = g\<rparr> else reg) regs) host =
     (case registryForHost regs host of
        Inl err \<Rightarrow> Inl err
      | Inr reg \<Rightarrow> Inr (if host = h then \<lparr>reg_host = h, reg_ListTags = f, reg_TagDigest = g\<rparr> else reg))" for regs
    by (induction regs) auto
  then show ?thesis by (simp add: other_answers_def)
qed

lemma checkContainer_limited:
  assumes "isRateLimitedLocked host (eg_pass st)"
  shows "checkContainer n (other_answers host f g en) c ctr st = checkContainer n en c ctr st"
proof (cases "parse (en_parse en) (c_image_ref ctr)")
  case (Inr p)
  have digest: "checkDigest n (other_answers host f g en) c ctr p (if p_host p = host
        then \<lparr>reg_host = host, reg_ListTags = f, reg_TagDigest = g\<rparr> else reg) (st\<lparr>eg_diag := d\<rparr>)
      = checkDigest n en c ctr p reg (st\<lparr>eg_diag := d\<rparr>)" for reg d
    using assms
    by (cases "p_host p = host") (simp_all add: checkDigest_def limited_answers Let_def split: prod.split)
  show ?thesis
  proof (cases "registryForHost (en_registries en) (p_host p)")
    case (Inr reg)
    show ?thesis
      using assms \<open>parse (en_parse en) (c_image_ref ctr) = Inr p\<close> Inr digest [of reg]
      by (cases "p_host p = host")
        (auto simp: checkContainer_def other_answers_registry limited_answers Let_def split: prod.split option.split sum.split)
  next
    case (Inl err)
    with \<open>parse (en_parse en) (c_image_ref ctr) = Inr p\<close> show ?thesis
      by (simp add: checkContainer_def other_answers_registry Let_def)
  qed
qed (simp add: checkContainer_def)

lemma check_loop_limited:
  assumes "isRateLimitedLocked host (eg_pass st)"
  shows "check_loop n (other_answers host f g en) c ctrs t st = check_loop n en c ctrs t st"
  using assms
proof (induction ctrs arbitrary: t st)
  case (Cons ctr ctrs)
  have "isRateLimitedLocked host (eg_pass st1)" if "checkContainer n en c ctr st = Some (x, st1)" for x st1
    using checkContainer_grows [OF that] Cons.prems by (rule grows_limited)
  with checkContainer_limited [OF Cons.prems, of n f g en c ctr] Cons.IH show ?case
    by (auto simp: Let_def split: option.splits sum.splits)
qed simp

lemma limited_for_good:
  fixes st :: "'w engine_state"
  assumes "isRateLimitedLocked host (eg_pass st)"
  shows "(\<forall>n e cx (reg :: 'w registry) repo w.
      ListTags n e cx reg host repo (eg_pass st) w = Some (Inl ErrRateLimited, eg_pass st, w))
    \<and> (\<forall>n e cx (reg :: 'w registry) repo tag w.
      TagDigest n e cx reg host repo tag (eg_pass st) w = Some (Inl ErrRateLimited, eg_pass st, w))
    \<and> (\<forall>k ctrs t out st''. check_loop k en c ctrs t st = Some (out, st'') \<longrightarrow>
        (\<forall>n e cx (reg :: 'w registry) repo w.
          ListTags n e cx reg host repo (eg_pass st'') w = Some (Inl ErrRateLimited, eg_pass st'', w))
        \<and> (\<forall>n e cx (reg :: 'w registry) repo tag w.
          TagDigest n e cx reg host repo tag (eg_pass st'') w = Some (Inl ErrRateLimited, eg_pass st'', w)))
    \<and> (\<forall>k ctrs t f g.
        check_loop k (other_answers host f g en) c ctrs t st = check_loop k en c ctrs t st)"
proof -
  have "isRateLimitedLocked host (eg_pass st'')" if "check_loop k en c ctrs t st = Some (out, st'')" for k ctrs t out st''
    using check_loop_grows [OF that] assms by (rule grows_limited)
  then show ?thesis by (auto simp: limited_answers assms check_loop_limited)
qed

section \<open>Properties\<close>

text \<open>
  C18. From the image of a container to its update: if the tag of the image is a semantic version and the
  registry of its host answers all pages, the check of the container reports an update exactly when a
  tag on one of the pages passes the rule and is an admissible newer version; what it reports is the
  newest of all pages; and the tags are kept, so that the pass does not ask for them again.
\<close>

theorem container_against_registry:
  assumes "semver_laws (en_semver en)" and "parse (en_parse en) (c_image_ref ctr) = Inr p" and "p_tag p \<noteq> []"
    and "registryForHost (en_registries en) (p_host p) = Inr (oci_registry oe r)"
    and "resolveTrackingMode (en_semver en) (en_rules en) (p_host p) (p_repo p) (p_tag p) (c_name ctr) (c_labels ctr)
      = (ModeSemver, rule, cause)"
    and "cachedListTags (list_key (p_host p) (p_repo p)) (p_host p) (p_repo p) (eg_pass st) = None"
    and "c' = with_timeout (en_env en) c (t_registry (en_timeouts en)) (eg_world st)"
    and "rm_repository (oe_remote oe) (nameOpts r) (oc_host r @ ''/'' @ p_repo p) = None"
    and "rm_puller (oe_remote oe) (oc_auth r) = None"
    and "listing_result oe r c' (p_repo p) (eg_world st) = Inr tags"
  shows "\<exists>res st'. checkContainer n en c ctr st = Some (Inr res, st')
    \<and> map_of (ps_listTags (eg_pass st')) (list_key (p_host p) (p_repo p)) = Some (Inr tags)
    \<and> (cr_status res = statusUpdate \<longleftrightarrow> tag_allowed rule (p_tag p) \<and>
        (\<exists>cur. sv_NewVersion (en_semver en) (p_tag p) = Inr cur \<and>
          (\<exists>t\<in>set tags. tag_allowed rule t \<and>
            (\<exists>v. semver_cand (en_semver en) (rule_include rule = None) t = Some v \<and> sv_GreaterThan (en_semver en) v cur))))
    \<and> (\<forall>u. cr_update res = Some u \<longrightarrow> (\<exists>v. u_latest_tag u \<in> set tags \<and> tag_allowed rule (u_latest_tag u)
        \<and> semver_cand (en_semver en) (rule_include rule = None) (u_latest_tag u) = Some v
        \<and> (\<forall>t\<in>set tags. tag_allowed rule t \<longrightarrow>
             (\<forall>v'. semver_cand (en_semver en) (rule_include rule = None) t = Some v'
               \<longrightarrow> \<not> sv_GreaterThan (en_semver en) v' v))))"
proof -
  have "fst (reg_ListTags (oci_registry oe r) c' (p_repo p) (eg_world st)) = Inr tags"
    using listing_joined [OF assms(8,9)] assms(10) by simp
  then obtain w1 where "reg_ListTags (oci_registry oe r) c' (p_repo p) (eg_world st) = (Inr tags, w1)"
    by (metis prod.collapse)
  note listed = ListTags_fresh [OF assms(6) this, of n "en_env en"]
  have mode: "ModeSemver \<noteq> ModeDigest" by (simp add: ModeSemver_def ModeDigest_def)
  let ?d = "logTrackingDiagnostics (c_name ctr) (p_repo p) (p_tag p) ModeSemver cause rule
      (log_lines (tracking_lines (en_rule_lines en) (p_host p) (p_repo p) (c_name ctr) (c_labels ctr)) (eg_diag st))"
  have check: "checkContainer n en c ctr st =
      (case check_tags (en_semver en) ctr p ModeSemver rule tags (e_now (en_env en) w1) ?d of
         (res, d') \<Rightarrow> Some (Inr res, st\<lparr>eg_pass := storeListTags (list_key (p_host p) (p_repo p)) (Inr tags) (eg_pass st),
           eg_world := w1, eg_diag := d'\<rparr>))"
    using listed mode by (simp add: checkContainer_def assms(2-5) assms(7) [symmetric] Let_def)
  obtain res d' where run: "check_tags (en_semver en) ctr p ModeSemver rule tags (e_now (en_env en) w1) ?d = (res, d')"
    by fastforce
  from check_tags_semver [OF assms(1) run] show ?thesis
    unfolding check run by (auto simp: storeListTags_lookup)
qed

text \<open>
  C17. A registry that limits the rate is left alone: if a page of a listing is refused with a 429 whose
  \<open>Retry-After\<close> is missing or longer than ten seconds, the check skips the container as rate limited, or
  ends with its context; and from then on the pass makes no call to this host, whatever containers it
  still checks: at the end of any further part of the pass every request for the host is answered at once
  and leaves the world as it is, and the further part runs the same whatever the registry of this host
  would do if it were called.
\<close>

theorem limited_registry_left_alone:
  fixes en :: "('v, 'w) engine"
  assumes "parse (en_parse en) (c_image_ref ctr) = Inr p" and "p_tag p \<noteq> []"
    and "registryForHost (en_registries en) (p_host p) = Inr (oci_registry oe r)"
    and "resolveTrackingMode (en_semver en) (en_rules en) (p_host p) (p_repo p) (p_tag p) (c_name ctr) (c_labels ctr)
      = (mode, rule, cause)" and "mode \<noteq> ModeDigest"
    and "cachedListTags (list_key (p_host p) (p_repo p)) (p_host p) (p_repo p) (eg_pass st) = None"
    and "c' = with_timeout (en_env en) c (t_registry (en_timeouts en)) (eg_world st)"
    and "rm_repository (oe_remote oe) (nameOpts r) (oc_host r @ ''/'' @ p_repo p) = None"
    and "rm_puller (oe_remote oe) (oc_auth r) = None"
    and "listing_result oe r c' (p_repo p) (eg_world st) = Inl (ErrTransport 429 delay m)"
    and "delay \<le> 0 \<or> 10 * second < delay"
  shows "\<exists>answer st'. checkContainer (Suc n) en c ctr st = Some (answer, st')
    \<and> (answer = Inr (skipped (base_result ctr) (Reason [Lit txt_rate_limited]))
        \<or> (\<exists>e. e_err (en_env en) c (eg_world st') = Some e \<and> answer = Inl e))
    \<and> (\<forall>n e cx (reg :: 'w registry) repo w. ListTags n e cx reg (p_host p) repo (eg_pass st') w = Some (Inl ErrRateLimited, eg_pass st', w))
    \<and> (\<forall>n e cx (reg :: 'w registry) repo tag w.
        TagDigest n e cx reg (p_host p) repo tag (eg_pass st') w = Some (Inl ErrRateLimited, eg_pass st', w))
    \<and> (\<forall>k ctrs t out st''. check_loop k en c ctrs t st' = Some (out, st'') \<longrightarrow>
        (\<forall>n e cx (reg :: 'w registry) repo w.
          ListTags n e cx reg (p_host p) repo (eg_pass st'') w = Some (Inl ErrRateLimited, eg_pass st'', w))
        \<and> (\<forall>n e cx (reg :: 'w registry) repo tag w.
          TagDigest n e cx reg (p_host p) repo tag (eg_pass st'') w = Some (Inl ErrRateLimited, eg_pass st'', w)))
    \<and> (\<forall>k ctrs t f g. check_loop k (other_answers (p_host p) f g en) c ctrs t st'
        = check_loop k en c ctrs t st')"
proof -
  let ?err = "RateLimitError delay (ErrTransport 429 delay m)"
  have "fst (reg_ListTags (oci_registry oe r) c' (p_repo p) (eg_world st)) = Inl ?err"
    using listing_joined [OF assms(8,9)] assms(10) by (simp add: mapRegistryError_def is_transport_error_def)
  then obtain w1 where call: "reg_ListTags (oci_registry oe r) c' (p_repo p) (eg_world st) = (Inl ?err, w1)"
    by (metis prod.collapse)
  have "\<not> permanent ?err" by (simp add: permanent_def err_is_def err_matches_def)
  from ListTags_limited [OF assms(6) call this] assms(11) obtain p' where
    listed: "ListTags (Suc n) (en_env en) c' (oci_registry oe r) (p_host p) (p_repo p) (eg_pass st) (eg_world st)
      = Some (Inl ErrRateLimited, p', w1)" and limited: "isRateLimitedLocked (p_host p) p'"
    unfolding maxRegistryRetryAfter_def by blast
  let ?d = "logTrackingDiagnostics (c_name ctr) (p_repo p) (p_tag p) mode cause rule
      (log_lines (tracking_lines (en_rule_lines en) (p_host p) (p_repo p) (c_name ctr) (c_labels ctr)) (eg_diag st))"
  let ?answer = "mapRegistryRequestError (e_err (en_env en) c w1) (base_result ctr) ''list tags'' (p_repo p) ErrRateLimited"
  have check: "checkContainer (Suc n) en c ctr st = Some (?answer, st\<lparr>eg_diag := ?d, eg_pass := p', eg_world := w1\<rparr>)"
    using listed assms(5) by (simp add: checkContainer_def assms(1-4) assms(7) [symmetric] Let_def)
  moreover have "?answer = Inr (skipped (base_result ctr) (Reason [Lit txt_rate_limited]))
      \<or> (\<exists>e. e_err (en_env en) c w1 = Some e \<and> ?answer = Inl e)"
    by (simp add: mapRegistryRequestError_def err_is_def err_matches_def split: option.split)
  ultimately show ?thesis
    using check limited_for_good [of "p_host p" "st\<lparr>eg_diag := ?d, eg_pass := p', eg_world := w1\<rparr>" en c] limited by simp
qed

text \<open>An engine with the client of a registry with two pages.\<close>

definition paged_engine :: "(numericVersion, int) engine" where
  "paged_engine = demo_engine
     \<lparr>en_registries := [oci_registry (sample_oci_env clock_net) sample_oci],
      en_parse := \<lambda>_. Inr \<lparr>nr_registry = ''h'', nr_repository = ''a'', nr_kind = TagRef ''1.0''\<rparr>\<rparr>"

definition paged_state :: "int engine_state" where
  "paged_state = \<lparr>eg_diag = demo_diag, eg_pass = New, eg_world = 0\<rparr>"

definition paged_ref :: parsed where
  "paged_ref = \<lparr>p_host = ''h'', p_repo = ''a'', p_tag = ''1.0'', p_digest = []\<rparr>"

lemma paged_parse: "parse (en_parse paged_engine) (c_image_ref demo_container) = Inr paged_ref"
proof -
  have "trim_space ''ghcr.io/a/b@d'' = ''ghcr.io/a/b@d''"
    by (rule trim_space_id) (simp_all add: graphic_def)
  then show ?thesis
    by (simp add: parse_def bareDigestRef_def sha256_prefix_def paged_engine_def paged_ref_def demo_container_def)
qed

theorem container_against_registry_witness:
  "\<exists>res st'. checkContainer 1 paged_engine None demo_container paged_state = Some (Inr res, st')
     \<and> cr_status res = statusUpdate"
proof -
  let ?oe = "sample_oci_env clock_net" and ?c = "with_timeout clock_env None (30 * second) 0"
  have eng: "en_semver paged_engine = numeric_semver" "en_rules paged_engine = None" "en_env paged_engine = clock_env"
    "t_registry (en_timeouts paged_engine) = 30 * second" "eg_world paged_state = 0" "eg_pass paged_state = New"
    "registryForHost (en_registries paged_engine) ''h'' = Inr (oci_registry ?oe sample_oci)"
    by (simp_all add: paged_engine_def demo_engine_def paged_state_def oci_registry_def sample_oci_def)
  have ref: "p_host paged_ref = ''h''" "p_repo paged_ref = ''a''" "p_tag paged_ref = ''1.0''" by (simp_all add: paged_ref_def)
  have tags: "listing_result ?oe sample_oci ?c ''a'' 0 = Inr [''1.0'', ''1.1'', ''2.0'']" by code_simp
  have fresh: "cachedListTags (list_key ''h'' ''a'') ''h'' ''a'' New = None" by code_simp
  obtain cur where cur: "sv_NewVersion numeric_semver ''1.0'' = Inr cur"
    and newer: "\<exists>v. semver_cand numeric_semver True ''2.0'' = Some v \<and> sv_GreaterThan numeric_semver v cur"
  proof -
    have "(case sv_NewVersion numeric_semver ''1.0'' of Inl _ \<Rightarrow> False | Inr cur \<Rightarrow>
        (case semver_cand numeric_semver True ''2.0'' of None \<Rightarrow> False | Some v \<Rightarrow> sv_GreaterThan numeric_semver v cur))"
      by code_simp
    then show thesis using that by (auto split: sum.splits option.splits)
  qed
  have mode: "resolveTrackingMode numeric_semver None ''h'' ''a'' ''1.0'' (c_name demo_container) (c_labels demo_container)
      = (ModeSemver, None, [])" by (simp add: resolveTrackingMode_def cur)
  from container_against_registry [of paged_engine demo_container paged_ref ?oe sample_oci None "[]" paged_state ?c None
      "[''1.0'', ''1.1'', ''2.0'']" 1] paged_parse numeric_semver_laws eng ref tags mode fresh cur newer
    sample_oci_checks(1) [of clock_net "oc_host sample_oci @ ''/a''"] sample_oci_checks(2) [of clock_net]
  show ?thesis by (auto simp: tag_allowed_def rule_include_def)
qed

text \<open>The same engine against a repository whose second page is refused for too long.\<close>

definition refusing_net :: "int net" where
  "refusing_net = clock_net\<lparr>nt_send := \<lambda>_ req w.
     (sample_events w, Inr \<lparr>rr_status = 429, rr_header = [(''Retry-After'', ''60'')], rr_body = [], rr_captured = None\<rparr>, w + 1)\<rparr>"

definition refusing_remote :: remote where
  "refusing_remote = sample_remote\<lparr>rm_lister := \<lambda>_ _ ref. Send (page_call ref ''1'')
     (\<lambda>answer. Return (map_sum id (\<lambda>_. Exhausted) (second_page answer)))\<rparr>"

theorem limited_registry_left_alone_witness:
  "\<exists>answer st'. checkContainer 1 (paged_engine\<lparr>en_registries :=
       [oci_registry ((sample_oci_env refusing_net)\<lparr>oe_remote := refusing_remote\<rparr>) sample_oci]\<rparr>) None demo_container paged_state
       = Some (answer, st')
     \<and> answer = Inr (skipped (base_result demo_container) (Reason [Lit txt_rate_limited]))
     \<and> ListTags 0 clock_env None (ok_registry ''h'') ''h'' ''b'' (eg_pass st') 5 = Some (Inl ErrRateLimited, eg_pass st', 5)"
proof -
  let ?oe = "(sample_oci_env refusing_net)\<lparr>oe_remote := refusing_remote\<rparr>" and ?c = "with_timeout clock_env None (30 * second) 0"
  let ?en = "paged_engine\<lparr>en_registries := [oci_registry ?oe sample_oci]\<rparr>"
  have eng: "en_semver ?en = numeric_semver" "en_rules ?en = None" "en_env ?en = clock_env"
    "t_registry (en_timeouts ?en) = 30 * second" "eg_world paged_state = 0" "eg_pass paged_state = New"
    "registryForHost (en_registries ?en) ''h'' = Inr (oci_registry ?oe sample_oci)" "en_parse ?en = en_parse paged_engine"
    by (simp_all add: paged_engine_def demo_engine_def paged_state_def oci_registry_def sample_oci_def)
  have ref: "p_host paged_ref = ''h''" "p_repo paged_ref = ''a''" "p_tag paged_ref = ''1.0''" by (simp_all add: paged_ref_def)
  have refused: "listing_result ?oe sample_oci ?c ''a'' 0 = Inl (ErrTransport 429 (60 * second) busy_msg)" by code_simp
  have fresh: "cachedListTags (list_key ''h'' ''a'') ''h'' ''a'' New = None" by code_simp
  obtain mode rule cause where mode: "resolveTrackingMode numeric_semver None ''h'' ''a'' ''1.0'' (c_name demo_container)
      (c_labels demo_container) = (mode, rule, cause)" "mode \<noteq> ModeDigest"
  proof -
    have "fst (resolveTrackingMode numeric_semver None ''h'' ''a'' ''1.0'' (c_name demo_container) (c_labels demo_container))
        \<noteq> ModeDigest" by code_simp
    then show thesis using that by (metis prod.collapse)
  qed
  have checks: "rm_repository (oe_remote ?oe) opts x = None" "rm_puller (oe_remote ?oe) a = None" for opts x a
    by (simp_all add: refusing_remote_def sample_remote_def)
  have alive: "e_err clock_env None w = None" for w by (simp add: clock_env_def)
  from limited_registry_left_alone [of ?en demo_container paged_ref ?oe sample_oci mode rule cause paged_state ?c None
      "60 * second" busy_msg 0] paged_parse eng ref refused mode fresh checks alive
  show ?thesis by (auto simp: second_def)
qed

end
