(* ===== verification/Spec2Isabelle.thy ===== *)
theory Spec2Isabelle
  imports Cmd EndToEnd
begin

text \<open>
  Versentry watches running Docker containers and announces newer versions of their images. This
  library models the Go program and proves what makes it correct. The program and its theories:

  \<^item> A pass. The daemon lists the running containers, resolves a rule for each, asks the registry of its
    image for tags or a digest, decides whether there is an update, delivers the new updates to all
    notifiers and records what was delivered. \<open>Engine\<close> is \<open>internal/core/engine.go\<close>: \<open>RunOnce\<close>,
    \<open>checkContainer\<close> with the semver, numeric and digest checks and every line of its log. It calls
    \<open>ImageRef\<close> (\<open>internal/imageref\<close>), \<open>Watch\<close> (\<open>core/watch.go\<close>), \<open>Rules\<close> (\<open>core/rules.go\<close>), \<open>Tracking\<close>
    (\<open>core/tracking_mode.go\<close>), \<open>Semver\<close> (\<open>core/semvercheck.go\<close>, \<open>core/bare_integer.go\<close>), \<open>Numeric\<close>
    (\<open>core/numeric.go\<close>) and \<open>RegistryPass\<close> (\<open>core/registrypass\<close>, \<open>registry/errors.go\<close>), the cache and the
    retries of one pass.
  \<^item> The state. \<open>StateStore\<close> (\<open>internal/state\<close>): the announced targets in memory and in a file that is
    replaced in one step; the disk keeps its history, so that a crash between two system calls is visible.
  \<^item> The daemon. \<open>App\<close> (\<open>core/app.go\<close>: \<open>NewApp\<close>, \<open>buildRegistries\<close>, \<open>notifyAll\<close>, \<open>runPass\<close>) is one pass with
    delivery and recording; \<open>Daemon\<close> (\<open>Run\<close>, \<open>runCoordinator\<close>, \<open>finishRun\<close>, \<open>newScheduleSource\<close>) the start
    and the loop, as a step relation \<open>daemon_step\<close> in which time passes, ticks and signals arrive, the
    heartbeat stamps and cases of the \<open>select\<close> statement are taken in any order, and a relation
    \<open>daemon_end\<close> for its two ways out; \<open>Health\<close> (\<open>internal/health\<close>) the liveness stamp; \<open>Cmd\<close>
    (\<open>cmd/versentry/main.go\<close>, \<open>internal/version\<close>) the commands that put all of it together and the
    process from its arguments to its exit status.
  \<^item> Configuration. \<open>Config\<close> and \<open>ConfigLoad\<close> (\<open>internal/config\<close>): the records YAML is decoded into, what
    \<open>Load\<close> refuses, the environment overrides, derived paths and names.
  \<^item> Registries and Docker. \<open>Oci\<close> (\<open>registry/oci/oci.go\<close>) is the client of one registry host. Its requests
    go through the transports of \<open>RegistryHttp\<close> (\<open>retry_after.go\<close> and the transport of \<open>hang_trace.go\<close>),
    which record them in the terms of \<open>HangTrace\<close> (\<open>hang_trace.go\<close>, \<open>errors.go\<close>), over the transport that
    \<open>Transport\<close> builds (\<open>transport.go\<close>, \<open>internal/netutil\<close>). \<open>Docker\<close> is \<open>provider/docker\<close>.
    \<open>EndToEnd\<close> puts the engine and the client together: the check of a container against its registry.
  \<^item> Notifiers. \<open>HttpRetry\<close> (\<open>notifier/httpretry\<close>) is the delivery with retries they share, \<open>Format\<close>,
    \<open>ImageWeb\<close> and \<open>Markup\<close> what they say (\<open>notifier/format\<close>, \<open>internal/imageweb\<close>, the escaping functions),
    \<open>NotifierBase\<close> their common helpers; then one theory per plugin, \<open>Gotify\<close>, \<open>Ntfy\<close>, \<open>Webhook\<close>,
    \<open>Telegram\<close>, \<open>Discord\<close> (with \<open>DiscordText\<close> for \<open>embed.go\<close>), \<open>Stdout\<close>, and \<open>Notifiers\<close> with the table of
    factories. \<open>Links\<close> is \<open>core/links.go\<close>, \<open>Logging\<close> the text handler of \<open>internal/logging\<close>.
  \<^item> Shared. \<open>Prelude\<close> (rule collections, maps as association lists, 64-bit arithmetic, two locales),
    \<open>GoStrings\<close> and \<open>GoPath\<close> (the functions of Go's library the program calls), \<open>Model\<close> (errors with their
    chains, containers, updates), \<open>Diagnostics\<close> (log lines and one-time warnings), \<open>World\<close> (the clock,
    contexts, timers and the default logger).

  Conventions. A struct is a record, an error a value of \<open>go_error\<close> with its chain, a fallible function
  returns \<open>error + value\<close>, and a function that blocks takes and returns the state \<open>'w\<close> of the outside
  world. A context is the deadline it carries. Durations are integers in nanoseconds; where a Go
  operation can leave 64 bits it is followed by \<open>wrap64\<close>. A Go string is a list of bytes; runes are
  decoded by \<open>runes\<close>. Libraries that are not part of the repository (YAML, JSON, templates, the HTTP
  client, URL parsing, regular expressions, cron, semantic versions, go-containerregistry, the Docker
  client, the file system's failures) are arguments: fields of \<open>sys\<close>, \<open>env\<close>, \<open>io\<close>, \<open>codec\<close>, \<open>tools\<close>,
  \<open>remote\<close>, \<open>net\<close> and the like. A call into go-containerregistry is a tree of the requests it makes, each
  continued by the answer, and of its own pauses (\<open>lib_call\<close>); it is run on the model's transports, so that
  everything it does to the world is modelled code or \<open>net/http\<close>. What is required of them is documented behaviour, named where it is assumed:
  \<open>env_laws\<close> (time does not run back, timers take their time), \<open>semver_laws\<close>, \<open>codec_laws\<close> (what was
  encoded is decoded), \<open>observes\<close> and \<open>quiet_client\<close> (the logger appends, the client does not log),
  \<open>call_mono\<close>, \<open>registry_mono\<close> and \<open>net_mono\<close> (a request takes no negative time), \<open>watches\<close>, \<open>counts\<close> and
  \<open>logs_inspections\<close> (what is closed, sent or inspected can be read from the world).

  Interfaces. \<open>best_pick\<close> (choosing the best candidate by one scan) is interpreted on the numeric
  selection; \<open>answer_store\<close> (a cache in front of a source that is asked at most once per key) on the
  pass cache; \<open>update_memory\<close> (what the state promises: new
  until announced, known until forgotten) on the store; \<open>push_channel\<close> (a notifier that renders bodies
  and posts them) on the five network notifiers; \<open>transport_layer\<close> (a transport around another one) on the
  capturing and the tracing transport.

  What is proved. For the pass: it returns, fails only with the fleet or its own context, never loses the
  key of a monitored container, and each check decides as its versions say; the registry layer asks
  once, does not call a host again that is rate limited, whatever it still checks, and stops with its
  deadline; a listing has the tags of
  all pages or the error, and says in the log how many requests it took; a connection is closed exactly if
  a live request has waited on it in vain. For the state and the
  daemon: nothing undelivered is recorded, everything delivered is, the file is replaced in one step,
  file and memory agree at every moment of the loop, no event is lost but a tick of an interval that is
  restarted, and only a failed listing or save ends the daemon with an error. An accepted configuration can still fail for its log level, a plugin's settings
  or an interval that is not positive, and for nothing else. For the notifiers: what is remembered was accepted by every server, escaped text reads back, what is sent to
  Discord by default keeps its limits, the answer of a delivery is that of the last of its attempts, a
  failure is logged once and at its end, waits between attempts are bounded, and the Telegram token stays
  hidden in returned errors - though not in the warnings of retries (\<open>telegram_retry_shows_token\<close>).

  Fuel. The retry functions of a request call one another without a structural measure; they take fuel
  and return \<open>None\<close> without it. \<open>fetch_returns\<close> and \<open>RunOnce_returns\<close> show that \<open>2 b + 3\<close> is enough for a
  deadline of \<open>b\<close> seconds, because every round sleeps at least a second; \<open>alternating_never_returns\<close>
  shows that without a deadline no fuel is. \<open>runChecks\<close> takes fuel for the queue of the coordinator, and
  one unit is enough since nothing is ever queued (\<open>daemon_never_queues\<close>). All other loops are
  structural or have a measure.

  Not modelled: the parsing inside the libraries above and of the command line by cobra, whose result is
  an argument of \<open>main\<close>; the writer and the lock of the log handler, and the lock of the request sink; the
  dialling itself; the alignment of the links table. A repository is taken to have finitely many pages, so
  that listing it is a total function. The lines of the engine and the daemon are a list of their own
  (\<open>diag\<close>), those of deliveries and registry requests are part of the outside world (\<open>e_log\<close>), so that the
  order between the two is not kept. A body that breaks with its error exactly at the limit of a megabyte
  is taken to have been read in full. The heartbeat goroutine and the
  signal channels are interleaved with whole cases of the loop, not with the statements inside one: they
  share with a case only the stamp file and the channels, which the case does not read. The warning that a
  schedule has no interval is logged by \<open>runHealthHeartbeat\<close> and \<open>health_Check\<close>, but not by the steps of the
  daemon.
\<close>

end
